(* ===== verification/Prelude.thy ===== *)
theory Prelude
  imports Main
begin

text \<open>
  Shared vocabulary of the development: the collections that gather the
  evaluation rules of the JavaScript value model and of the React component
  models, and generic facts on lists and maps that the component theories use.
\<close>

named_theorems js_simps "evaluation rules of the JavaScript value model"
named_theorems modal_simps "evaluation rules of the dialog synchronisation model"

subsection \<open>Lists\<close>

lemma length_butlast_le [simp]: "length (butlast xs) \<le> length xs"
  by simp

lemma butlast_snoc_id [simp]: "butlast (xs @ [x]) = xs"
  by simp

lemma list_update_set_subset: "set (xs[i := v]) \<subseteq> insert v (set xs)"
  by (rule set_update_subset_insert)

lemma set_butlast_subset: "set (butlast xs) \<subseteq> set xs"
  by (induction xs) auto

subsection \<open>Maps\<close>

lemma map_upd_other_key [simp]: "k \<noteq> k' \<Longrightarrow> (m(k \<mapsto> v)) k' = m k'"
  by simp

end
