(* ===== verification/JsValue.thy ===== *)
theory JsValue
  imports Complex_Main Prelude
begin

text \<open>
  The JavaScript values the components manipulate, and the string-to-number
  coercion \<open>Number(value)\<close> and \<open>+value\<close> that \<open>handleModalInputChange\<close>
  (src/src/pages/ProductPage.jsx) applies to form input.  Both expressions
  evaluate ECMAScript's StringToNumber on the input's string value; it is
  modelled here on the grammar StringNumericLiteral: surrounding white space is
  trimmed, the empty string is 0, decimal literals with optional sign,
  fraction and exponent, the words \<open>Infinity\<close>, and the prefixed integer
  literals \<open>0x\<close>, \<open>0o\<close>, \<open>0b\<close>; anything else is \<open>NaN\<close>.
  Finite numbers are kept as exact rationals: the rounding to IEEE doubles
  (and so the overflow of huge exponents to Infinity and the sign of zero) is
  not modelled, and white space is the ASCII part of ECMAScript's set.
\<close>

section \<open>Values\<close>

datatype jsnum = Fin rat | PosInf | NegInf | NaN

datatype js_error = TypeError

datatype jsval =
    JUndef
  | JNull
  | JBool bool
  | JNum jsnum
  | JStr string
  | JArr "jsval list"

text \<open>Unary minus on numbers, as the sign of a decimal literal applies it.\<close>

fun js_neg :: "jsnum \<Rightarrow> jsnum" where
  "js_neg (Fin q) = Fin (- q)"
| "js_neg PosInf = NegInf"
| "js_neg NegInf = PosInf"
| "js_neg NaN = NaN"

text \<open>Spread of a value into an array literal, \<open>[...v]\<close>: arrays are copied,
  strings iterate their characters, every other value raises a TypeError.\<close>

fun js_spread :: "jsval \<Rightarrow> js_error + jsval list" where
  "js_spread (JArr xs) = Inr xs"
| "js_spread (JStr s) = Inr (map (\<lambda>c. JStr [c]) s)"
| "js_spread _ = Inl TypeError"

text \<open>Assignment \<open>a[i] = v\<close> to an array at a non-negative index: in range it
  replaces the element, beyond the end it extends the array, the gap reading
  as \<open>undefined\<close>.\<close>

definition js_array_set :: "jsval list \<Rightarrow> nat \<Rightarrow> jsval \<Rightarrow> jsval list" where
  "js_array_set xs i v =
     (if i < length xs then xs[i := v]
      else xs @ replicate (i - length xs) JUndef @ [v])"

section \<open>StringToNumber\<close>

definition is_js_ws :: "char \<Rightarrow> bool" where
  "is_js_ws c \<longleftrightarrow> c \<in> set [CHR 0x09, CHR 0x0A, CHR 0x0B, CHR 0x0C, CHR 0x0D, CHR 0x20]"

definition js_trim :: "string \<Rightarrow> string" where
  "js_trim s = rev (dropWhile is_js_ws (rev (dropWhile is_js_ws s)))"

text \<open>The value of a digit in base \<open>b\<close> (2, 8, 10 or 16), if it is one.\<close>

definition digit_value :: "nat \<Rightarrow> char \<Rightarrow> nat option" where
  "digit_value b c =
     (let n = of_char c :: nat;
          d = (if 48 \<le> n \<and> n \<le> 57 then Some (n - 48)
               else if 97 \<le> n \<and> n \<le> 102 then Some (n - 87)
               else if 65 \<le> n \<and> n \<le> 70 then Some (n - 55)
               else None)
      in case d of Some v \<Rightarrow> if v < b then Some v else None | None \<Rightarrow> None)"

definition is_digit :: "char \<Rightarrow> bool" where
  "is_digit c \<longleftrightarrow> digit_value 10 c \<noteq> None"

text \<open>A non-empty digit string in base \<open>b\<close> and its value.\<close>

fun digits_acc :: "nat \<Rightarrow> nat \<Rightarrow> string \<Rightarrow> nat option" where
  "digits_acc b acc [] = Some acc"
| "digits_acc b acc (c # cs) =
     (case digit_value b c of None \<Rightarrow> None | Some d \<Rightarrow> digits_acc b (b * acc + d) cs)"

definition parse_digits :: "nat \<Rightarrow> string \<Rightarrow> nat option" where
  "parse_digits b s = (if s = [] then None else digits_acc b 0 s)"

text \<open>SignedInteger of an ExponentPart.\<close>

definition parse_signed_int :: "string \<Rightarrow> int option" where
  "parse_signed_int s =
     (case s of
        [] \<Rightarrow> None
      | c # ds \<Rightarrow>
          if c = CHR ''+'' then map_option int (parse_digits 10 ds)
          else if c = CHR ''-'' then map_option (\<lambda>n. - int n) (parse_digits 10 ds)
          else map_option int (parse_digits 10 s))"

text \<open>ExponentPart, optional: nothing left is exponent 0.\<close>

definition parse_exponent :: "string \<Rightarrow> int option" where
  "parse_exponent s =
     (case s of
        [] \<Rightarrow> Some 0
      | c # r \<Rightarrow> if c = CHR ''e'' \<or> c = CHR ''E'' then parse_signed_int r else None)"

text \<open>The exact value \<open>m \<cdot> 10^e\<close> of a decimal literal.\<close>

definition dec_scale :: "nat \<Rightarrow> int \<Rightarrow> rat" where
  "dec_scale m e =
     (if 0 \<le> e then of_nat m * 10 ^ nat e else of_nat m / 10 ^ nat (- e))"

text \<open>The parts of a decimal literal: integer digits, whether a point
  follows them, the fraction digits after the point, and the rest.\<close>

definition split_decimal :: "string \<Rightarrow> string \<times> bool \<times> string \<times> string" where
  "split_decimal s =
     (let ip = takeWhile is_digit s; r1 = dropWhile is_digit s in
      case r1 of
        c # r \<Rightarrow>
          if c = CHR ''.'' then (ip, True, takeWhile is_digit r, dropWhile is_digit r)
          else (ip, False, [], r1)
      | [] \<Rightarrow> (ip, False, [], []))"

text \<open>StrUnsignedDecimalLiteral without Infinity: integer digits, an optional
  point with optional fraction digits, an optional exponent; at least one digit
  before or after the point.\<close>

definition parse_unsigned_decimal :: "string \<Rightarrow> rat option" where
  "parse_unsigned_decimal s =
     (case split_decimal s of
        (ip, dot, fp, r2) \<Rightarrow>
          if ip = [] \<and> fp = [] then None
          else case parse_exponent r2 of
                 None \<Rightarrow> None
               | Some e \<Rightarrow>
                   (case digits_acc 10 0 (ip @ fp) of
                      None \<Rightarrow> None
                    | Some m \<Rightarrow> Some (dec_scale m (e - int (length fp)))))"

definition parse_unsigned :: "string \<Rightarrow> jsnum option" where
  "parse_unsigned s =
     (if s = ''Infinity'' then Some PosInf else map_option Fin (parse_unsigned_decimal s))"

text \<open>StrDecimalLiteral: an optional sign before the unsigned literal.\<close>

definition parse_str_decimal :: "string \<Rightarrow> jsnum option" where
  "parse_str_decimal s =
     (case s of
        c # r \<Rightarrow>
          if c = CHR ''+'' then parse_unsigned r
          else if c = CHR ''-'' then map_option js_neg (parse_unsigned r)
          else parse_unsigned s
      | [] \<Rightarrow> parse_unsigned s)"

text \<open>NonDecimalIntegerLiteral: \<open>0x\<close>, \<open>0o\<close>, \<open>0b\<close> and digits, unsigned.\<close>

definition parse_non_decimal :: "string \<Rightarrow> jsnum option" where
  "parse_non_decimal s =
     (case s of
        z # p # ds \<Rightarrow>
          if z \<noteq> CHR ''0'' then None
          else if p = CHR ''x'' \<or> p = CHR ''X'' then map_option (Fin \<circ> of_nat) (parse_digits 16 ds)
          else if p = CHR ''o'' \<or> p = CHR ''O'' then map_option (Fin \<circ> of_nat) (parse_digits 8 ds)
          else if p = CHR ''b'' \<or> p = CHR ''B'' then map_option (Fin \<circ> of_nat) (parse_digits 2 ds)
          else None
      | _ \<Rightarrow> None)"

definition to_number :: "string \<Rightarrow> jsnum" where
  "to_number s =
     (let t = js_trim s in
      if t = [] then Fin 0
      else case parse_non_decimal t of
             Some n \<Rightarrow> n
           | None \<Rightarrow> (case parse_str_decimal t of Some n \<Rightarrow> n | None \<Rightarrow> NaN))"

section \<open>Number to string and the number input's value\<close>

text \<open>ToString of an integer-valued number, as React applies it when it renders
  \<open>value={tempProduct.price}\<close> into a controlled number input: decimal digits,
  a minus sign for negatives.\<close>

fun nat_to_string :: "nat \<Rightarrow> string" where
  "nat_to_string n =
     (if n < 10 then [char_of (48 + n)]
      else nat_to_string (n div 10) @ [char_of (48 + n mod 10)])"

definition int_to_string :: "int \<Rightarrow> string" where
  "int_to_string i =
     (if i < 0 then CHR ''-'' # nat_to_string (nat (- i)) else nat_to_string (nat i))"

text \<open>The strings a number input reports as its \<open>value\<close>: the browser's value
  sanitisation leaves either the empty string or a valid floating-point number
  of HTML (an optional minus, digits with an optional fraction or a fraction
  alone, an optional exponent).\<close>

definition html_valid_float :: "string \<Rightarrow> bool" where
  "html_valid_float s \<longleftrightarrow>
     (let u = (case s of c # r \<Rightarrow> if c = CHR ''-'' then r else s | [] \<Rightarrow> s) in
      case split_decimal u of
        (ip, dot, fp, r2) \<Rightarrow>
          (ip \<noteq> [] \<or> fp \<noteq> []) \<and> (dot \<longrightarrow> fp \<noteq> []) \<and> parse_exponent r2 \<noteq> None)"

definition number_input_value :: "string \<Rightarrow> bool" where
  "number_input_value s \<longleftrightarrow> s = [] \<or> html_valid_float s"

text \<open>Characters of a floating-point literal (a helper of the proofs below).\<close>

definition float_char :: "char \<Rightarrow> bool" where
  "float_char c \<longleftrightarrow> is_digit c \<or> c \<in> set ''.eE+-''"

section \<open>Properties of StringToNumber\<close>

declare nat_to_string.simps [simp del]

lemmas to_number_eval [js_simps] =
  to_number_def js_trim_def is_js_ws_def parse_non_decimal_def parse_str_decimal_def
  parse_unsigned_def parse_unsigned_decimal_def split_decimal_def is_digit_def digit_value_def
  parse_exponent_def parse_signed_int_def parse_digits_def dec_scale_def

subsection \<open>Digits and white space\<close>



lemma is_digit_iff: "is_digit c \<longleftrightarrow> 48 \<le> (of_char c :: nat) \<and> (of_char c :: nat) \<le> 57"
  by (auto simp: is_digit_def digit_value_def Let_def)

lemma digit_value_10: "is_digit c \<Longrightarrow> digit_value 10 c = Some (of_char c - 48)"
  by (auto simp: is_digit_iff digit_value_def Let_def)

lemma is_digit_not_ws: "is_digit c \<Longrightarrow> \<not> is_js_ws c"
  unfolding is_js_ws_def is_digit_iff by auto

lemma digits_acc_digits: "list_all is_digit ds \<Longrightarrow> \<exists>m. digits_acc 10 acc ds = Some m"
  by (induction ds arbitrary: acc) (auto simp: digit_value_10)

lemma digits_acc_chars: "digits_acc 10 acc ds = Some m \<Longrightarrow> \<forall>c\<in>set ds. is_digit c"
  by (induction ds arbitrary: acc) (auto simp: is_digit_def split: option.splits)

lemma dropWhile_no_ws: "\<forall>c\<in>set s. \<not> is_js_ws c \<Longrightarrow> dropWhile is_js_ws s = s"
  by (cases s) auto

lemma js_trim_no_ws: "\<forall>c\<in>set s. \<not> is_js_ws c \<Longrightarrow> js_trim s = s"
  by (simp add: js_trim_def dropWhile_no_ws)


lemma float_char_not_ws: "float_char c \<Longrightarrow> \<not> is_js_ws c"
  using is_digit_not_ws[of c] by (auto simp: float_char_def is_js_ws_def)

lemma float_char_not_radix: "float_char c \<Longrightarrow> c \<notin> set ''xXoObB''"
  by (auto simp: float_char_def is_digit_iff)

lemma parse_digits_chars: "parse_digits 10 ds = Some m \<Longrightarrow> \<forall>c\<in>set ds. is_digit c"
  by (auto simp: parse_digits_def dest: digits_acc_chars split: if_splits)

lemma exponent_chars: "parse_exponent r = Some e \<Longrightarrow> \<forall>c\<in>set r. float_char c"
  by (auto simp: parse_exponent_def parse_signed_int_def float_char_def
           dest!: parse_digits_chars split: list.splits if_splits)

lemma split_decimal_parts:
  assumes "split_decimal s = (ip, dot, fp, r2)"
  shows "s = ip @ (if dot then CHR ''.'' # fp @ r2 else r2)"
    and "\<forall>c\<in>set ip. is_digit c" and "\<forall>c\<in>set fp. is_digit c"
    and "\<not> dot \<longrightarrow> fp = []"
proof -
  have s: "s = takeWhile is_digit s @ dropWhile is_digit s" by simp
  show "s = ip @ (if dot then CHR ''.'' # fp @ r2 else r2)"
  proof (cases "dropWhile is_digit s")
    case Nil
    with assms s show ?thesis by (simp add: split_decimal_def)
  next
    case (Cons c r)
    with assms s show ?thesis by (auto simp: split_decimal_def Let_def split: if_splits)
  qed
  show "\<forall>c\<in>set ip. is_digit c" and "\<forall>c\<in>set fp. is_digit c" and "\<not> dot \<longrightarrow> fp = []"
    using assms by (auto simp: split_decimal_def Let_def split: list.splits if_splits
                        dest: set_takeWhileD)
qed


lemma non_decimal_float: "\<forall>c\<in>set s. float_char c \<Longrightarrow> parse_non_decimal s = None"
proof (cases s rule: remdups_adj.cases)
  case (3 z p ds)
  assume "\<forall>c\<in>set s. float_char c"
  with 3 have "float_char p" by simp
  then have "p \<notin> set ''xXoObB''" by (rule float_char_not_radix)
  with 3 show ?thesis by (auto simp: parse_non_decimal_def)
qed (auto simp: parse_non_decimal_def)

lemma to_number_float_chars:
  "s \<noteq> [] \<Longrightarrow> \<forall>c\<in>set s. float_char c \<Longrightarrow>
   to_number s = (case parse_str_decimal s of Some n \<Rightarrow> n | None \<Rightarrow> NaN)"
  using float_char_not_ws
  by (simp add: to_number_def js_trim_no_ws non_decimal_float)

lemma unsigned_float:
  assumes sp: "split_decimal u = (ip, dot, fp, r2)"
    and ne: "ip \<noteq> [] \<or> fp \<noteq> []" and dotfp: "dot \<longrightarrow> fp \<noteq> []"
    and ex: "parse_exponent r2 = Some e"
  shows "\<exists>q. parse_unsigned u = Some (Fin q)"
    and "\<forall>c\<in>set u. float_char c"
    and "u \<noteq> [] \<and> hd u \<noteq> CHR ''+'' \<and> hd u \<noteq> CHR ''-''"
proof -
  note parts = split_decimal_parts[OF sp]
  have hd: "u \<noteq> [] \<and> (is_digit (hd u) \<or> hd u = CHR ''.'')"
    using parts ne by (cases ip) (auto split: if_splits)
  then show "u \<noteq> [] \<and> hd u \<noteq> CHR ''+'' \<and> hd u \<noteq> CHR ''-''"
    by (auto simp: is_digit_iff)
  from hd have "u \<noteq> ''Infinity''"
    by (auto simp: is_digit_iff)
  moreover obtain m where "digits_acc 10 0 (ip @ fp) = Some m"
    using parts(2,3) digits_acc_digits[of "ip @ fp" 0] by (auto simp: list_all_iff)
  ultimately show "\<exists>q. parse_unsigned u = Some (Fin q)"
    using ne ex by (simp add: parse_unsigned_def parse_unsigned_decimal_def sp)
  show "\<forall>c\<in>set u. float_char c"
    using parts exponent_chars[OF ex] by (subst parts(1)) (auto simp: float_char_def)
qed

lemma number_input_finite: "number_input_value s \<Longrightarrow> \<exists>q. to_number s = Fin q"
proof -
  assume v: "number_input_value s"
  show ?thesis
  proof (cases "s = []")
    case True
    then show ?thesis by (simp add: to_number_def js_trim_def)
  next
    case False
    with v have h: "html_valid_float s" by (simp add: number_input_value_def)
    define u where "u = (case s of c # r \<Rightarrow> if c = CHR ''-'' then r else s | [] \<Rightarrow> s)"
    obtain ip dot fp r2 where sp: "split_decimal u = (ip, dot, fp, r2)"
      by (cases "split_decimal u") auto
    from h obtain e where ne: "ip \<noteq> [] \<or> fp \<noteq> []" and dotfp: "dot \<longrightarrow> fp \<noteq> []"
      and ex: "parse_exponent r2 = Some e"
      by (auto simp: html_valid_float_def Let_def u_def [symmetric] sp)
    note uf = unsigned_float[OF sp ne dotfp ex]
    obtain q where q: "parse_unsigned u = Some (Fin q)" using uf(1) by blast
    show ?thesis
    proof (cases "hd s = CHR ''-''")
      case True
      with False have s: "s = CHR ''-'' # u" by (cases s) (auto simp: u_def)
      have "\<forall>c\<in>set s. float_char c" using uf(2) by (simp add: s float_char_def)
      then show ?thesis
        using q by (simp add: to_number_float_chars s parse_str_decimal_def)
    next
      case False': False
      with False have s: "s = u" by (cases s) (auto simp: u_def)
      obtain c r where "u = c # r" "c \<noteq> CHR ''+''" "c \<noteq> CHR ''-''"
        using uf(3) by (cases u) auto
      then show ?thesis
        using q uf(2) s by (simp add: to_number_float_chars parse_str_decimal_def)
    qed
  qed
qed

subsection \<open>Printing and parsing back\<close>

lemma digits_acc_append:
  "digits_acc b acc (xs @ ys) = (case digits_acc b acc xs of None \<Rightarrow> None | Some a \<Rightarrow> digits_acc b a ys)"
  by (induction xs arbitrary: acc) (auto split: option.splits)

lemma of_char_digit: "d < 10 \<Longrightarrow> (of_char (char_of (48 + d)) :: nat) = 48 + d"
  by (simp add: of_char_of)

lemma nat_to_string_digits: "\<forall>c\<in>set (nat_to_string n). is_digit c"
proof (induction n rule: nat_to_string.induct)
  case (1 n)
  have d: "is_digit (char_of (48 + k))" if "k < 10" for k :: nat
    using that by (simp add: is_digit_iff of_char_digit)
  show ?case
    using "1" d[of n] d[of "n mod 10"] by (subst nat_to_string.simps) auto
qed

lemma nat_to_string_value:
  "digits_acc 10 acc (nat_to_string n) = Some (acc * 10 ^ length (nat_to_string n) + n)"
proof (induction n arbitrary: acc rule: nat_to_string.induct)
  case (1 n)
  have dv: "digit_value 10 (char_of (48 + k)) = Some k" if "k < 10" for k :: nat
    using that by (simp add: digit_value_def Let_def of_char_digit)
  show ?case
  proof (cases "n < 10")
    case True
    then show ?thesis by (subst (1 2) nat_to_string.simps) (simp add: dv)
  next
    case False
    let ?L = "length (nat_to_string (n div 10))"
    have "digits_acc 10 acc (nat_to_string n)
          = digits_acc 10 (acc * 10 ^ ?L + n div 10) [char_of (48 + n mod 10)]"
      using False "1" by (subst nat_to_string.simps) (simp add: digits_acc_append)
    also have "\<dots> = Some (10 * (acc * 10 ^ ?L + n div 10) + n mod 10)"
      by (simp add: dv)
    also have "10 * (acc * 10 ^ ?L + n div 10) + n mod 10 = acc * 10 ^ Suc ?L + n"
      by simp
    finally show ?thesis
      using False by (subst (2) nat_to_string.simps) simp
  qed
qed

lemma nat_to_string_nonempty: "nat_to_string n \<noteq> []"
  by (subst nat_to_string.simps) simp

lemma non_decimal_digits: "\<forall>c\<in>set s. is_digit c \<Longrightarrow> parse_non_decimal s = None"
  by (auto simp: parse_non_decimal_def is_digit_iff split: list.splits)

lemma split_decimal_digits:
  "\<forall>c\<in>set s. is_digit c \<Longrightarrow> split_decimal s = (s, False, [], [])"
proof -
  assume d: "\<forall>c\<in>set s. is_digit c"
  then have tw: "takeWhile is_digit s = s" and dw: "dropWhile is_digit s = []"
    by (simp_all add: takeWhile_eq_all_conv dropWhile_eq_Nil_conv)
  show ?thesis unfolding split_decimal_def Let_def tw dw by simp
qed

lemma unsigned_decimal_digits:
  assumes "s \<noteq> []" "\<forall>c\<in>set s. is_digit c" "digits_acc 10 0 s = Some m"
  shows "parse_unsigned_decimal s = Some (of_nat m)"
  using assms(1,3) split_decimal_digits[OF assms(2)]
  by (simp add: parse_unsigned_decimal_def parse_exponent_def dec_scale_def)

lemma unsigned_digits:
  assumes "s \<noteq> []" "\<forall>c\<in>set s. is_digit c" "digits_acc 10 0 s = Some m"
  shows "parse_unsigned s = Some (Fin (of_nat m))"
proof -
  have "s \<noteq> ''Infinity''"
    using assms(2) by (auto simp: is_digit_iff)
  with unsigned_decimal_digits[OF assms] show ?thesis
    by (simp add: parse_unsigned_def)
qed

lemma to_number_digits:
  assumes "s \<noteq> []" "\<forall>c\<in>set s. is_digit c" "digits_acc 10 0 s = Some m"
  shows "to_number s = Fin (of_nat m)"
    and "to_number (CHR ''-'' # s) = Fin (- of_nat m)"
proof -
  have nows: "\<forall>c\<in>set s. \<not> is_js_ws c"
    using assms(2) is_digit_not_ws by blast
  have hd: "hd s \<noteq> CHR ''+'' \<and> hd s \<noteq> CHR ''-''"
    using assms(1,2) by (cases s) (auto simp: is_digit_iff)
  have "parse_str_decimal s = Some (Fin (of_nat m))"
    using assms(1) hd unsigned_digits[OF assms]
    by (cases s) (simp_all add: parse_str_decimal_def)
  then show "to_number s = Fin (of_nat m)"
    using assms(1,2) nows by (simp add: to_number_def js_trim_no_ws non_decimal_digits)
  have "\<forall>c\<in>set (CHR ''-'' # s). \<not> is_js_ws c"
    using nows by (simp add: is_js_ws_def)
  then show "to_number (CHR ''-'' # s) = Fin (- of_nat m)"
    using unsigned_digits[OF assms] assms(1)
    by (cases s) (simp_all add: to_number_def js_trim_no_ws parse_non_decimal_def parse_str_decimal_def)
qed

lemma to_number_int_to_string: "to_number (int_to_string i) = Fin (of_int i)"
proof -
  let ?n = "nat \<bar>i\<bar>"
  have v: "digits_acc 10 0 (nat_to_string ?n) = Some ?n"
    using nat_to_string_value[of 0 ?n] by simp
  note d = to_number_digits[OF nat_to_string_nonempty nat_to_string_digits v]
  show ?thesis
  proof (cases "i < 0")
    case True
    then have "int_to_string i = CHR ''-'' # nat_to_string ?n"
      by (simp add: int_to_string_def)
    moreover from True have "- of_nat ?n = (of_int i :: rat)"
      by simp
    ultimately show ?thesis
      using d(2) by simp
  next
    case False
    then have "int_to_string i = nat_to_string ?n"
      by (simp add: int_to_string_def)
    moreover from False have "of_nat ?n = (of_int i :: rat)"
      by simp
    ultimately show ?thesis
      using d(1) by simp
  qed
qed

text \<open>The text of an integer is a value a number input reports.\<close>

lemma int_to_string_input: "number_input_value (int_to_string i)"
proof -
  let ?d = "nat_to_string (nat \<bar>i\<bar>)"
  have d: "\<forall>c\<in>set ?d. is_digit c" "?d \<noteq> []"
    by (simp_all add: nat_to_string_digits nat_to_string_nonempty)
  then have h: "hd ?d \<noteq> CHR ''-''"
    by (cases ?d) (auto simp: is_digit_iff)
  have "html_valid_float ?d" "html_valid_float (CHR ''-'' # ?d)"
    using d h split_decimal_digits[OF d(1)]
    by (cases ?d; simp add: html_valid_float_def parse_exponent_def)+
  then show ?thesis
    by (cases "i < 0") (simp_all add: number_input_value_def int_to_string_def abs_if)
qed

lemma int_to_string_inj: "int_to_string i = int_to_string j \<Longrightarrow> i = j"
proof -
  assume "int_to_string i = int_to_string j"
  then have "to_number (int_to_string i) = to_number (int_to_string j)" by (rule arg_cong)
  then show "i = j" by (simp add: to_number_int_to_string)
qed

end
