(* ===== verification/Draft.thy ===== *)
theory Draft
  imports JsValue
begin

text \<open>
  The draft product under edit (\<open>tempProduct\<close> of ProductPage.jsx) and the
  handlers that change it, as the page passes them to ProductModal.jsx.  The
  draft is a JavaScript object, modelled as a map from property names to
  values; each handler is the functional updater it hands to
  \<open>setTempProduct\<close>, so it maps the previous snapshot to the next one, and the
  spread \<open>[...pre.imagesUrl]\<close> that raises on a non-array is its error branch.
  The guards that ProductModal.jsx's rendering puts in front of the handlers
  (which buttons and inputs exist) are modelled separately; the user-level
  machine applies a handler only when its control is on screen.
\<close>

section \<open>The draft object\<close>

type_synonym jsobj = "string \<rightharpoonup> jsval"

text \<open>Property read \<open>obj.k\<close>: a missing property reads as \<open>undefined\<close>.\<close>

definition get_prop :: "jsobj \<Rightarrow> string \<Rightarrow> jsval" where
  "get_prop obj k = (case obj k of Some v \<Rightarrow> v | None \<Rightarrow> JUndef)"

text \<open>The empty template \<open>addNewProduct\<close> of create mode.\<close>

definition addNewProduct :: jsobj where
  "addNewProduct =
     [''title'' \<mapsto> JStr [], ''category'' \<mapsto> JStr [], ''origin_price'' \<mapsto> JNum (Fin 0),
      ''price'' \<mapsto> JNum (Fin 0), ''unit'' \<mapsto> JStr [], ''description'' \<mapsto> JStr [],
      ''content'' \<mapsto> JStr [], ''is_enabled'' \<mapsto> JNum (Fin 1), ''imageUrl'' \<mapsto> JStr [],
      ''imagesUrl'' \<mapsto> JArr [], ''trending'' \<mapsto> JNum (Fin 0)]"

section \<open>Handlers\<close>

text \<open>The fields of \<open>e.target\<close> that \<open>handleModalInputChange\<close> destructures.\<close>

record input_target =
  target_name :: string
  target_value :: string
  target_type :: string
  target_checked :: bool

text \<open>\<open>finalValue\<close>: \<open>Number(value)\<close> for the two prices, \<open>+value\<close> for
  \<open>is_enabled\<close>, 1/0 for a checkbox, the raw string otherwise.\<close>

definition input_final_value :: "input_target \<Rightarrow> jsval" where
  "input_final_value t =
     (let name = target_name t; value = target_value t in
      if name \<in> set [''price'', ''origin_price''] then JNum (to_number value)
      else if name = ''is_enabled'' then JNum (to_number value)
      else if target_type t = ''checkbox'' then JNum (Fin (if target_checked t then 1 else 0))
      else JStr value)"

definition handleModalInputChange :: "input_target \<Rightarrow> jsobj \<Rightarrow> jsobj" where
  "handleModalInputChange t pre = pre(target_name t \<mapsto> input_final_value t)"

definition handleImageChange :: "nat \<Rightarrow> string \<Rightarrow> jsobj \<Rightarrow> js_error + jsobj" where
  "handleImageChange index value pre =
     (case js_spread (get_prop pre ''imagesUrl'') of
        Inl e \<Rightarrow> Inl e
      | Inr newImages \<Rightarrow>
          Inr (pre(''imagesUrl'' \<mapsto> JArr (js_array_set newImages index (JStr value)))))"

definition handleAddImage :: "jsobj \<Rightarrow> js_error + jsobj" where
  "handleAddImage pre =
     (case js_spread (get_prop pre ''imagesUrl'') of
        Inl e \<Rightarrow> Inl e
      | Inr imgs \<Rightarrow> Inr (pre(''imagesUrl'' \<mapsto> JArr (imgs @ [JStr []]))))"

text \<open>\<open>newImages.pop()\<close> drops the last element and leaves an empty array empty.\<close>

definition handleRemoveImage :: "jsobj \<Rightarrow> js_error + jsobj" where
  "handleRemoveImage prev =
     (case js_spread (get_prop prev ''imagesUrl'') of
        Inl e \<Rightarrow> Inl e
      | Inr newImages \<Rightarrow> Inr (prev(''imagesUrl'' \<mapsto> JArr (butlast newImages))))"

text \<open>The updater of a successful upload in \<open>handleUpload\<close>:
  \<open>{...pre, imageUrl: res.data.imageUrl}\<close>.\<close>

definition set_uploaded_image :: "jsval \<Rightarrow> jsobj \<Rightarrow> jsobj" where
  "set_uploaded_image url pre = pre(''imageUrl'' \<mapsto> url)"

section \<open>What ProductModal renders\<close>

text \<open>\<open>tempProduct.imagesUrl?.length < 5 && tempProduct.imagesUrl[length - 1] !== ""\<close>:
  on an array the last element (\<open>undefined\<close> for an empty one) must not be the
  empty string; a string's last character never is; on any other value
  \<open>?.length\<close> is \<open>undefined\<close> and the comparison is false.\<close>

definition add_image_visible :: "jsobj \<Rightarrow> bool" where
  "add_image_visible p =
     (case get_prop p ''imagesUrl'' of
        JArr xs \<Rightarrow> length xs < 5 \<and> (xs = [] \<or> last xs \<noteq> JStr [])
      | JStr s \<Rightarrow> length s < 5
      | _ \<Rightarrow> False)"

text \<open>\<open>tempProduct.imagesUrl?.length > 0\<close>.\<close>

definition remove_image_visible :: "jsobj \<Rightarrow> bool" where
  "remove_image_visible p =
     (case get_prop p ''imagesUrl'' of
        JArr xs \<Rightarrow> xs \<noteq> []
      | JStr s \<Rightarrow> s \<noteq> []
      | _ \<Rightarrow> False)"

text \<open>One secondary-image input per element of the array (\<open>imagesUrl?.map\<close>).\<close>

definition image_input_rendered :: "jsobj \<Rightarrow> nat \<Rightarrow> bool" where
  "image_input_rendered p i =
     (case get_prop p ''imagesUrl'' of JArr xs \<Rightarrow> i < length xs | _ \<Rightarrow> False)"

text \<open>The inputs wired to \<open>onInputChange\<close>, by name and type.\<close>

definition form_fields :: "(string \<times> string) list" where
  "form_fields =
     [(''title'', ''text''), (''content'', ''textarea''), (''description'', ''textarea''),
      (''origin_price'', ''number''), (''price'', ''number''), (''unit'', ''text''),
      (''category'', ''text''), (''imageUrl'', ''url''), (''is_enabled'', ''radio'')]"

text \<open>A change event the form can emit: a field of \<open>form_fields\<close>; a number
  input reports a sanitised value, a radio the value of one of its two options
  (\<open>"1"\<close>, \<open>"0"\<close>); text, textarea and url inputs any string.\<close>

definition form_event :: "input_target \<Rightarrow> bool" where
  "form_event t \<longleftrightarrow>
     (target_name t, target_type t) \<in> set form_fields \<and>
     (target_type t = ''number'' \<longrightarrow> number_input_value (target_value t)) \<and>
     (target_type t = ''radio'' \<longrightarrow> target_value t \<in> set [''1'', ''0''])"

section \<open>The draft machine\<close>

datatype draft_action =
    InputChange input_target
  | ImageChange nat string
  | AddImage
  | RemoveImage
  | ImageUploaded jsval

fun draft_step :: "draft_action \<Rightarrow> jsobj \<Rightarrow> js_error + jsobj" where
  "draft_step (InputChange t) p = Inr (handleModalInputChange t p)"
| "draft_step (ImageChange i v) p = handleImageChange i v p"
| "draft_step AddImage p = handleAddImage p"
| "draft_step RemoveImage p = handleRemoveImage p"
| "draft_step (ImageUploaded u) p = Inr (set_uploaded_image u p)"

text \<open>Which actions the rendered dialog offers; an upload result is the
  string URL the upload endpoint returns.\<close>

fun ui_enabled :: "jsobj \<Rightarrow> draft_action \<Rightarrow> bool" where
  "ui_enabled p (InputChange t) = form_event t"
| "ui_enabled p (ImageChange i v) = image_input_rendered p i"
| "ui_enabled p AddImage = add_image_visible p"
| "ui_enabled p RemoveImage = remove_image_visible p"
| "ui_enabled p (ImageUploaded u) = (case u of JStr _ \<Rightarrow> True | _ \<Rightarrow> False)"

text \<open>A session of edits: an action whose control is not on screen cannot be
  triggered and changes nothing; an exception of a handler ends the session.\<close>

fun ui_run :: "jsobj \<Rightarrow> draft_action list \<Rightarrow> js_error + jsobj" where
  "ui_run p [] = Inr p"
| "ui_run p (a # as) =
     (if ui_enabled p a
      then (case draft_step a p of Inl e \<Rightarrow> Inl e | Inr q \<Rightarrow> ui_run q as)
      else ui_run p as)"

section \<open>The draft invariant\<close>

definition is_str :: "jsval \<Rightarrow> bool" where
  "is_str v = (case v of JStr _ \<Rightarrow> True | _ \<Rightarrow> False)"

definition is_finite_num :: "jsval \<Rightarrow> bool" where
  "is_finite_num v = (case v of JNum (Fin _) \<Rightarrow> True | _ \<Rightarrow> False)"

definition text_fields :: "string list" where
  "text_fields = [''title'', ''content'', ''description'', ''unit'', ''category'', ''imageUrl'']"

text \<open>Text fields hold strings, prices finite numbers, \<open>is_enabled\<close> is 0 or 1,
  and \<open>imagesUrl\<close> is an array of at most five strings.\<close>

definition wf_draft :: "jsobj \<Rightarrow> bool" where
  "wf_draft p \<longleftrightarrow>
     list_all (\<lambda>k. is_str (get_prop p k)) text_fields \<and>
     is_finite_num (get_prop p ''price'') \<and> is_finite_num (get_prop p ''origin_price'') \<and>
     get_prop p ''is_enabled'' \<in> {JNum (Fin 0), JNum (Fin 1)} \<and>
     (case get_prop p ''imagesUrl'' of
        JArr xs \<Rightarrow> length xs \<le> 5 \<and> list_all is_str xs
      | _ \<Rightarrow> False)"

text \<open>The properties an action writes.\<close>

definition action_keys :: "draft_action \<Rightarrow> string set" where
  "action_keys a = (case a of InputChange t \<Rightarrow> {target_name t} | ImageUploaded u \<Rightarrow> {''imageUrl''}
                     | _ \<Rightarrow> {''imagesUrl''})"

section \<open>Properties\<close>

subsection \<open>Evaluation and update rules\<close>


lemma form_event_cases:
  assumes "form_event t"
  shows "(target_name t \<in> set text_fields \<and> target_type t \<noteq> ''checkbox'')
       \<or> (target_name t \<in> {''price'', ''origin_price''} \<and> number_input_value (target_value t))
       \<or> (target_name t = ''is_enabled'' \<and> target_value t \<in> {''1'', ''0''})"
proof -
  obtain n ty where nt: "(n, ty) \<in> set form_fields" "n = target_name t" "ty = target_type t"
    using assms by (auto simp: form_event_def)
  have num: "ty = ''number'' \<Longrightarrow> number_input_value (target_value t)"
    and rad: "ty = ''radio'' \<Longrightarrow> target_value t \<in> {''1'', ''0''}"
    using assms nt by (auto simp: form_event_def)
  from nt(1) have "(n, ty) = (''title'', ''text'') \<or> (n, ty) = (''content'', ''textarea'')
      \<or> (n, ty) = (''description'', ''textarea'') \<or> (n, ty) = (''origin_price'', ''number'')
      \<or> (n, ty) = (''price'', ''number'') \<or> (n, ty) = (''unit'', ''text'')
      \<or> (n, ty) = (''category'', ''text'') \<or> (n, ty) = (''imageUrl'', ''url'')
      \<or> (n, ty) = (''is_enabled'', ''radio'')"
    by (simp only: form_fields_def list.set insert_iff empty_iff simp_thms)
  then show ?thesis
    using num rad nt(2,3) by (elim disjE) (simp_all add: text_fields_def)
qed

lemma get_prop_upd [simp]: "get_prop (p(k \<mapsto> v)) k' = (if k' = k then v else get_prop p k')"
  by (simp add: get_prop_def)

lemma to_number_1: "to_number ''1'' = Fin 1" and to_number_0: "to_number ''0'' = Fin 0"
  by (simp_all add: to_number_eval)

lemma input_final_value_form:
  assumes "form_event t"
  shows "target_name t \<noteq> ''imagesUrl''"
    and "target_name t \<in> set text_fields \<Longrightarrow> is_str (input_final_value t)"
    and "target_name t \<in> {''price'', ''origin_price''} \<Longrightarrow> is_finite_num (input_final_value t)"
    and "target_name t = ''is_enabled'' \<Longrightarrow> input_final_value t \<in> {JNum (Fin 0), JNum (Fin 1)}"
proof -
  note c = form_event_cases[OF assms]
  show "target_name t \<noteq> ''imagesUrl''"
    using c by (auto simp: text_fields_def)
  show "is_str (input_final_value t)" if "target_name t \<in> set text_fields"
    using c that by (auto simp: text_fields_def input_final_value_def is_str_def)
  show "is_finite_num (input_final_value t)" if "target_name t \<in> {''price'', ''origin_price''}"
    using c that number_input_finite[of "target_value t"]
    by (auto simp: text_fields_def input_final_value_def is_finite_num_def)
  show "input_final_value t \<in> {JNum (Fin 0), JNum (Fin 1)}" if "target_name t = ''is_enabled''"
    using c that by (auto simp: text_fields_def input_final_value_def to_number_1 to_number_0)
qed

subsection \<open>The invariant, one action at a time\<close>


lemma wf_draft_upd:
  assumes wf: "wf_draft p" and k: "k \<noteq> ''imagesUrl''"
    and tx: "k \<in> set text_fields \<Longrightarrow> is_str v"
    and num: "k \<in> {''price'', ''origin_price''} \<Longrightarrow> is_finite_num v"
    and en: "k = ''is_enabled'' \<Longrightarrow> v \<in> {JNum (Fin 0), JNum (Fin 1)}"
  shows "wf_draft (p(k \<mapsto> v))"
proof -
  let ?q = "p(k \<mapsto> v)"
  from wf have t: "list_all (\<lambda>kk. is_str (get_prop p kk)) text_fields"
    by (simp add: wf_draft_def)
  have "list_all (\<lambda>kk. is_str (get_prop ?q kk)) text_fields"
    using t tx by (auto simp: list_all_iff)
  moreover have "is_finite_num (get_prop ?q ''price'')" "is_finite_num (get_prop ?q ''origin_price'')"
    using wf num by (auto simp: wf_draft_def)
  moreover have "get_prop ?q ''is_enabled'' \<in> {JNum (Fin 0), JNum (Fin 1)}"
    using wf en by (cases "k = ''is_enabled''") (simp_all add: wf_draft_def)
  moreover have imgs: "get_prop ?q ''imagesUrl'' = get_prop p ''imagesUrl''"
    using k by simp
  moreover have "case get_prop p ''imagesUrl'' of JArr xs \<Rightarrow> length xs \<le> 5 \<and> list_all is_str xs | _ \<Rightarrow> False"
    using wf by (simp add: wf_draft_def)
  ultimately show ?thesis
    by (simp only: wf_draft_def imgs)
qed

lemma wf_draft_images:
  "wf_draft p \<Longrightarrow> \<exists>xs. get_prop p ''imagesUrl'' = JArr xs \<and> length xs \<le> 5 \<and> list_all is_str xs"
  by (auto simp: wf_draft_def split: jsval.splits)

lemma wf_draft_images_upd:
  assumes "wf_draft p" "length ys \<le> 5" "list_all is_str ys"
  shows "wf_draft (p(''imagesUrl'' \<mapsto> JArr ys))"
  using assms by (simp add: wf_draft_def text_fields_def)

lemma js_array_set_in_range: "i < length xs \<Longrightarrow> js_array_set xs i v = xs[i := v]"
  by (simp add: js_array_set_def)

lemma image_handlers_arr:
  assumes "get_prop p ''imagesUrl'' = JArr xs"
  shows "handleImageChange i v p = Inr (p(''imagesUrl'' \<mapsto> JArr (js_array_set xs i (JStr v))))"
    and "handleAddImage p = Inr (p(''imagesUrl'' \<mapsto> JArr (xs @ [JStr []])))"
    and "handleRemoveImage p = Inr (p(''imagesUrl'' \<mapsto> JArr (butlast xs)))"
  using assms by (simp_all add: handleImageChange_def handleAddImage_def handleRemoveImage_def)

lemma list_all_is_str_update: "list_all is_str xs \<Longrightarrow> list_all is_str (xs[i := JStr v])"
  by (auto simp: list_all_iff is_str_def dest: set_update_subset_insert [THEN subsetD])

lemma list_all_butlast: "list_all P xs \<Longrightarrow> list_all P (butlast xs)"
  by (auto simp: list_all_iff dest: in_set_butlastD)

lemma wf_draft_step:
  assumes wf: "wf_draft p" and en: "ui_enabled p a"
  shows "\<exists>q. draft_step a p = Inr q \<and> wf_draft q"
proof (cases a)
  case (InputChange t)
  with en have "form_event t" by simp
  note f = input_final_value_form[OF this]
  have "wf_draft (handleModalInputChange t p)"
    unfolding handleModalInputChange_def by (rule wf_draft_upd[OF wf f])
  with InputChange show ?thesis by simp
next
  case (ImageChange i v)
  from wf_draft_images[OF wf] obtain xs where xs: "get_prop p ''imagesUrl'' = JArr xs"
    "length xs \<le> 5" "list_all is_str xs" by blast
  with en ImageChange have "i < length xs" by (simp add: image_input_rendered_def)
  with xs wf show ?thesis
    by (simp add: ImageChange image_handlers_arr js_array_set_in_range wf_draft_images_upd
                  list_all_is_str_update)
next
  case AddImage
  from wf_draft_images[OF wf] obtain xs where xs: "get_prop p ''imagesUrl'' = JArr xs"
    "length xs \<le> 5" "list_all is_str xs" by blast
  with en AddImage have "length xs < 5" by (simp add: add_image_visible_def)
  with xs wf show ?thesis
    by (simp add: AddImage image_handlers_arr wf_draft_images_upd is_str_def)
next
  case RemoveImage
  from wf_draft_images[OF wf] obtain xs where xs: "get_prop p ''imagesUrl'' = JArr xs"
    "length xs \<le> 5" "list_all is_str xs" by blast
  with wf show ?thesis
    by (simp add: RemoveImage image_handlers_arr wf_draft_images_upd list_all_butlast)
next
  case (ImageUploaded u)
  with en obtain s where u: "u = JStr s" by (cases u) auto
  have "wf_draft (set_uploaded_image u p)"
    unfolding set_uploaded_image_def
    by (rule wf_draft_upd[OF wf]) (simp_all add: u is_str_def text_fields_def)
  with ImageUploaded show ?thesis by simp
qed

lemma addNewProduct_wf: "wf_draft addNewProduct"
  by (simp add: wf_draft_def addNewProduct_def get_prop_def text_fields_def is_str_def
                is_finite_num_def)

subsection \<open>Claims\<close>


text \<open>C1: Starting from a draft satisfying the invariant (text fields are strings, prices finite numbers, \<open>is_enabled\<close> is 0 or 1, \<open>imagesUrl\<close> an array of at most five strings), every sequence of edits made through the dialog runs without an exception and keeps the invariant; in particular \<open>imagesUrl\<close> never holds more than five entries.\<close>

theorem ui_run_wf: "wf_draft p \<Longrightarrow> \<exists>q. ui_run p as = Inr q \<and> wf_draft q"
proof (induction as arbitrary: p)
  case Nil
  then show ?case by simp
next
  case (Cons a as)
  show ?case
  proof (cases "ui_enabled p a")
    case True
    with wf_draft_step[OF Cons.prems] obtain q where "draft_step a p = Inr q" "wf_draft q"
      by blast
    with True Cons.IH show ?thesis by simp
  next
    case False
    with Cons show ?thesis by simp
  qed
qed

lemma ui_run_wf_witness:
  "\<exists>q. ui_run addNewProduct [AddImage, ImageChange 0 ''u'', AddImage] = Inr q \<and> wf_draft q"
  using ui_run_wf[OF addNewProduct_wf] by blast

text \<open>C2: Whatever the draft holds, an action whose control the dialog renders completes without the TypeError that spreading a non-array \<open>imagesUrl\<close> would raise.\<close>

theorem ui_enabled_no_error: "ui_enabled p a \<Longrightarrow> \<exists>q. draft_step a p = Inr q"
proof (cases a)
  case (ImageChange i v)
  then show "ui_enabled p a \<Longrightarrow> ?thesis"
    by (auto simp: image_input_rendered_def handleImageChange_def split: jsval.splits)
next
  case AddImage
  then show "ui_enabled p a \<Longrightarrow> ?thesis"
    by (auto simp: add_image_visible_def handleAddImage_def split: jsval.splits)
next
  case RemoveImage
  then show "ui_enabled p a \<Longrightarrow> ?thesis"
    by (auto simp: remove_image_visible_def handleRemoveImage_def split: jsval.splits)
qed simp_all

lemma ui_enabled_no_error_witness:
  "\<exists>q. draft_step AddImage addNewProduct = Inr q"
  by (rule ui_enabled_no_error) (simp add: addNewProduct_def add_image_visible_def get_prop_def)

text \<open>C3: Pressing "add image" twice without filling the new slot appends exactly one empty entry: after the first press the last entry is empty and the button is gone.\<close>

theorem add_image_once:
  assumes "add_image_visible p" "get_prop p ''imagesUrl'' = JArr xs"
  shows "ui_run p [AddImage, AddImage] = Inr (p(''imagesUrl'' \<mapsto> JArr (xs @ [JStr []])))"
  using assms by (simp add: image_handlers_arr add_image_visible_def)

lemma add_image_once_witness:
  "ui_run addNewProduct [AddImage, AddImage] = Inr (addNewProduct(''imagesUrl'' \<mapsto> JArr [JStr []]))"
proof -
  have "add_image_visible addNewProduct" "get_prop addNewProduct ''imagesUrl'' = JArr []"
    by (simp_all add: addNewProduct_def add_image_visible_def get_prop_def)
  from add_image_once[OF this] show ?thesis by simp
qed

text \<open>C4: The bound of five secondary images is enforced only by the rendering:
  on every well-formed draft with five images the add-image button is hidden, and
  the handler \<open>handleAddImage\<close> itself still appends, taking the draft to one
  with six entries, which is no longer well-formed.\<close>

theorem handleAddImage_exceeds_bound:
  assumes wf: "wf_draft p" and xs: "get_prop p ''imagesUrl'' = JArr xs" and five: "length xs = 5"
  shows "\<not> add_image_visible p \<and>
    (\<exists>q. handleAddImage p = Inr q \<and> get_prop q ''imagesUrl'' = JArr (xs @ [JStr []]) \<and> \<not> wf_draft q)"
  using xs five by (simp add: add_image_visible_def image_handlers_arr wf_draft_def get_prop_def)

lemma handleAddImage_exceeds_bound_witness:
  "\<not> add_image_visible (addNewProduct(''imagesUrl'' \<mapsto> JArr [JStr ''a'', JStr ''b'', JStr ''c'', JStr ''d'', JStr ''e''])) \<and>
   (\<exists>q. handleAddImage (addNewProduct(''imagesUrl'' \<mapsto> JArr [JStr ''a'', JStr ''b'', JStr ''c'', JStr ''d'', JStr ''e''])) = Inr q \<and>
     get_prop q ''imagesUrl'' = JArr [JStr ''a'', JStr ''b'', JStr ''c'', JStr ''d'', JStr ''e'', JStr []] \<and> \<not> wf_draft q)"
  using handleAddImage_exceeds_bound[of "addNewProduct(''imagesUrl'' \<mapsto> JArr [JStr ''a'', JStr ''b'', JStr ''c'', JStr ''d'', JStr ''e''])"
      "[JStr ''a'', JStr ''b'', JStr ''c'', JStr ''d'', JStr ''e'']"]
  by (simp add: wf_draft_def addNewProduct_def get_prop_def text_fields_def is_str_def is_finite_num_def)

text \<open>C5: \<open>handleImageChange i v\<close> on an array \<open>xs\<close> stores \<open>v\<close> at index \<open>i\<close> and keeps every other entry; an index beyond the end does not fail but extends the array to length \<open>i + 1\<close>, the gap filled with \<open>undefined\<close>.\<close>

theorem handleImageChange_spec:
  assumes xs: "get_prop p ''imagesUrl'' = JArr xs" and q: "handleImageChange i v p = Inr q"
  shows "\<exists>ys. get_prop q ''imagesUrl'' = JArr ys \<and> length ys = max (length xs) (Suc i)
           \<and> ys ! i = JStr v \<and> (\<forall>j < length xs. j \<noteq> i \<longrightarrow> ys ! j = xs ! j)
           \<and> (\<forall>j. length xs \<le> j \<and> j < i \<longrightarrow> ys ! j = JUndef)"
proof -
  let ?ys = "js_array_set xs i (JStr v)"
  from xs q have "get_prop q ''imagesUrl'' = JArr ?ys"
    by (auto simp: image_handlers_arr)
  moreover have "length ?ys = max (length xs) (Suc i) \<and> ?ys ! i = JStr v
           \<and> (\<forall>j < length xs. j \<noteq> i \<longrightarrow> ?ys ! j = xs ! j)
           \<and> (\<forall>j. length xs \<le> j \<and> j < i \<longrightarrow> ?ys ! j = JUndef)"
    by (auto simp: js_array_set_def nth_append nth_list_update)
  ultimately show ?thesis by blast
qed

lemma handleImageChange_spec_witness:
  "\<exists>ys. get_prop (addNewProduct(''imagesUrl'' \<mapsto> JArr [JStr ''a'', JUndef, JUndef, JStr ''x''])) ''imagesUrl''
          = JArr ys \<and> length ys = 4 \<and> ys ! 3 = JStr ''x'' \<and> ys ! 1 = JUndef"
proof -
  let ?p = "addNewProduct(''imagesUrl'' \<mapsto> JArr [JStr ''a''])"
  have xs: "get_prop ?p ''imagesUrl'' = JArr [JStr ''a'']" by simp
  have q: "handleImageChange 3 ''x'' ?p = Inr (addNewProduct(''imagesUrl'' \<mapsto> JArr [JStr ''a'', JUndef, JUndef, JStr ''x'']))"
    by (simp add: image_handlers_arr js_array_set_def numeral_eq_Suc)
  show ?thesis
    using handleImageChange_spec[OF xs q] by (auto simp: numeral_eq_Suc)
qed

text \<open>C6: Removing the last image of an empty list is a no-op: \<open>pop\<close> on an empty array neither fails nor changes the draft.\<close>

theorem remove_last_empty: "get_prop p ''imagesUrl'' = JArr [] \<Longrightarrow> handleRemoveImage p = Inr p"
  by (auto simp: image_handlers_arr get_prop_def split: option.splits)

lemma remove_last_empty_witness: "handleRemoveImage addNewProduct = Inr addNewProduct"
  by (rule remove_last_empty) (simp add: addNewProduct_def get_prop_def)

text \<open>C7: Each edit changes only its own property: an input change only the input's name, the image-list handlers only \<open>imagesUrl\<close>, a finished upload only \<open>imageUrl\<close>; every other property of the snapshot is carried over.\<close>

theorem draft_step_frame: "draft_step a p = Inr q \<Longrightarrow> k \<notin> action_keys a \<Longrightarrow> q k = p k"
  by (cases a)
     (auto simp: action_keys_def handleModalInputChange_def handleImageChange_def handleAddImage_def
                 handleRemoveImage_def set_uploaded_image_def split: sum.splits)

lemma draft_step_frame_witness:
  "(addNewProduct(''imagesUrl'' \<mapsto> JArr [JStr []])) ''title'' = addNewProduct ''title''"
proof -
  have "draft_step AddImage addNewProduct = Inr (addNewProduct(''imagesUrl'' \<mapsto> JArr [JStr []]))"
    by (simp add: image_handlers_arr addNewProduct_def get_prop_def)
  moreover have "''title'' \<notin> action_keys AddImage" by (simp add: action_keys_def)
  ultimately show ?thesis by (rule draft_step_frame)
qed

text \<open>C8: A price rendered into its number input and read back is the same number: the handler stores \<open>Number(String(i))\<close> for the two price fields, which is \<open>i\<close> itself, as a number and not as text.\<close>

theorem price_input_roundtrip:
  "n \<in> {''price'', ''origin_price''} \<Longrightarrow>
   handleModalInputChange \<lparr>target_name = n, target_value = int_to_string i, target_type = ''number'',
                            target_checked = c\<rparr> p n = Some (JNum (Fin (of_int i)))"
  by (auto simp: handleModalInputChange_def input_final_value_def to_number_int_to_string)

lemma price_input_roundtrip_witness:
  "handleModalInputChange \<lparr>target_name = ''price'', target_value = int_to_string 35, target_type = ''number'',
                            target_checked = False\<rparr> addNewProduct ''price'' = Some (JNum (Fin 35))"
  using price_input_roundtrip[of "''price''" 35 False addNewProduct] by simp

text \<open>C9: The price fields accept every negative integer: the number input's
  \<open>min="0"\<close> does not restrict what it reports, so the text of a negative
  integer is a change event the form can emit, and the handler stores that
  negative number, although the data model requires non-negative prices.\<close>

theorem negative_price_accepted:
  assumes neg: "i < 0" and n: "n \<in> {''price'', ''origin_price''}"
  shows "let t = \<lparr>target_name = n, target_value = int_to_string i, target_type = ''number'',
                   target_checked = False\<rparr>
         in form_event t \<and> handleModalInputChange t p n = Some (JNum (Fin (of_int i))) \<and>
            (of_int i :: rat) < 0"
  using neg n int_to_string_input[of i]
  by (auto simp: Let_def form_event_def form_fields_def handleModalInputChange_def
      input_final_value_def to_number_int_to_string)

lemma negative_price_accepted_witness:
  "form_event \<lparr>target_name = ''price'', target_value = int_to_string (-5), target_type = ''number'',
     target_checked = False\<rparr> \<and>
   handleModalInputChange \<lparr>target_name = ''price'', target_value = int_to_string (-5), target_type = ''number'',
     target_checked = False\<rparr> addNewProduct ''price'' = Some (JNum (Fin (-5)))"
  using negative_price_accepted[of "-5" "''price''" addNewProduct] by (simp add: Let_def)

text \<open>C10: \<open>is_enabled\<close> is 0 or 1 only because the radio buttons offer no
  other value: the handler's \<open>+value\<close> stores whatever integer the value holds,
  and the form emits such an event exactly for 0 and 1.\<close>

theorem is_enabled_non_radio:
  "let t = \<lparr>target_name = ''is_enabled'', target_value = int_to_string i, target_type = ''radio'',
             target_checked = True\<rparr>
   in handleModalInputChange t p ''is_enabled'' = Some (JNum (Fin (of_int i))) \<and>
      (form_event t \<longleftrightarrow> i \<in> {0, 1})"
proof -
  have s01: "int_to_string 0 = ''0''" "int_to_string 1 = ''1''"
    by (simp_all add: int_to_string_def nat_to_string.simps char_of_def bit_iff_odd)
  have "int_to_string i \<in> {''1'', ''0''} \<longleftrightarrow> i \<in> {0, 1}"
    using int_to_string_inj[of i 0] int_to_string_inj[of i 1] s01 by auto
  then show ?thesis
    by (simp add: Let_def form_event_def form_fields_def handleModalInputChange_def
        input_final_value_def to_number_int_to_string)
qed

lemma is_enabled_non_radio_witness:
  "handleModalInputChange \<lparr>target_name = ''is_enabled'', target_value = int_to_string 2,
     target_type = ''radio'', target_checked = True\<rparr> addNewProduct ''is_enabled'' = Some (JNum (Fin 2)) \<and>
   \<not> form_event \<lparr>target_name = ''is_enabled'', target_value = int_to_string 2,
     target_type = ''radio'', target_checked = True\<rparr>"
  using is_enabled_non_radio[of 2 addNewProduct] by (simp add: Let_def)

text \<open>C11: Editing an image and then adding and removing a slot gives back the
  edit: on a draft whose add button is shown, setting image \<open>k\<close> (an entry
  on screen) to a non-empty value, pressing add and then remove, leaves the image
  list as the edit made it.  This is the edit scenario of the spec for every
  draft, index and value.\<close>

theorem edit_session_roundtrip:
  assumes xs: "get_prop p ''imagesUrl'' = JArr xs" and add: "add_image_visible p"
    and k: "k < length xs" and v: "v \<noteq> []"
  shows "ui_run p [ImageChange k v, AddImage, RemoveImage] =
     Inr (p(''imagesUrl'' \<mapsto> JArr (xs[k := JStr v])))"
proof -
  let ?ys = "xs[k := JStr v]"
  have set: "js_array_set xs k (JStr v) = ?ys" using k by (simp add: js_array_set_def)
  have len: "length xs < 5" "xs = [] \<or> last xs \<noteq> JStr []"
    using add xs by (simp_all add: add_image_visible_def)
  have ne: "xs \<noteq> []" using k by auto
  have "last ?ys \<noteq> JStr []"
    using len(2) v by (simp add: last_list_update[OF ne] ne)
  then have "add_image_visible (p(''imagesUrl'' \<mapsto> JArr ?ys))"
    using len(1) k by (auto simp: add_image_visible_def get_prop_def)
  then show ?thesis
    using xs k set by (simp add: image_handlers_arr image_input_rendered_def remove_image_visible_def
        get_prop_def)
qed

lemma edit_session_roundtrip_witness:
  "ui_run [''id'' \<mapsto> JNum (Fin 7), ''imagesUrl'' \<mapsto> JArr [JStr ''a'', JStr ''b'']]
     [ImageChange 1 ''c'', AddImage, RemoveImage]
   = Inr [''id'' \<mapsto> JNum (Fin 7), ''imagesUrl'' \<mapsto> JArr [JStr ''a'', JStr ''c'']]"
  using edit_session_roundtrip[of "[''id'' \<mapsto> JNum (Fin 7), ''imagesUrl'' \<mapsto> JArr [JStr ''a'', JStr ''b'']]"
      "[JStr ''a'', JStr ''b'']" 1 "''c''"]
  by (simp add: get_prop_def add_image_visible_def fun_upd_twist)

text \<open>C13: Every change the form can emit for \<open>price\<close> or \<open>origin_price\<close>
  stores a finite number in the draft, never the raw text and never \<open>NaN\<close>:
  the number input reports the empty string (which \<open>Number\<close> maps to 0) or a
  valid floating-point literal.\<close>

theorem price_always_finite:
  "form_event t \<Longrightarrow> target_name t \<in> {''price'', ''origin_price''} \<Longrightarrow>
   \<exists>q. get_prop (handleModalInputChange t p) (target_name t) = JNum (Fin q)"
proof -
  assume f: "form_event t" and n: "target_name t \<in> {''price'', ''origin_price''}"
  have "is_finite_num (input_final_value t)"
    by (rule input_final_value_form(3)[OF f n])
  then obtain q where "input_final_value t = JNum (Fin q)"
    by (auto simp: is_finite_num_def split: jsval.splits jsnum.splits)
  then show ?thesis
    by (auto simp: handleModalInputChange_def)
qed

lemma price_always_finite_witness:
  "\<exists>q. get_prop (handleModalInputChange \<lparr>target_name = ''origin_price'', target_value = ''12.5'',
     target_type = ''number'', target_checked = False\<rparr> addNewProduct) ''origin_price'' = JNum (Fin q)"
  using price_always_finite[of "\<lparr>target_name = ''origin_price'', target_value = ''12.5'',
     target_type = ''number'', target_checked = False\<rparr>" addNewProduct]
  by (simp add: form_event_def form_fields_def number_input_value_def html_valid_float_def
                split_decimal_def is_digit_def digit_value_def parse_exponent_def)


text \<open>C14: The create scenario of the spec for every title and every integer
  price: from the empty template, typing a title and the text of a price, both
  changes the form can emit, gives a well-formed draft with that title, that
  price as a number and no images.\<close>

theorem create_session:
  "\<exists>q. ui_run addNewProduct
       [InputChange \<lparr>target_name = ''title'', target_value = w, target_type = ''text'', target_checked = False\<rparr>,
        InputChange \<lparr>target_name = ''price'', target_value = int_to_string i, target_type = ''number'',
                     target_checked = False\<rparr>] = Inr q \<and>
     get_prop q ''title'' = JStr w \<and> get_prop q ''price'' = JNum (Fin (of_int i)) \<and>
     get_prop q ''imagesUrl'' = JArr [] \<and> wf_draft q"
  using int_to_string_input[of i]
  by (simp add: form_event_def form_fields_def handleModalInputChange_def input_final_value_def
      to_number_int_to_string wf_draft_def addNewProduct_def text_fields_def is_str_def
      is_finite_num_def get_prop_def)

end
