(* ===== verification/BsModal.thy ===== *)
theory BsModal
  imports Prelude
begin

text \<open>
  The dialog widget the components drive: Bootstrap 5's \<open>Modal\<close>, created by
  \<open>new bootstrap.Modal(element, {backdrop: true, keyboard: true})\<close> in
  ProductModal.jsx and DetailModal.jsx.  It is a library, not code of the
  repository; it is modelled from its documented behaviour as the environment of
  the dialog effects.  Its two flags \<open>_isShown\<close> and \<open>_isTransitioning\<close> are
  the four phases below.  \<open>show()\<close> is ignored while the dialog is shown or in a
  transition, \<open>hide()\<close> while it is not shown or in a transition; the element
  has the class \<open>fade\<close>, so both start a transition, and the event
  \<open>hidden.bs.modal\<close> is fired when a hide transition ends.  A click on the
  backdrop and the Escape key call \<open>hide()\<close>.
\<close>

datatype bs_phase = Hidden | Showing | Shown | Hiding

record bs_modal =
  phase :: bs_phase
  disposed :: bool

definition bs_new :: bs_modal where
  "bs_new = \<lparr>phase = Hidden, disposed = False\<rparr>"

definition is_shown :: "bs_modal \<Rightarrow> bool" where
  "is_shown m \<longleftrightarrow> phase m = Showing \<or> phase m = Shown"

definition is_transitioning :: "bs_modal \<Rightarrow> bool" where
  "is_transitioning m \<longleftrightarrow> phase m = Showing \<or> phase m = Hiding"

definition bs_show :: "bs_modal \<Rightarrow> bs_modal" where
  "bs_show m =
     (if disposed m \<or> is_shown m \<or> is_transitioning m then m else m\<lparr>phase := Showing\<rparr>)"

definition bs_hide :: "bs_modal \<Rightarrow> bs_modal" where
  "bs_hide m =
     (if disposed m \<or> \<not> is_shown m \<or> is_transitioning m then m else m\<lparr>phase := Hiding\<rparr>)"

text \<open>The end of the running CSS transition: the new widget and whether
  \<open>hidden.bs.modal\<close> was fired.\<close>

definition bs_transition_end :: "bs_modal \<Rightarrow> bs_modal \<times> bool" where
  "bs_transition_end m =
     (if disposed m then (m, False)
      else case phase m of
             Showing \<Rightarrow> (m\<lparr>phase := Shown\<rparr>, False)
           | Hiding \<Rightarrow> (m\<lparr>phase := Hidden\<rparr>, True)
           | _ \<Rightarrow> (m, False))"

definition bs_dispose :: "bs_modal \<Rightarrow> bs_modal" where
  "bs_dispose m = m\<lparr>disposed := True\<rparr>"

lemmas bs_simps [modal_simps] =
  bs_new_def is_shown_def is_transitioning_def bs_show_def bs_hide_def bs_transition_end_def
  bs_dispose_def

end
