(* ===== verification/ModalSync.thy ===== *)
theory ModalSync
  imports BsModal JsValue
begin

text \<open>
  The open/close synchronisation of ProductModal.jsx (and the identical code of
  DetailModal.jsx) with its owner's state.  The owner (ProductPage.jsx) keeps
  \<open>isProductModalOpen\<close> and passes it as \<open>isOpen\<close>, with \<open>closeModal\<close> as
  \<open>onClose\<close>.  The component has three effects:
  \<^item> on mount it creates the Bootstrap widget (and disposes it on unmount);
  \<^item> whenever \<open>isOpen\<close> changes it calls \<open>show()\<close> or \<open>hide()\<close>;
  \<^item> after every render (its dependencies include \<open>onClose\<close>, a new function
    on each render of the page) it removes its previous \<open>hidden.bs.modal\<close>
    listener and adds a new one, \<open>performClose\<close>, which captures the
    \<open>isOpen\<close> of that render and calls \<open>onClose()\<close> only if it was true.
  The close button and the footer's cancel button call \<open>handleClose\<close>, which
  calls \<open>onClose()\<close>.

  The state pairs the owner's flag with the component's refs: the widget, the
  registered listeners (an identity and the captured \<open>isOpen\<close>) and a counter of
  the \<open>onClose()\<close> calls the listener made.  A state update of the owner, its
  re-render and the component's effects are one step: React runs the passive
  effects of a render before the next event of the user or the widget is
  handled.  Setting the flag to the value it has does not re-render (React's
  bail-out).  \<open>hidden.bs.modal\<close> runs every registered listener; their
  \<open>onClose()\<close> calls are batched into one update.
\<close>

section \<open>State and effects\<close>

record modal_sys =
  is_open :: bool
  widget :: "bs_modal option"
  listeners :: "(nat \<times> bool) list"
  next_id :: nat
  hidden_closes :: nat

text \<open>The second effect: \<open>show()\<close> or \<open>hide()\<close> on the widget, if there is one.\<close>

definition show_hide_effect :: "bool \<Rightarrow> bs_modal option \<Rightarrow> bs_modal option" where
  "show_hide_effect b w = map_option (\<lambda>m. if b then bs_show m else bs_hide m) w"

text \<open>The third effect: the cleanup of the previous run removes the listener it
  added, the new run adds \<open>performClose\<close> capturing the current \<open>isOpen\<close>.\<close>

definition listener_effect :: "modal_sys \<Rightarrow> modal_sys" where
  "listener_effect s =
     s\<lparr>listeners := filter (\<lambda>(i, _). i \<noteq> next_id s - 1) (listeners s) @ [(next_id s, is_open s)],
       next_id := Suc (next_id s)\<rparr>"

text \<open>A render of the component with \<open>isOpen = b\<close> and its effects: the
  show/hide effect runs only when \<open>isOpen\<close> changed.\<close>

definition render :: "bool \<Rightarrow> modal_sys \<Rightarrow> modal_sys" where
  "render b s =
     listener_effect
       (s\<lparr>is_open := b,
          widget := (if b = is_open s then widget s else show_hide_effect b (widget s))\<rparr>)"

text \<open>The owner's \<open>setIsProductModalOpen(b)\<close>: no re-render when nothing changes.\<close>

definition set_open :: "bool \<Rightarrow> modal_sys \<Rightarrow> modal_sys" where
  "set_open b s = (if b = is_open s then s else render b s)"

text \<open>\<open>hidden.bs.modal\<close>: every registered \<open>performClose\<close> whose captured
  \<open>isOpen\<close> is true calls \<open>onClose()\<close>, that is \<open>closeModal()\<close>.\<close>

definition on_hidden :: "modal_sys \<Rightarrow> modal_sys" where
  "on_hidden s =
     (let n = length (filter snd (listeners s)) in
      if n = 0 then s else (set_open False s)\<lparr>hidden_closes := hidden_closes s + n\<rparr>)"

section \<open>Events\<close>

text \<open>
  \<^item> \<open>RequestOpen\<close>: the owner opens the dialog (\<open>openModal\<close>,
    \<open>handleOpenDetail\<close>);
  \<^item> \<open>RequestClose\<close>: the owner closes it (\<open>closeModal()\<close> after a successful
    submit);
  \<^item> \<open>CloseButton\<close>: the header's close button or the footer's cancel button,
    \<open>handleClose\<close>;
  \<^item> \<open>Dismiss\<close>: a click on the backdrop or the Escape key, handled by the widget;
  \<^item> \<open>TransitionEnd\<close>: the widget's fade transition ends;
  \<^item> \<open>ParentRender\<close>: the owner re-renders for another reason (typing in the form).
\<close>

datatype modal_event = RequestOpen | RequestClose | CloseButton | Dismiss | TransitionEnd | ParentRender

fun modal_step :: "modal_event \<Rightarrow> modal_sys \<Rightarrow> modal_sys" where
  "modal_step RequestOpen s = set_open True s"
| "modal_step RequestClose s = set_open False s"
| "modal_step CloseButton s = set_open False s"
| "modal_step Dismiss s = s\<lparr>widget := map_option bs_hide (widget s)\<rparr>"
| "modal_step TransitionEnd s =
     (case widget s of
        None \<Rightarrow> s
      | Some m \<Rightarrow>
          (case bs_transition_end m of
             (m', fired) \<Rightarrow> if fired then on_hidden (s\<lparr>widget := Some m'\<rparr>) else s\<lparr>widget := Some m'\<rparr>))"
| "modal_step ParentRender s = render (is_open s) s"

text \<open>DetailModal.jsx runs the same three effects and close handler against
  \<open>isDetailModalOpen\<close> and \<open>handleCloseDetail\<close>.\<close>

definition detail_modal_step :: "modal_event \<Rightarrow> modal_sys \<Rightarrow> modal_sys" where
  "detail_modal_step = modal_step"

fun modal_run :: "modal_sys \<Rightarrow> modal_event list \<Rightarrow> modal_sys" where
  "modal_run s [] = s"
| "modal_run s (e # es) = modal_run (modal_step e s) es"

section \<open>Mount and unmount\<close>

text \<open>The first render with \<open>isOpen = false\<close>: the widget is created if the
  element is there; \<open>hide()\<close> on the new widget does nothing; the listener
  effect dereferences the element without a check, so a missing element raises.\<close>

definition modal_init :: modal_sys where
  "modal_init = \<lparr>is_open = False, widget = Some (bs_hide bs_new), listeners = [(0, False)],
                 next_id = 1, hidden_closes = 0\<rparr>"

definition modal_mount :: "bool \<Rightarrow> js_error + modal_sys" where
  "modal_mount has_element = (if has_element then Inr modal_init else Inl TypeError)"

definition modal_unmount :: "modal_sys \<Rightarrow> modal_sys" where
  "modal_unmount s =
     s\<lparr>widget := map_option bs_dispose (widget s),
       listeners := filter (\<lambda>(i, _). i \<noteq> next_id s - 1) (listeners s)\<rparr>"

inductive modal_reach :: "modal_sys \<Rightarrow> bool" where
  mount: "modal_mount True = Inr s \<Longrightarrow> modal_reach s"
| step: "modal_reach s \<Longrightarrow> modal_reach (modal_step e s)"

text \<open>The invariant: one widget, not disposed; exactly one listener, the last
  registered, capturing the current \<open>isOpen\<close>; and while the owner believes the
  dialog open the widget is not hidden.\<close>

definition modal_inv :: "modal_sys \<Rightarrow> bool" where
  "modal_inv s \<longleftrightarrow>
     0 < next_id s \<and> listeners s = [(next_id s - 1, is_open s)] \<and>
     (case widget s of
        None \<Rightarrow> False
      | Some m \<Rightarrow> \<not> disposed m \<and> (is_open s \<longrightarrow> phase m \<noteq> Hidden))"

section \<open>Properties\<close>

subsection \<open>The invariant of reachable states\<close>

lemma render_fields [modal_simps]:
  "is_open (render b s) = b"
  "widget (render b s) = (if b = is_open s then widget s else show_hide_effect b (widget s))"
  "next_id (render b s) = Suc (next_id s)"
  "hidden_closes (render b s) = hidden_closes s"
  by (simp_all add: render_def listener_effect_def)

lemma render_listeners:
  "listeners s = [(next_id s - 1, x)] \<Longrightarrow> listeners (render b s) = [(next_id s, b)]"
  by (simp add: render_def listener_effect_def)

lemma bs_show_phase: "\<not> disposed m \<Longrightarrow> phase (bs_show m) \<noteq> Hidden"
  by (cases "phase m") (simp_all add: bs_simps)

lemma bs_hide_phase: "phase m \<noteq> Hidden \<Longrightarrow> phase (bs_hide m) \<noteq> Hidden"
  by (cases "phase m") (simp_all add: bs_simps)

lemma bs_disposed [simp]:
  "disposed (bs_show m) = disposed m" "disposed (bs_hide m) = disposed m"
  "disposed (fst (bs_transition_end m)) = disposed m"
  by (simp_all add: bs_simps split: bs_phase.splits)

lemma modal_inv_hidden_closes [simp]: "modal_inv (s\<lparr>hidden_closes := n\<rparr>) = modal_inv s"
  by (simp add: modal_inv_def split: option.splits)

lemma widget_upd_same: "widget s = w \<Longrightarrow> s\<lparr>widget := w\<rparr> = s"
  by auto

lemma modal_inv_render:
  assumes l: "listeners s = [(next_id s - 1, x)]" and n: "0 < next_id s"
    and w: "widget s = Some m" "\<not> disposed m"
    and keep: "b \<Longrightarrow> b = is_open s \<Longrightarrow> phase m \<noteq> Hidden"
  shows "modal_inv (render b s)"
proof -
  have "b \<Longrightarrow> phase (bs_show m) \<noteq> Hidden" using w(2) by (rule bs_show_phase)
  with l n w keep show ?thesis
    by (auto simp: modal_inv_def render_fields render_listeners show_hide_effect_def)
qed

lemma modal_inv_set_open: "modal_inv s \<Longrightarrow> modal_inv (set_open b s)"
proof -
  assume inv: "modal_inv s"
  then obtain m where "widget s = Some m" "\<not> disposed m"
    "listeners s = [(next_id s - 1, is_open s)]" "0 < next_id s"
    by (auto simp: modal_inv_def split: option.splits)
  then show ?thesis
    using inv by (auto simp: set_open_def intro: modal_inv_render)
qed

lemma modal_inv_on_hidden:
  assumes l: "listeners s = [(next_id s - 1, is_open s)]" and n: "0 < next_id s"
    and w: "widget s = Some m" "\<not> disposed m" "phase m = Hidden"
  shows "modal_inv (on_hidden s)"
proof (cases "is_open s")
  case True
  have "modal_inv (render False s)"
    by (rule modal_inv_render[OF l n w(1,2)]) simp
  with True l show ?thesis by (simp add: on_hidden_def set_open_def)
next
  case False
  with l n w show ?thesis by (simp add: on_hidden_def modal_inv_def)
qed

lemma modal_inv_step: "modal_inv s \<Longrightarrow> modal_inv (modal_step e s)"
proof (cases e)
  case Dismiss
  assume "modal_inv s"
  then show ?thesis
    using bs_hide_phase by (auto simp: Dismiss modal_inv_def split: option.splits)
next
  case TransitionEnd
  assume inv: "modal_inv s"
  then obtain m where m: "widget s = Some m" "\<not> disposed m"
    by (auto simp: modal_inv_def split: option.splits)
  show ?thesis
  proof (cases "phase m")
    case Hiding
    let ?s = "s\<lparr>widget := Some (m\<lparr>phase := Hidden\<rparr>)\<rparr>"
    have "modal_inv (on_hidden ?s)"
      using inv m by (intro modal_inv_on_hidden[where m = "m\<lparr>phase := Hidden\<rparr>"]) (simp_all add: modal_inv_def)
    with Hiding m show ?thesis by (simp add: TransitionEnd bs_transition_end_def)
  next
    case Showing
    with inv m show ?thesis
      by (simp add: TransitionEnd bs_transition_end_def modal_inv_def)
  qed (use inv m in \<open>simp_all add: TransitionEnd bs_transition_end_def widget_upd_same\<close>)
next
  case ParentRender
  assume inv: "modal_inv s"
  then obtain m where "widget s = Some m" "\<not> disposed m"
    "listeners s = [(next_id s - 1, is_open s)]" "0 < next_id s"
    by (auto simp: modal_inv_def split: option.splits)
  then have "modal_inv (render (is_open s) s)"
    using inv by (intro modal_inv_render) (auto simp: modal_inv_def)
  then show ?thesis by (simp add: ParentRender)
qed (simp_all add: modal_inv_set_open)

lemma modal_inv_mount: "modal_mount True = Inr s \<Longrightarrow> modal_inv s"
  by (auto simp: modal_mount_def modal_init_def modal_inv_def bs_simps)

lemma modal_reach_inv: "modal_reach s \<Longrightarrow> modal_inv s"
  by (induction rule: modal_reach.induct) (auto intro: modal_inv_mount modal_inv_step)

lemma modal_inv_parts:
  assumes "modal_inv s"
  obtains m where "widget s = Some m" "\<not> disposed m" "is_open s \<Longrightarrow> phase m \<noteq> Hidden"
    "listeners s = [(next_id s - 1, is_open s)]" "0 < next_id s"
  using assms by (auto simp: modal_inv_def split: option.splits)

lemma hidden_closes_set_open [simp]: "hidden_closes (set_open b s) = hidden_closes s"
  by (simp add: set_open_def render_fields)

lemma modal_reach_run: "modal_reach s \<Longrightarrow> modal_reach (modal_run s es)"
  by (induction es arbitrary: s) (auto intro: modal_reach.step)

lemma modal_reach_init: "modal_reach modal_init"
  by (rule modal_reach.mount) (simp add: modal_mount_def)

subsection \<open>Claims\<close>

text \<open>C15: Whenever the page believes the dialog open, the widget exists, is not disposed and is not hidden: no reachable state has the dialog stuck closed while the page state says open.\<close>

theorem modal_open_not_hidden:
  "modal_reach s \<Longrightarrow> is_open s \<Longrightarrow> \<exists>m. widget s = Some m \<and> \<not> disposed m \<and> phase m \<noteq> Hidden"
  by (metis modal_inv_parts modal_reach_inv)

lemma modal_open_not_hidden_witness:
  "\<exists>m. widget (modal_run modal_init [RequestOpen]) = Some m \<and> \<not> disposed m \<and> phase m \<noteq> Hidden"
proof -
  have "modal_reach (modal_run modal_init [RequestOpen])"
    by (rule modal_reach_run[OF modal_reach_init])
  moreover have "is_open (modal_run modal_init [RequestOpen])"
    by (simp add: modal_init_def set_open_def render_fields)
  ultimately show ?thesis by (rule modal_open_not_hidden)
qed

text \<open>C16: The loop-breaker: while the page believes the dialog closed, no event makes the \<open>hidden.bs.modal\<close> listener call \<open>onClose\<close>; a close the page itself started is never echoed back as a second close notification.\<close>

theorem closed_never_notifies:
  assumes "modal_reach s" "\<not> is_open s"
  shows "hidden_closes (modal_step e s) = hidden_closes s"
proof -
  from modal_reach_inv[OF assms(1)] obtain m where m: "widget s = Some m"
    and l: "listeners s = [(next_id s - 1, is_open s)]"
    by (rule modal_inv_parts)
  have "hidden_closes (on_hidden s') = hidden_closes s'" if "listeners s' = listeners s" for s'
    using that l assms(2) by (simp add: on_hidden_def)
  then show ?thesis
    using m by (cases e) (auto simp: render_fields split: prod.splits)
qed

lemma closed_never_notifies_witness:
  "hidden_closes (modal_step TransitionEnd modal_init) = hidden_closes modal_init"
  by (rule closed_never_notifies[OF modal_reach_init]) (simp add: modal_init_def)

text \<open>C17: Closing programmatically (\<open>closeModal()\<close> after a successful submit) an open, fully shown dialog hides the widget and, when the fade-out ends, leaves the page state closed with no close notification.\<close>

theorem programmatic_close_silent:
  assumes "modal_reach s" "is_open s" "widget s = Some m" "phase m = Shown"
  shows "\<not> is_open (modal_run s [RequestClose, TransitionEnd])
       \<and> map_option phase (widget (modal_run s [RequestClose, TransitionEnd])) = Some Hidden
       \<and> hidden_closes (modal_run s [RequestClose, TransitionEnd]) = hidden_closes s"
proof -
  from modal_reach_inv[OF assms(1)] obtain m' where "widget s = Some m'" "\<not> disposed m'"
    "listeners s = [(next_id s - 1, is_open s)]" "0 < next_id s"
    by (rule modal_inv_parts)
  with assms show ?thesis
    by (simp add: set_open_def render_fields render_listeners show_hide_effect_def bs_simps
                  on_hidden_def)
qed

lemma programmatic_close_silent_witness:
  "hidden_closes (modal_run (modal_run modal_init [RequestOpen, TransitionEnd]) [RequestClose, TransitionEnd]) = 0"
proof -
  let ?s = "modal_run modal_init [RequestOpen, TransitionEnd]"
  have "modal_reach ?s" by (rule modal_reach_run[OF modal_reach_init])
  moreover have "is_open ?s" "widget ?s = Some \<lparr>phase = Shown, disposed = False\<rparr>"
    by (simp_all add: modal_init_def set_open_def render_def listener_effect_def
                      show_hide_effect_def bs_simps)
  ultimately show ?thesis
    using programmatic_close_silent[of ?s] by (simp add: modal_init_def set_open_def render_def
      listener_effect_def show_hide_effect_def bs_simps)
qed

text \<open>C18: A dismissal by the widget (backdrop click or Escape) of an open, shown dialog produces exactly one close notification to the page, which then believes the dialog closed; a following open request shows the dialog again.\<close>

theorem dismiss_notifies_once:
  assumes "modal_reach s" "is_open s" "widget s = Some m" "phase m = Shown"
  shows "\<not> is_open (modal_run s [Dismiss, TransitionEnd])
       \<and> map_option phase (widget (modal_run s [Dismiss, TransitionEnd])) = Some Hidden
       \<and> hidden_closes (modal_run s [Dismiss, TransitionEnd]) = Suc (hidden_closes s)
       \<and> is_open (modal_run s [Dismiss, TransitionEnd, RequestOpen])
       \<and> map_option phase (widget (modal_run s [Dismiss, TransitionEnd, RequestOpen])) = Some Showing"
proof -
  from modal_reach_inv[OF assms(1)] obtain m' where "widget s = Some m'" "\<not> disposed m'"
    "listeners s = [(next_id s - 1, is_open s)]" "0 < next_id s"
    by (rule modal_inv_parts)
  with assms show ?thesis
    by (simp add: set_open_def render_fields render_listeners show_hide_effect_def bs_simps
                  on_hidden_def)
qed

lemma dismiss_notifies_once_witness:
  "hidden_closes (modal_run (modal_run modal_init [RequestOpen, TransitionEnd]) [Dismiss, TransitionEnd]) = 1"
proof -
  let ?s = "modal_run modal_init [RequestOpen, TransitionEnd]"
  have "modal_reach ?s" by (rule modal_reach_run[OF modal_reach_init])
  moreover have "is_open ?s" "widget ?s = Some \<lparr>phase = Shown, disposed = False\<rparr>"
    by (simp_all add: modal_init_def set_open_def render_def listener_effect_def
                      show_hide_effect_def bs_simps)
  ultimately have "hidden_closes (modal_run ?s [Dismiss, TransitionEnd]) = Suc (hidden_closes ?s)"
    using dismiss_notifies_once[of ?s] by simp
  then show ?thesis
    by (simp add: modal_init_def set_open_def render_def listener_effect_def
                  show_hide_effect_def bs_simps)
qed

text \<open>C19: The page and the widget can disagree: in every reachable state where
  the dialog is open and still fading in, a close requested by the page is
  ignored by the widget, and when the fade-in ends the widget is shown while the
  page believes the dialog closed, with no close notification.\<close>

theorem close_during_fade_in_desync:
  assumes r: "modal_reach s" and o: "is_open s" and f: "map_option phase (widget s) = Some Showing"
  shows "let t = modal_step RequestClose s; u = modal_step TransitionEnd t in
     \<not> is_open t \<and> map_option phase (widget t) = Some Showing \<and>
     \<not> is_open u \<and> map_option phase (widget u) = Some Shown \<and> hidden_closes u = hidden_closes s"
proof -
  from modal_reach_inv[OF r] obtain m where m: "widget s = Some m" "\<not> disposed m"
    by (rule modal_inv_parts)
  with f have "phase m = Showing" by simp
  with m o show ?thesis
    by (simp add: Let_def set_open_def render_def listener_effect_def show_hide_effect_def bs_simps)
qed

lemma close_during_fade_in_desync_witness:
  "let t = modal_step RequestClose (modal_step RequestOpen modal_init) in
   \<not> is_open (modal_step TransitionEnd t) \<and> map_option phase (widget (modal_step TransitionEnd t)) = Some Shown"
proof -
  have r: "modal_reach (modal_step RequestOpen modal_init)"
    by (rule modal_reach.step[OF modal_reach_init])
  have "is_open (modal_step RequestOpen modal_init) \<and>
        map_option phase (widget (modal_step RequestOpen modal_init)) = Some Showing"
    by (simp add: modal_init_def set_open_def render_def listener_effect_def show_hide_effect_def bs_simps)
  then show ?thesis
    using close_during_fade_in_desync[OF r] by (simp add: Let_def)
qed

text \<open>C20: Once the widget is shown while the page believes the dialog closed,
  the dialog's own buttons and the page's re-renders leave it on screen (setting
  the closed flag again does not re-render); only a dismissal by the backdrop or
  Escape hides it, and then without a close notification, as the listener
  captured the closed flag.\<close>

theorem desync_needs_dismiss:
  assumes r: "modal_reach s" and c: "\<not> is_open s" and sh: "map_option phase (widget s) = Some Shown"
  shows "modal_step CloseButton s = s \<and> modal_step RequestClose s = s \<and>
     \<not> is_open (modal_step ParentRender s) \<and>
     map_option phase (widget (modal_step ParentRender s)) = Some Shown \<and>
     (let u = modal_step TransitionEnd (modal_step Dismiss s) in
        \<not> is_open u \<and> map_option phase (widget u) = Some Hidden \<and> hidden_closes u = hidden_closes s)"
proof -
  from modal_reach_inv[OF r] obtain m where m: "widget s = Some m" "\<not> disposed m"
    and l: "listeners s = [(next_id s - 1, is_open s)]"
    by (rule modal_inv_parts)
  with sh have "phase m = Shown" by simp
  with m l c show ?thesis
    by (simp add: Let_def set_open_def render_def listener_effect_def on_hidden_def bs_simps)
qed

lemma desync_needs_dismiss_witness:
  "let s = modal_run modal_init [RequestOpen, RequestClose, TransitionEnd] in
   modal_step CloseButton s = s \<and>
   map_option phase (widget (modal_step TransitionEnd (modal_step Dismiss s))) = Some Hidden"
proof -
  let ?s = "modal_run modal_init [RequestOpen, RequestClose, TransitionEnd]"
  have r: "modal_reach ?s" by (rule modal_reach_run[OF modal_reach_init])
  have "\<not> is_open ?s \<and> map_option phase (widget ?s) = Some Shown"
    by (simp add: modal_init_def set_open_def render_def listener_effect_def show_hide_effect_def bs_simps)
  then show ?thesis
    using desync_needs_dismiss[OF r] by (simp add: Let_def)
qed

text \<open>C21: The widget is created once and disposed only when the component unmounts: it is never disposed in a reachable state, and unmounting disposes it and removes the listener.\<close>

theorem unmount_disposes_once:
  assumes "modal_reach s"
  shows "(\<exists>m. widget s = Some m \<and> \<not> disposed m)
       \<and> (\<exists>m. widget (modal_unmount s) = Some m \<and> disposed m) \<and> listeners (modal_unmount s) = []"
proof -
  from modal_reach_inv[OF assms] obtain m where "widget s = Some m" "\<not> disposed m"
    "listeners s = [(next_id s - 1, is_open s)]"
    by (rule modal_inv_parts)
  then show ?thesis
    by (simp add: modal_unmount_def bs_dispose_def)
qed

lemma unmount_disposes_once_witness:
  "\<exists>m. widget (modal_unmount modal_init) = Some m \<and> disposed m"
  using unmount_disposes_once[OF modal_reach_init] by blast

end
