(* ===== verification/Session.thy ===== *)
theory Session
  imports JsValue
begin

text \<open>
  The session token of ProductPage.jsx's mount effect:
  \<open>document.cookie.replace(/(?:(?:^|.*;\s*)hexToken\s*\=\s*([^;]*).*$)|^.*$/, "$1")\<close>.
  The match starts at position 0.  Its first alternative takes the name at the
  very start (\<open>^\<close> is tried before \<open>.*;\s*\<close>), otherwise after the last
  semicolon (the greedy \<open>.*\<close>) that is followed by white space, \<open>hexToken\<close>,
  white space and \<open>=\<close>; the capture skips white space after \<open>=\<close> and runs to
  the next semicolon.  When it fails the second alternative matches and the
  result is the empty string.  \<open>\s\<close> is taken as ASCII white space.
  The cookie jar is a list of name/value pairs, which \<open>document.cookie\<close> joins
  with \<open>"; "\<close>.
\<close>

section \<open>Reading the token\<close>

text \<open>\<open>hexToken\s*=\s*([^;]*)\<close> at the start of a string: the capture.\<close>

definition token_at :: "string \<Rightarrow> string option" where
  "token_at s =
     (if take 8 s = ''hexToken'' then
        (case dropWhile is_js_ws (drop 8 s) of
           c # r \<Rightarrow>
             if c = CHR ''='' then Some (takeWhile (\<lambda>x. x \<noteq> CHR '';'') (dropWhile is_js_ws r))
             else None
         | [] \<Rightarrow> None)
      else None)"

text \<open>The text after each semicolon, left to right.\<close>

fun after_semis :: "string \<Rightarrow> string list" where
  "after_semis [] = []"
| "after_semis (c # cs) = (if c = CHR '';'' then cs # after_semis cs else after_semis cs)"

text \<open>The last semicolon whose text matches, as the greedy \<open>.*\<close> finds it.\<close>

definition token_step :: "string option \<Rightarrow> string \<Rightarrow> string option" where
  "token_step acc suf = (case token_at (dropWhile is_js_ws suf) of Some t \<Rightarrow> Some t | None \<Rightarrow> acc)"

definition last_token :: "string list \<Rightarrow> string option" where
  "last_token sufs = foldl token_step None sufs"

definition cookie_token :: "string \<Rightarrow> string" where
  "cookie_token s =
     (case token_at s of
        Some t \<Rightarrow> t
      | None \<Rightarrow> (case last_token (after_semis s) of Some t \<Rightarrow> t | None \<Rightarrow> []))"

section \<open>The cookie jar\<close>

type_synonym cookie_jar = "(string \<times> string) list"

fun cookie_string :: "cookie_jar \<Rightarrow> string" where
  "cookie_string [] = []"
| "cookie_string [(n, v)] = n @ ''='' @ v"
| "cookie_string ((n, v) # c # cs) = n @ ''='' @ v @ ''; '' @ cookie_string (c # cs)"

text \<open>\<open>document.cookie = "hexToken=; expires=Thu, 01 Jan 1970 00:00:00 UTC;"\<close>
  in \<open>handleLogout\<close>: an expiry date in the past deletes the cookie.\<close>

definition expire_token :: "cookie_jar \<Rightarrow> cookie_jar" where
  "expire_token jar = filter (\<lambda>(n, _). n \<noteq> ''hexToken'') jar"

text \<open>Names and values a browser keeps in \<open>document.cookie\<close>: no semicolons, no
  \<open>=\<close> in names, no surrounding white space, each name once.\<close>

definition cookie_ok :: "string \<Rightarrow> bool" where
  "cookie_ok x \<longleftrightarrow> CHR '';'' \<notin> set x \<and> (x = [] \<or> (\<not> is_js_ws (hd x) \<and> \<not> is_js_ws (last x)))"

definition jar_ok :: "cookie_jar \<Rightarrow> bool" where
  "jar_ok jar \<longleftrightarrow>
     distinct (map fst jar) \<and>
     list_all (\<lambda>(n, v). n \<noteq> [] \<and> cookie_ok n \<and> CHR ''='' \<notin> set n \<and> cookie_ok v) jar"

section \<open>Properties\<close>


lemma cookie_ok_hd: "cookie_ok x \<Longrightarrow> x \<noteq> [] \<Longrightarrow> \<not> is_js_ws (hd x)"
  by (simp add: cookie_ok_def)

lemma dropWhile_ws_nonws: "s \<noteq> [] \<Longrightarrow> \<not> is_js_ws (hd s) \<Longrightarrow> dropWhile is_js_ws s = s"
  by (cases s) auto

lemma ws_eq_char: "is_js_ws CHR ''=''  = False" "is_js_ws CHR '';''  = False" "is_js_ws CHR '' '' = True"
  by (simp_all add: is_js_ws_def)

lemma capture_value:
  assumes "cookie_ok v" "r = [] \<or> hd r = CHR '';''"
  shows "takeWhile (\<lambda>x. x \<noteq> CHR '';'') (dropWhile is_js_ws (v @ r)) = v"
proof (cases "v = []")
  case True
  with assms(2) show ?thesis by (cases r) (auto simp: ws_eq_char)
next
  case False
  with assms(1) have "dropWhile is_js_ws (v @ r) = v @ r"
    by (simp add: dropWhile_ws_nonws cookie_ok_def)
  moreover have "CHR '';'' \<notin> set v" using assms(1) by (simp add: cookie_ok_def)
  moreover have "takeWhile (\<lambda>x. x \<noteq> CHR '';'') (v @ r) = v @ takeWhile (\<lambda>x. x \<noteq> CHR '';'') r"
    using \<open>CHR '';'' \<notin> set v\<close> by (intro takeWhile_append2) auto
  ultimately show ?thesis
    using assms(2) by (cases r) auto
qed


lemma token_at_entry:
  assumes n: "n \<noteq> []" "cookie_ok n" "CHR ''='' \<notin> set n" and v: "cookie_ok v"
    and r: "r = [] \<or> hd r = CHR '';''"
  shows "token_at (n @ ''='' @ v @ r) = (if n = ''hexToken'' then Some v else None)"
proof (cases "n = ''hexToken''")
  case True
  then show ?thesis
    using capture_value[OF v r] by (simp add: token_at_def is_js_ws_def)
next
  case False
  show ?thesis
  proof (cases "take 8 (n @ ''='' @ v @ r) = ''hexToken''")
    case False
    with \<open>n \<noteq> ''hexToken''\<close> show ?thesis by (simp add: token_at_def)
  next
    case True
    have len: "8 \<le> length n"
    proof (rule ccontr)
      assume "\<not> 8 \<le> length n"
      then have "take 8 (n @ ''='' @ v @ r) ! length n = CHR ''=''"
        by (simp add: nth_append)
      with True \<open>\<not> 8 \<le> length n\<close> have "''hexToken'' ! length n = CHR ''=''" by simp
      moreover have "''hexToken'' ! length n \<in> set ''hexToken''"
        using \<open>\<not> 8 \<le> length n\<close> by (intro nth_mem) simp
      ultimately show False by simp
    qed
    then obtain n' where nn: "n = ''hexToken'' @ n'"
      using True by (metis append_take_drop_id take_append diff_is_0_eq' take0 append_Nil2)
    with \<open>n \<noteq> ''hexToken''\<close> have "n' \<noteq> []" by auto
    have "\<not> is_js_ws (last n')" using n(2) nn \<open>n' \<noteq> []\<close> by (simp add: cookie_ok_def)
    moreover have "last n' \<in> set n'" using \<open>n' \<noteq> []\<close> by simp
    ultimately obtain c where c: "c \<in> set n'" "\<not> is_js_ws c" by blast
    then have "dropWhile is_js_ws (n' @ ''='' @ v @ r) = dropWhile is_js_ws n' @ ''='' @ v @ r"
      by (simp add: dropWhile_append1)
    moreover have "dropWhile is_js_ws n' \<noteq> []" using c by (auto simp: dropWhile_eq_Nil_conv)
    moreover have "hd (dropWhile is_js_ws n') \<in> set n'"
      using \<open>dropWhile is_js_ws n' \<noteq> []\<close> by (metis hd_in_set set_dropWhileD)
    ultimately show ?thesis
      using n(3) nn \<open>n \<noteq> ''hexToken''\<close> by (cases "dropWhile is_js_ws n'") (auto simp: token_at_def)
  qed
qed


declare cookie_string.simps [simp del]

lemma jar_ok_tail: "jar_ok (x # r) \<Longrightarrow> jar_ok r"
  by (simp add: jar_ok_def)

lemma jar_ok_head: "jar_ok ((n, v) # r) \<Longrightarrow> n \<noteq> [] \<and> cookie_ok n \<and> CHR ''='' \<notin> set n \<and> cookie_ok v"
  by (simp add: jar_ok_def)

lemma cookie_string_cons:
  "cookie_string ((n, v) # r) = n @ ''='' @ v @ (if r = [] then [] else ''; '' @ cookie_string r)"
  by (cases r) (auto simp: cookie_string.simps)

lemma cookie_string_start:
  "jar_ok jar \<Longrightarrow> jar \<noteq> [] \<Longrightarrow> cookie_string jar \<noteq> [] \<and> \<not> is_js_ws (hd (cookie_string jar))"
  by (cases jar) (auto simp: cookie_string_cons jar_ok_def cookie_ok_def)

lemma after_semis_append:
  "after_semis (xs @ ys) = map (\<lambda>s. s @ ys) (after_semis xs) @ after_semis ys"
  by (induction xs) auto

lemma after_semis_none: "CHR '';'' \<notin> set xs \<Longrightarrow> after_semis xs = []"
  by (induction xs) auto

lemma after_semis_cookie:
  assumes "jar_ok ((n, v) # r)"
  shows "after_semis (cookie_string ((n, v) # r))
         = (if r = [] then [] else (CHR '' '' # cookie_string r) # after_semis (cookie_string r))"
proof -
  from jar_ok_head[OF assms] have "CHR '';'' \<notin> set (n @ ''='' @ v)"
    by (simp add: cookie_ok_def)
  then show ?thesis
    by (simp add: cookie_string_cons after_semis_append after_semis_none)
qed

lemma last_token_fold:
  "foldl token_step a xs = (case last_token xs of Some t \<Rightarrow> Some t | None \<Rightarrow> a)"
proof (induction xs arbitrary: a)
  case Nil
  show ?case by (simp add: last_token_def)
next
  case (Cons x xs)
  show ?case
    unfolding last_token_def foldl_Cons
    by (subst (1 2) Cons.IH) (simp add: token_step_def split: option.splits)
qed

lemma last_token_cons:
  "last_token (x # xs) = (case last_token xs of Some t \<Rightarrow> Some t | None \<Rightarrow> token_at (dropWhile is_js_ws x))"
proof -
  have "last_token (x # xs) = foldl token_step (token_step None x) xs"
    by (simp add: last_token_def)
  also have "\<dots> = (case last_token xs of Some t \<Rightarrow> Some t | None \<Rightarrow> token_step None x)"
    by (rule last_token_fold)
  finally show ?thesis
    by (simp add: token_step_def split: option.splits)
qed

lemma token_at_cookie:
  "jar_ok ((n, v) # r) \<Longrightarrow> token_at (cookie_string ((n, v) # r)) = (if n = ''hexToken'' then Some v else None)"
proof -
  assume "jar_ok ((n, v) # r)"
  from jar_ok_head[OF this] have h: "n \<noteq> []" "cookie_ok n" "CHR ''='' \<notin> set n" "cookie_ok v"
    by simp_all
  show ?thesis
    unfolding cookie_string_cons by (rule token_at_entry[OF h]) simp
qed

lemma last_token_cookie:
  "jar_ok jar \<Longrightarrow> last_token (after_semis (cookie_string jar)) = map_of (tl jar) ''hexToken''"
proof (induction jar)
  case Nil
  then show ?case by (simp add: last_token_def cookie_string.simps)
next
  case (Cons x r)
  obtain n v where x: "x = (n, v)" by fastforce
  show ?case
  proof (cases r)
    case Nil
    have "after_semis (cookie_string (x # r)) = []"
      using after_semis_cookie[of n v r] Cons.prems x Nil by simp
    then show ?thesis using Nil by (simp add: last_token_def)
  next
    case (Cons y r')
    obtain n' v' where y: "y = (n', v')" by fastforce
    have ok: "jar_ok r" using Cons.prems x jar_ok_tail by blast
    have ws: "dropWhile is_js_ws (CHR '' '' # cookie_string r) = cookie_string r"
      using cookie_string_start[OF ok] Cons by (simp add: ws_eq_char dropWhile_ws_nonws)
    have dist: "n' = ''hexToken'' \<Longrightarrow> map_of r' ''hexToken'' = None"
      using ok Cons y by (auto simp: jar_ok_def map_of_eq_None_iff)
    have e1: "after_semis (cookie_string (x # r)) = (CHR '' '' # cookie_string r) # after_semis (cookie_string r)"
      using after_semis_cookie[of n v r] Cons.prems x Cons by simp
    have "last_token (after_semis (cookie_string (x # r)))
          = (case map_of r' ''hexToken'' of Some t \<Rightarrow> Some t | None \<Rightarrow> token_at (cookie_string r))"
      unfolding e1 last_token_cons ws Cons.IH[OF ok] using Cons by simp
    also have "token_at (cookie_string r) = (if n' = ''hexToken'' then Some v' else None)"
      using ok Cons y by (simp add: token_at_cookie)
    finally show ?thesis
      using dist Cons y by (auto split: option.splits)
  qed
qed

lemma cookie_lookup:
  "jar_ok jar \<Longrightarrow> cookie_token (cookie_string jar) = (case map_of jar ''hexToken'' of Some t \<Rightarrow> t | None \<Rightarrow> [])"
proof (cases jar)
  case Nil
  then show ?thesis by (simp add: cookie_token_def token_at_def last_token_def cookie_string.simps)
next
  case (Cons x r)
  assume ok: "jar_ok jar"
  obtain n v where x: "x = (n, v)" by fastforce
  show ?thesis
    using ok Cons x last_token_cookie[OF ok]
    by (simp add: cookie_token_def token_at_cookie)
qed

lemma expire_token_ok: "jar_ok jar \<Longrightarrow> jar_ok (expire_token jar)"
  by (auto simp: jar_ok_def expire_token_def list_all_iff distinct_map_filter)

lemma expire_token_none: "map_of (expire_token jar) ''hexToken'' = None"
  by (auto simp: expire_token_def map_of_eq_None_iff)

subsection \<open>Claims\<close>

text \<open>C22: For every cookie jar the browser can hold, the regular expression
  of the mount effect extracts exactly the value stored under \<open>hexToken\<close>, and
  the empty string when there is none, wherever the cookie stands in
  \<open>document.cookie\<close>.\<close>

theorem cookie_token_jar:
  "jar_ok jar \<Longrightarrow> cookie_token (cookie_string jar) = (case map_of jar ''hexToken'' of Some t \<Rightarrow> t | None \<Rightarrow> [])"
  by (rule cookie_lookup)

lemma cookie_token_jar_witness:
  "cookie_token (cookie_string [(''lang'', ''zh''), (''hexToken'', ''abc.def'')]) = ''abc.def''"
  using cookie_token_jar[of "[(''lang'', ''zh''), (''hexToken'', ''abc.def'')]"]
  by (simp add: jar_ok_def cookie_ok_def is_js_ws_def)

end
