(* ===== verification/Page.thy ===== *)
theory Page
  imports Draft ModalSync Session "HOL-Library.While_Combinator"
begin

text \<open>ProductPage (src/src/pages/ProductPage.jsx) as a whole: its state hooks
  (lines 41 to 50) in the record \<open>page\<close>, the list request \<open>getData\<close>, the
  session check \<open>checkLogin\<close>, the mount effect, the handlers of the page's
  buttons and of the two dialogs' callbacks, and the continuations that run when
  an API request settles.  The API module is not in the repository: a request is
  recorded in \<open>api_log\<close> and kept in \<open>pending\<close> with the continuation of the
  \<open>async\<close> function that awaits it, and an event \<open>Complete i r\<close> settles request
  \<open>i\<close> with response \<open>r\<close>, in any order the network chooses.  After \<open>navigate\<close>
  leaves the page, ProductPage is unmounted: its state setters do nothing, but the
  continuations of its requests still run.\<close>

section \<open>State\<close>

datatype modal_mode = ModeCreate | ModeEdit

text \<open>The argument \<open>getData\<close> receives: a page number, or the click event when
  the refresh button passes its \<open>onClick\<close> event (line 241).  \<open>getData()\<close> without
  an argument gets the default \<open>1\<close>.\<close>

datatype page_arg = PageNum nat | ClickEvent

text \<open>The pagination object of a list response (line 59).\<close>

record page_info =
  current_page :: nat
  total_pages :: nat
  has_pre :: bool
  has_next :: bool

text \<open>The calls of the API module (lines 8 to 16) with their arguments.\<close>

datatype api_call =
    GetAdminProducts page_arg
  | CheckUserLogin
  | DeleteProduct jsval
  | AddProduct jsobj
  | UpdateProduct jsval jsobj
  | UploadImage nat
  | AdminLogout

text \<open>What runs when a request settles: the rest of the \<open>async\<close> function that
  awaits it.  \<open>AfterCheckLogin True\<close> is \<open>checkLogin\<close> awaited by the mount
  effect's \<open>isAuth\<close>, which loads the list when it returns true.\<close>

datatype cont = AfterGetData | AfterCheckLogin bool | AfterDelete | AfterAdd | AfterUpdate
  | AfterUpload | AfterLogout

text \<open>A settled request: resolved with no data the page reads, with a product list
  (\<open>Object.values(res.data.products)\<close>) and pagination, with an image URL, or
  rejected.\<close>

datatype response = RespOk | RespList "jsobj list" page_info | RespUrl jsval | RespErr

datatype toast_msg = FetchFailed | CheckFailed | NotLoggedIn | LogoutOk | DeleteOk | DeleteFailed
  | FileTooLarge | UploadOk | UploadFailed | AddOk | UpdateOk | SubmitFailed

text \<open>The page state: the hooks \<open>products\<close>, \<open>tempProduct\<close>, \<open>modalMode\<close>,
  \<open>isLoading\<close>, \<open>pagination\<close> (\<open>None\<close> for the initial \<open>{}\<close>); the two dialogs
  with their open flags \<open>isProductModalOpen\<close> and \<open>isDetailModalOpen\<close> as
  \<open>is_open\<close> of their \<open>modal_sys\<close>; and the environment: whether the page is
  mounted, the route, the toasts shown, the pending requests, the log of calls
  made, the \<open>Authorization\<close> default header of axios, the cookie jar, and whether
  an exception in a state updater has unmounted the application.\<close>

record page =
  mounted :: bool
  route :: string
  products :: "jsobj list"
  tempProduct :: jsobj
  modalMode :: "modal_mode option"
  productModal :: modal_sys
  detailModal :: modal_sys
  isLoading :: bool
  pagination :: "page_info option"
  toasts :: "toast_msg list"
  pending :: "(nat \<times> api_call \<times> cont) list"
  api_log :: "api_call list"
  next_req :: nat
  auth_header :: string
  cookies :: cookie_jar
  crashed :: bool

section \<open>Effects\<close>

text \<open>A state setter of an unmounted component does nothing.\<close>

definition set_state :: "(page \<Rightarrow> page) \<Rightarrow> page \<Rightarrow> page" where
  "set_state f s = (if mounted s then f s else s)"

definition set_loading :: "bool \<Rightarrow> page \<Rightarrow> page" where
  "set_loading b = set_state (\<lambda>s. s\<lparr>isLoading := b\<rparr>)"

definition toast :: "toast_msg \<Rightarrow> page \<Rightarrow> page" where
  "toast m s = s\<lparr>toasts := toasts s @ [m]\<rparr>"

text \<open>\<open>navigate(r)\<close>: leaving \<open>/products\<close> unmounts ProductPage and with it the
  two dialogs (their cleanup disposes the widgets).\<close>

definition navigate :: "string \<Rightarrow> page \<Rightarrow> page" where
  "navigate r s =
     (if mounted s \<and> r \<noteq> ''/products''
      then s\<lparr>route := r, mounted := False, productModal := modal_unmount (productModal s),
             detailModal := modal_unmount (detailModal s)\<rparr>
      else s\<lparr>route := r\<rparr>)"

text \<open>An API call: the request is made and its continuation waits.\<close>

definition issue :: "api_call \<Rightarrow> cont \<Rightarrow> page \<Rightarrow> page" where
  "issue c k s =
     s\<lparr>pending := pending s @ [(next_req s, c, k)], api_log := api_log s @ [c],
       next_req := Suc (next_req s)\<rparr>"

section \<open>Handlers\<close>

text \<open>\<open>getData\<close> and \<open>checkLogin\<close> up to their \<open>await\<close> (lines 54 to 57 and 68
  to 71).\<close>

definition getData :: "page_arg \<Rightarrow> page \<Rightarrow> page" where
  "getData p s = issue (GetAdminProducts p) AfterGetData (set_loading True s)"

definition checkLogin :: "bool \<Rightarrow> page \<Rightarrow> page" where
  "checkLogin from_mount s = issue CheckUserLogin (AfterCheckLogin from_mount) (set_loading True s)"

text \<open>The first render: the initial hooks, and both dialogs mounted.\<close>

definition page_init :: "cookie_jar \<Rightarrow> page" where
  "page_init jar =
     \<lparr>mounted = True, route = ''/products'', products = [], tempProduct = addNewProduct,
      modalMode = None, productModal = modal_init, detailModal = modal_init, isLoading = False,
      pagination = None, toasts = [], pending = [], api_log = [], next_req = 0,
      auth_header = [], cookies = jar, crashed = False\<rparr>"

text \<open>The mount effect (lines 82 to 101): read the token from the cookie; without
  one, report and leave; otherwise set the header and start \<open>isAuth\<close>.\<close>

definition page_mount :: "cookie_jar \<Rightarrow> page" where
  "page_mount jar =
     (let s = page_init jar; token = cookie_token (cookie_string jar) in
      if token = [] then navigate ''/'' (toast NotLoggedIn s)
      else checkLogin True (s\<lparr>auth_header := token\<rparr>))"

text \<open>\<open>handleLogout\<close> (lines 103 to 114): \<open>adminLogout()\<close> is not awaited, so
  the \<open>try\<close> block never throws and the \<open>catch\<close> branch is dead.\<close>

definition handleLogout :: "page \<Rightarrow> page" where
  "handleLogout s =
     navigate ''/''
       (toast LogoutOk
         ((issue AdminLogout AfterLogout s)\<lparr>cookies := expire_token (cookies s), auth_header := []\<rparr>))"

definition handleDelete :: "jsval \<Rightarrow> page \<Rightarrow> page" where
  "handleDelete i s = issue (DeleteProduct i) AfterDelete s"

definition upload_limit :: nat where
  "upload_limit = 3 * 1024 * 1024"

text \<open>\<open>handleUpload\<close> (lines 125 to 139): the file is \<open>None\<close> when none was
  chosen, else its size in bytes.\<close>

definition handleUpload :: "nat option \<Rightarrow> page \<Rightarrow> page" where
  "handleUpload f s =
     (case f of
        None \<Rightarrow> s
      | Some sz \<Rightarrow>
          if upload_limit < sz then toast FileTooLarge s
          else issue (UploadImage sz) AfterUpload s)"

text \<open>\<open>openModal\<close> and \<open>closeModal\<close> (lines 151 to 165); React batches the
  three setters into one render.\<close>

definition openModal :: "modal_mode \<Rightarrow> jsobj \<Rightarrow> page \<Rightarrow> page" where
  "openModal mode product =
     set_state (\<lambda>s. s\<lparr>modalMode := Some mode,
                      tempProduct := (if mode = ModeCreate then addNewProduct else product),
                      productModal := modal_step RequestOpen (productModal s)\<rparr>)"

definition closeModal :: "page \<Rightarrow> page" where
  "closeModal = set_state (\<lambda>s. s\<lparr>productModal := modal_step RequestClose (productModal s)\<rparr>)"

text \<open>\<open>handleModalSubmit\<close> up to its \<open>await\<close> (lines 206 to 212).\<close>

definition handleModalSubmit :: "page \<Rightarrow> page" where
  "handleModalSubmit s =
     (if modalMode s = Some ModeCreate then issue (AddProduct (tempProduct s)) AfterAdd s
      else issue (UpdateProduct (get_prop (tempProduct s) ''id'') (tempProduct s)) AfterUpdate s)"

definition handleOpenDetail :: "jsobj \<Rightarrow> page \<Rightarrow> page" where
  "handleOpenDetail product =
     set_state (\<lambda>s. s\<lparr>tempProduct := product,
                      detailModal := detail_modal_step RequestOpen (detailModal s)\<rparr>)"

definition handleCloseDetail :: "page \<Rightarrow> page" where
  "handleCloseDetail =
     set_state (\<lambda>s. s\<lparr>detailModal := detail_modal_step RequestClose (detailModal s)\<rparr>)"

text \<open>An edit of the draft through ProductModal's callbacks: the updater passed
  to \<open>setTempProduct\<close>; an exception in it unmounts the application.\<close>

definition update_draft :: "draft_action \<Rightarrow> page \<Rightarrow> page" where
  "update_draft a =
     set_state (\<lambda>s. case draft_step a (tempProduct s) of
                      Inr p \<Rightarrow> s\<lparr>tempProduct := p\<rparr>
                    | Inl e \<Rightarrow> s\<lparr>crashed := True, mounted := False\<rparr>)"

text \<open>\<open>res.data.imageUrl\<close> of a resolved upload.\<close>

definition upload_url :: "response \<Rightarrow> jsval" where
  "upload_url r = (case r of RespUrl u \<Rightarrow> u | _ \<Rightarrow> JUndef)"

text \<open>The continuations.  A resolved list request without products makes
  \<open>Object.values(undefined)\<close> throw, which the \<open>catch\<close> treats as a failure.  The
  \<open>finally\<close> of \<open>handleModalSubmit\<close> clears the loading flag after the
  \<open>getData()\<close> it has just started set it.\<close>

fun complete :: "cont \<Rightarrow> response \<Rightarrow> page \<Rightarrow> page" where
  "complete AfterGetData r s =
     set_loading False
       (case r of
          RespList ps pg \<Rightarrow> set_state (\<lambda>s. s\<lparr>products := ps, pagination := Some pg\<rparr>) s
        | _ \<Rightarrow> navigate ''/'' (toast FetchFailed s))"
| "complete (AfterCheckLogin m) r s =
     (if r = RespErr then set_loading False (navigate ''/'' (toast CheckFailed s))
      else if m then getData (PageNum 1) (set_loading False s)
      else set_loading False s)"
| "complete AfterDelete r s =
     (if r = RespErr then toast DeleteFailed s else getData (PageNum 1) (toast DeleteOk s))"
| "complete AfterAdd r s =
     set_loading False
       (if r = RespErr then toast SubmitFailed s
        else getData (PageNum 1) (closeModal (toast AddOk s)))"
| "complete AfterUpdate r s =
     set_loading False
       (if r = RespErr then toast SubmitFailed s
        else getData (PageNum 1) (closeModal (toast UpdateOk s)))"
| "complete AfterUpload r s =
     (if r = RespErr then toast UploadFailed s
      else set_state (\<lambda>s. s\<lparr>tempProduct := set_uploaded_image (upload_url r) (tempProduct s)\<rparr>)
             (toast UploadOk s))"
| "complete AfterLogout r s = s"

section \<open>Events\<close>

text \<open>The events of the page: its buttons (lines 241 to 308), the dialogs'
  callbacks, the dialogs' own events (\<open>ParentRender\<close> is the re-render a page
  update causes, which re-runs the listener effect as \<open>onClose\<close> is a new
  function), and the settling of a request.\<close>

datatype page_event =
    Refresh | CheckLoginButton | CreateButton | EditButton nat | DetailButton nat
  | DeleteButton nat | LogoutButton | ChangePage nat | SubmitButton | DraftEdit draft_action
  | UploadFile "nat option" | ProductDialog modal_event | DetailDialog modal_event
  | Complete nat response

definition settle :: "nat \<Rightarrow> response \<Rightarrow> page \<Rightarrow> page" where
  "settle i r s =
     (case find (\<lambda>(j, _, _). j = i) (pending s) of
        None \<Rightarrow> s
      | Some (_, _, k) \<Rightarrow> complete k r (s\<lparr>pending := filter (\<lambda>(j, _, _). j \<noteq> i) (pending s)\<rparr>))"

text \<open>The create button passes \<open>null\<close>, which \<open>openModal\<close> does not read.\<close>

fun page_step :: "page_event \<Rightarrow> page \<Rightarrow> page" where
  "page_step Refresh s = getData ClickEvent s"
| "page_step CheckLoginButton s = checkLogin False s"
| "page_step CreateButton s = openModal ModeCreate Map.empty s"
| "page_step (EditButton i) s = openModal ModeEdit (products s ! i) s"
| "page_step (DetailButton i) s = handleOpenDetail (products s ! i) s"
| "page_step (DeleteButton i) s = handleDelete (get_prop (products s ! i) ''id'') s"
| "page_step LogoutButton s = handleLogout s"
| "page_step (ChangePage n) s = getData (PageNum n) s"
| "page_step SubmitButton s = handleModalSubmit s"
| "page_step (DraftEdit a) s = update_draft a s"
| "page_step (UploadFile f) s = handleUpload f s"
| "page_step (ProductDialog e) s =
     set_state (\<lambda>s. s\<lparr>productModal := modal_step e (productModal s)\<rparr>) s"
| "page_step (DetailDialog e) s =
     set_state (\<lambda>s. s\<lparr>detailModal := detail_modal_step e (detailModal s)\<rparr>) s"
| "page_step (Complete i r) s = settle i r s"

section \<open>Which events can happen\<close>

text \<open>A dialog covers the page while its widget is not hidden.\<close>

definition dialog_visible :: "modal_sys \<Rightarrow> bool" where
  "dialog_visible m = (case widget m of Some w \<Rightarrow> phase w \<noteq> Hidden | None \<Rightarrow> False)"

definition page_idle :: "page \<Rightarrow> bool" where
  "page_idle s \<longleftrightarrow>
     mounted s \<and> \<not> dialog_visible (productModal s) \<and> \<not> dialog_visible (detailModal s)"

text \<open>The API's contract (the spec's interface table): list requests return
  well-formed products, uploads a URL string, the others no data the page reads;
  any request may fail.\<close>

fun resp_fits :: "api_call \<Rightarrow> response \<Rightarrow> bool" where
  "resp_fits _ RespErr = True"
| "resp_fits (GetAdminProducts _) r = (case r of RespList ps _ \<Rightarrow> list_all wf_draft ps | _ \<Rightarrow> False)"
| "resp_fits (UploadImage _) r = (case r of RespUrl u \<Rightarrow> is_str u | _ \<Rightarrow> False)"
| "resp_fits _ r = (r = RespOk)"

fun page_enabled :: "page \<Rightarrow> page_event \<Rightarrow> bool" where
  "page_enabled s (EditButton i) = (page_idle s \<and> i < length (products s))"
| "page_enabled s (DetailButton i) = (page_idle s \<and> i < length (products s))"
| "page_enabled s (DeleteButton i) = (page_idle s \<and> i < length (products s))"
| "page_enabled s (ChangePage n) = (page_idle s \<and> 0 < n)"
| "page_enabled s SubmitButton = (mounted s \<and> dialog_visible (productModal s))"
| "page_enabled s (UploadFile f) = (mounted s \<and> dialog_visible (productModal s))"
| "page_enabled s (DraftEdit a) =
     (mounted s \<and> dialog_visible (productModal s) \<and> ui_enabled (tempProduct s) a)"
| "page_enabled s (ProductDialog e) =
     (mounted s \<and> e \<notin> {RequestOpen, RequestClose} \<and>
      (e \<in> {CloseButton, Dismiss} \<longrightarrow> dialog_visible (productModal s)))"
| "page_enabled s (DetailDialog e) =
     (mounted s \<and> e \<notin> {RequestOpen, RequestClose} \<and>
      (e \<in> {CloseButton, Dismiss} \<longrightarrow> dialog_visible (detailModal s)))"
| "page_enabled s (Complete i r) = list_ex (\<lambda>(j, c, _). j = i \<and> resp_fits c r) (pending s)"
| "page_enabled s _ = page_idle s"

inductive page_reach :: "page \<Rightarrow> bool" where
  mount: "jar_ok jar \<Longrightarrow> page_reach (page_mount jar)"
| step: "page_reach s \<Longrightarrow> page_enabled s e \<Longrightarrow> page_reach (page_step e s)"

text \<open>A run of events, skipping those that cannot happen in the current state.\<close>

fun page_run :: "page \<Rightarrow> page_event list \<Rightarrow> page" where
  "page_run s [] = s"
| "page_run s (e # es) = page_run (if page_enabled s e then page_step e s else s) es"

section \<open>The page invariant\<close>

text \<open>Each pending request waits with the continuation of the handler that made
  it.\<close>

fun cont_matches :: "api_call \<Rightarrow> cont \<Rightarrow> bool" where
  "cont_matches (GetAdminProducts _) k = (k = AfterGetData)"
| "cont_matches CheckUserLogin k = (k \<in> {AfterCheckLogin True, AfterCheckLogin False})"
| "cont_matches (DeleteProduct _) k = (k = AfterDelete)"
| "cont_matches (AddProduct _) k = (k = AfterAdd)"
| "cont_matches (UpdateProduct _ _) k = (k = AfterUpdate)"
| "cont_matches (UploadImage _) k = (k = AfterUpload)"
| "cont_matches AdminLogout k = (k = AfterLogout)"

text \<open>The payload of a create or update request is a well-formed draft.\<close>

fun payload_ok :: "api_call \<Rightarrow> bool" where
  "payload_ok (AddProduct p) = wf_draft p"
| "payload_ok (UpdateProduct _ p) = wf_draft p"
| "payload_ok _ = True"

definition req_ok :: "nat \<Rightarrow> (nat \<times> api_call \<times> cont) list \<Rightarrow> bool" where
  "req_ok n ps \<longleftrightarrow> distinct (map fst ps) \<and> list_all (\<lambda>(j, c, k). j < n \<and> cont_matches c k) ps"

definition page_inv :: "page \<Rightarrow> bool" where
  "page_inv s \<longleftrightarrow>
     (mounted s \<longrightarrow> modal_reach (productModal s) \<and> modal_reach (detailModal s)) \<and>
     wf_draft (tempProduct s) \<and> list_all wf_draft (products s) \<and> \<not> crashed s \<and>
     req_ok (next_req s) (pending s) \<and> list_all payload_ok (api_log s)"

text \<open>The loading indicator is on only while a list or session request is
  pending.\<close>

fun loading_call :: "api_call \<Rightarrow> bool" where
  "loading_call (GetAdminProducts _) = True"
| "loading_call CheckUserLogin = True"
| "loading_call _ = False"

definition loading_ok :: "page \<Rightarrow> bool" where
  "loading_ok s \<longleftrightarrow> (mounted s \<and> isLoading s \<longrightarrow> list_ex (\<lambda>(_, c, _). loading_call c) (pending s))"

text \<open>The settlement of the pending requests by the network: the oldest
  request settles with the response a policy gives its call, until nothing is
  pending.  The weight of a pending request bounds the requests its continuation
  can still cause: two when it may start a list request, one otherwise.\<close>

fun cont_weight :: "cont \<Rightarrow> nat" where
  "cont_weight AfterGetData = 1"
| "cont_weight AfterUpload = 1"
| "cont_weight AfterLogout = 1"
| "cont_weight _ = 2"

definition pending_weight :: "(nat \<times> api_call \<times> cont) list \<Rightarrow> nat" where
  "pending_weight ps = sum_list (map (\<lambda>(_, _, k). cont_weight k) ps)"

definition settle_next :: "(api_call \<Rightarrow> response) \<Rightarrow> page \<Rightarrow> page" where
  "settle_next pol s = (case pending s of (j, c, _) # _ \<Rightarrow> settle j (pol c) s | [] \<Rightarrow> s)"

definition quiesce :: "(api_call \<Rightarrow> response) \<Rightarrow> page \<Rightarrow> page option" where
  "quiesce pol s = while_option (\<lambda>s. pending s \<noteq> []) (settle_next pol) s"

section \<open>Properties\<close>

subsection \<open>The invariant is preserved\<close>

lemma page_inv_toast [simp]: "page_inv (toast m s) = page_inv s"
  by (simp add: page_inv_def toast_def)

lemma page_inv_set_loading [simp]: "page_inv (set_loading b s) = page_inv s"
  by (simp add: page_inv_def set_loading_def set_state_def)

lemma page_inv_navigate: "page_inv s \<Longrightarrow> page_inv (navigate r s)"
  by (simp add: page_inv_def navigate_def)

lemma req_ok_snoc:
  "req_ok n ps \<Longrightarrow> cont_matches c k \<Longrightarrow> req_ok (Suc n) (ps @ [(n, c, k)])"
  by (auto simp: req_ok_def list_all_iff)

lemma req_ok_filter: "req_ok n ps \<Longrightarrow> req_ok n (filter P ps)"
  by (auto simp: req_ok_def list_all_iff distinct_map_filter)

lemma page_inv_issue:
  "page_inv s \<Longrightarrow> payload_ok c \<Longrightarrow> cont_matches c k \<Longrightarrow> page_inv (issue c k s)"
  by (simp add: page_inv_def issue_def req_ok_snoc)

lemma page_inv_getData: "page_inv s \<Longrightarrow> page_inv (getData p s)"
  by (simp add: getData_def page_inv_issue)

lemma page_inv_checkLogin: "page_inv s \<Longrightarrow> page_inv (checkLogin b s)"
  by (simp add: checkLogin_def page_inv_issue)

lemma page_inv_product_dialog:
  "page_inv s \<Longrightarrow> page_inv (set_state (\<lambda>s. s\<lparr>productModal := modal_step e (productModal s)\<rparr>) s)"
  by (simp add: page_inv_def set_state_def modal_reach.step)

lemma page_inv_detail_dialog:
  "page_inv s \<Longrightarrow> page_inv (set_state (\<lambda>s. s\<lparr>detailModal := detail_modal_step e (detailModal s)\<rparr>) s)"
  by (simp add: page_inv_def set_state_def detail_modal_step_def modal_reach.step)

lemma modal_reach_set_open: "modal_reach m \<Longrightarrow> modal_reach (set_open b m)"
  using modal_reach.step[of m RequestOpen] modal_reach.step[of m RequestClose]
  by (cases b) simp_all

lemma page_inv_closeModal: "page_inv s \<Longrightarrow> page_inv (closeModal s)"
  unfolding closeModal_def by (rule page_inv_product_dialog)

lemma page_inv_draft:
  "page_inv s \<Longrightarrow> wf_draft p \<Longrightarrow> page_inv (set_state (\<lambda>s. s\<lparr>tempProduct := p\<rparr>) s)"
  by (simp add: page_inv_def set_state_def)

lemma page_inv_openModal:
  "page_inv s \<Longrightarrow> m = ModeCreate \<or> wf_draft p \<Longrightarrow> page_inv (openModal m p s)"
  by (auto simp: page_inv_def openModal_def set_state_def modal_reach_set_open addNewProduct_wf)

lemma page_inv_openDetail:
  "page_inv s \<Longrightarrow> wf_draft p \<Longrightarrow> page_inv (handleOpenDetail p s)"
  by (simp add: page_inv_def handleOpenDetail_def set_state_def detail_modal_step_def
                modal_reach_set_open)

lemma page_inv_update_draft:
  assumes "page_inv s" "ui_enabled (tempProduct s) a"
  shows "page_inv (update_draft a s)"
proof -
  obtain q where "draft_step a (tempProduct s) = Inr q" "wf_draft q"
    using wf_draft_step assms by (auto simp: page_inv_def)
  with assms(1) show ?thesis
    by (simp add: update_draft_def set_state_def page_inv_def)
qed

lemma page_inv_upload_url:
  "page_inv s \<Longrightarrow> is_str u \<Longrightarrow> page_inv (s\<lparr>tempProduct := set_uploaded_image u (tempProduct s)\<rparr>)"
  unfolding page_inv_def set_uploaded_image_def
  by (auto intro: wf_draft_upd)

lemma page_inv_products:
  "page_inv s \<Longrightarrow> list_all wf_draft ps \<Longrightarrow>
   page_inv (set_state (\<lambda>s. s\<lparr>products := ps, pagination := Some pg\<rparr>) s)"
  by (simp add: page_inv_def set_state_def)

lemma page_inv_complete:
  assumes inv: "page_inv s" and m: "cont_matches c k" and r: "resp_fits c r"
  shows "page_inv (complete k r s)"
proof (cases k)
  case AfterGetData
  with m r obtain p where "c = GetAdminProducts p" "r = RespErr \<or> (\<exists>ps pg. r = RespList ps pg \<and> list_all wf_draft ps)"
    by (cases c; cases r) auto
  with inv AfterGetData show ?thesis
    by (auto simp: page_inv_products page_inv_navigate)
next
  case AfterUpload
  with m r have "r = RespErr \<or> (\<exists>u. r = RespUrl u \<and> is_str u)"
    by (cases c; cases r) auto
  with inv AfterUpload show ?thesis
    by (auto simp: set_state_def upload_url_def page_inv_upload_url)
qed (use inv in \<open>auto simp: page_inv_navigate page_inv_getData page_inv_closeModal\<close>)

lemma settle_entry:
  assumes "req_ok n ps" "list_ex (\<lambda>(j, c, _). j = i \<and> resp_fits c r) ps"
    and "find (\<lambda>(j, _, _). j = i) ps = Some (j, c, k)"
  shows "resp_fits c r \<and> cont_matches c k"
proof -
  from assms(3) have jck: "(j, c, k) \<in> set ps" "j = i"
    by (auto simp: find_Some_iff in_set_conv_nth)
  from assms(2) obtain c' k' where c'k': "(i, c', k') \<in> set ps" "resp_fits c' r"
    by (auto simp: list_ex_iff)
  from assms(1) have d: "distinct (map fst ps)" by (simp add: req_ok_def)
  have "(c, k) = (c', k')"
    using map_of_is_SomeI[OF d jck(1)] map_of_is_SomeI[OF d c'k'(1)] jck(2) by simp
  with c'k' jck assms(1) show ?thesis
    by (auto simp: req_ok_def list_all_iff)
qed

lemma page_inv_settle:
  assumes "page_inv s" "list_ex (\<lambda>(j, c, _). j = i \<and> resp_fits c r) (pending s)"
  shows "page_inv (settle i r s)"
proof (cases "find (\<lambda>(j, _, _). j = i) (pending s)")
  case (Some e)
  then obtain j c k where e: "find (\<lambda>(j, _, _). j = i) (pending s) = Some (j, c, k)"
    by (cases e) auto
  with assms have "resp_fits c r \<and> cont_matches c k"
    by (intro settle_entry) (auto simp: page_inv_def)
  moreover have "page_inv (s\<lparr>pending := filter (\<lambda>(j, _, _). j \<noteq> i) (pending s)\<rparr>)"
    using assms(1) by (simp add: page_inv_def req_ok_filter)
  ultimately show ?thesis
    using e by (auto simp: settle_def intro: page_inv_complete)
qed (simp add: settle_def assms(1))

lemma page_inv_session [simp]:
  "page_inv (s\<lparr>auth_header := h\<rparr>) = page_inv s"
  "page_inv (s\<lparr>cookies := j\<rparr>) = page_inv s"
  by (simp_all add: page_inv_def)

lemma page_inv_init: "page_inv (page_init jar)"
  by (simp add: page_inv_def page_init_def modal_reach_init addNewProduct_wf req_ok_def)

lemma page_inv_mount: "page_inv (page_mount jar)"
  by (simp add: page_mount_def Let_def page_inv_init page_inv_navigate page_inv_checkLogin)

lemma page_inv_step:
  assumes inv: "page_inv s" and en: "page_enabled s e"
  shows "page_inv (page_step e s)"
proof (cases e)
  case (EditButton i)
  with inv en have "wf_draft (products s ! i)"
    by (auto simp: page_inv_def list_all_length)
  with inv EditButton show ?thesis
    by (simp add: page_inv_openModal)
next
  case (DetailButton i)
  with inv en have "wf_draft (products s ! i)"
    by (auto simp: page_inv_def list_all_length)
  with inv DetailButton show ?thesis
    by (simp add: page_inv_openDetail)
next
  case (UploadFile f)
  with inv show ?thesis
    by (auto simp: handleUpload_def page_inv_issue split: option.splits)
next
  case (Complete i r)
  with inv en show ?thesis
    by (simp add: page_inv_settle)
next
  case LogoutButton
  with inv show ?thesis
    by (simp add: handleLogout_def) (intro page_inv_navigate, simp add: page_inv_issue)
next
  case SubmitButton
  with inv show ?thesis
    by (auto simp: handleModalSubmit_def intro!: page_inv_issue, auto simp: page_inv_def)
qed (use inv en in \<open>auto simp: page_inv_getData page_inv_checkLogin page_inv_openModal
        handleDelete_def page_inv_issue page_inv_product_dialog page_inv_detail_dialog
        page_inv_update_draft\<close>)

lemma page_reach_inv: "page_reach s \<Longrightarrow> page_inv s"
  by (induction rule: page_reach.induct) (auto intro: page_inv_mount page_inv_step)

lemma page_reach_run: "page_reach s \<Longrightarrow> page_reach (page_run s es)"
  by (induction es arbitrary: s) (auto intro: page_reach.step)

subsection \<open>Settling requests\<close>

lemmas page_ops = set_state_def set_loading_def toast_def issue_def getData_def checkLogin_def
  closeModal_def

lemma is_open_set_open [simp]: "is_open (set_open b m) = b"
  by (simp add: set_open_def render_def listener_effect_def)

lemma req_ok_below: "req_ok n ps \<Longrightarrow> list_all (\<lambda>(j, _, _). j < n) ps"
  by (auto simp: req_ok_def list_all_iff)

lemma find_below:
  "list_all (\<lambda>(j, _, _). j < n) (ps :: (nat \<times> api_call \<times> cont) list) \<Longrightarrow> n \<le> i \<Longrightarrow>
   find (\<lambda>(j, _, _). j = i) ps = None"
  by (induction ps) auto

lemma filter_below:
  "list_all (\<lambda>(j, _, _). j < n) (ps :: (nat \<times> api_call \<times> cont) list) \<Longrightarrow> n \<le> i \<Longrightarrow>
   filter (\<lambda>(j, _, _). j \<noteq> i) ps = ps"
  by (induction ps) auto

lemma find_last:
  "list_all (\<lambda>(j, _, _). j < n) (ps :: (nat \<times> api_call \<times> cont) list) \<Longrightarrow>
   find (\<lambda>(j, _, _). j = n) (ps @ [(n, c, k)]) = Some (n, c, k)"
  by (induction ps) auto

lemma settle_last:
  assumes "list_all (\<lambda>(j, _, _). j < n) ps" "pending t = ps @ [(n, c, k)]"
  shows "settle n r t = complete k r (t\<lparr>pending := ps\<rparr>)"
  using assms by (simp add: settle_def find_last filter_below)

lemma settle_issue:
  "next_req t = n \<Longrightarrow> list_all (\<lambda>(j, _, _). j < n) (pending t) \<Longrightarrow>
   settle n r (issue c k t) =
   complete k r (t\<lparr>api_log := api_log t @ [c], next_req := Suc (next_req t)\<rparr>)"
  by (simp add: issue_def settle_last)

subsection \<open>The loading flag and draining the requests\<close>

lemma loading_ok_getData: "loading_ok (getData p s)"
  by (simp add: loading_ok_def getData_def issue_def)

lemma loading_ok_checkLogin: "loading_ok (checkLogin b s)"
  by (simp add: loading_ok_def checkLogin_def issue_def)

lemma loading_ok_clear: "loading_ok (set_loading False s)"
  by (simp add: loading_ok_def set_loading_def set_state_def)

lemma loading_ok_toast [simp]: "loading_ok (toast m s) = loading_ok s"
  by (simp add: loading_ok_def toast_def)

lemma loading_ok_issue: "loading_ok s \<Longrightarrow> loading_ok (issue c k s)"
  by (auto simp: loading_ok_def issue_def)

lemma loading_ok_navigate: "loading_ok s \<Longrightarrow> loading_ok (navigate r s)"
  by (simp add: loading_ok_def navigate_def)

lemma loading_ok_state:
  "loading_ok s \<Longrightarrow> isLoading (f s) = isLoading s \<Longrightarrow> pending (f s) = pending s \<Longrightarrow>
   mounted (f s) = mounted s \<Longrightarrow> loading_ok (set_state f s)"
  by (simp add: loading_ok_def set_state_def)

lemma loading_ok_complete:
  assumes "cont_matches c k" "\<not> loading_call c \<Longrightarrow> loading_ok t"
  shows "loading_ok (complete k r t)"
  using assms
  by (cases c; cases k)
     (auto simp: loading_ok_getData loading_ok_checkLogin loading_ok_clear loading_ok_navigate
                 loading_ok_state)

lemma loading_ok_remove:
  assumes ok: "loading_ok s" and d: "distinct (map fst (pending s))"
    and e: "(i, c, k) \<in> set (pending s)" and nl: "\<not> loading_call c"
  shows "loading_ok (s\<lparr>pending := filter (\<lambda>(j, _, _). j \<noteq> i) (pending s)\<rparr>)"
  unfolding loading_ok_def
proof (clarsimp)
  assume "mounted s" "isLoading s"
  with ok obtain j c' k' where j: "(j, c', k') \<in> set (pending s)" "loading_call c'"
    by (auto simp: loading_ok_def list_ex_iff)
  have "j \<noteq> i"
  proof
    assume "j = i"
    then have "(c', k') = (c, k)"
      using map_of_is_SomeI[OF d j(1)] map_of_is_SomeI[OF d e] by simp
    with j(2) nl show False by simp
  qed
  with j show "list_ex (\<lambda>(_, c, _). loading_call c) (filter (\<lambda>(j, _, _). j \<noteq> i) (pending s))"
    by (auto simp: list_ex_iff)
qed

lemma loading_ok_settle:
  assumes ok: "loading_ok s" and r: "req_ok (next_req s) (pending s)"
  shows "loading_ok (settle i r' s)"
proof (cases "find (\<lambda>(j, _, _). j = i) (pending s)")
  case (Some x)
  then obtain c k where f: "find (\<lambda>(j, _, _). j = i) (pending s) = Some (i, c, k)"
    by (cases x) (auto dest: find_Some_iff[THEN iffD1])
  then have e: "(i, c, k) \<in> set (pending s)"
    by (auto simp: find_Some_iff in_set_conv_nth)
  with r have m: "cont_matches c k" by (auto simp: req_ok_def list_all_iff)
  have "\<not> loading_call c \<Longrightarrow> loading_ok (s\<lparr>pending := filter (\<lambda>(j, _, _). j \<noteq> i) (pending s)\<rparr>)"
    using loading_ok_remove[OF ok _ e] r by (simp add: req_ok_def)
  then show ?thesis
    using f m by (simp add: settle_def loading_ok_complete)
qed (simp add: settle_def ok)

lemma loading_ok_session [simp]:
  "loading_ok (s\<lparr>auth_header := h\<rparr>) = loading_ok s"
  "loading_ok (s\<lparr>cookies := j\<rparr>) = loading_ok s"
  by (simp_all add: loading_ok_def)

lemma loading_ok_mount: "loading_ok (page_mount jar)"
  by (simp add: page_mount_def Let_def loading_ok_checkLogin loading_ok_navigate)
     (simp add: loading_ok_def page_init_def toast_def navigate_def)

lemma loading_ok_step:
  assumes ok: "loading_ok s" and inv: "page_inv s" and en: "page_enabled s e"
  shows "loading_ok (page_step e s)"
proof (cases e)
  case (DraftEdit a)
  with ok show ?thesis
    by (auto simp: loading_ok_def update_draft_def set_state_def split: sum.splits)
next
  case (Complete i r)
  with ok inv show ?thesis
    by (simp add: loading_ok_settle page_inv_def)
next
  case LogoutButton
  with ok show ?thesis
    by (simp add: handleLogout_def loading_ok_navigate loading_ok_issue)
next
  case (UploadFile f)
  with ok show ?thesis
    by (simp add: handleUpload_def loading_ok_issue split: option.splits)
qed (use ok in \<open>simp_all add: loading_ok_getData loading_ok_checkLogin loading_ok_state
      openModal_def handleOpenDetail_def handleDelete_def loading_ok_issue handleModalSubmit_def\<close>)

lemma page_reach_loading: "page_reach s \<Longrightarrow> loading_ok s"
proof (induction rule: page_reach.induct)
  case (step s e)
  then show ?case using loading_ok_step page_reach_inv by blast
qed (rule loading_ok_mount)

lemma resp_fits_err [simp]: "resp_fits c RespErr"
  by (cases c) simp_all

subsection \<open>Delete and mount on each branch\<close>

lemma delete_success:
  assumes ids: "req_ok (next_req s) (pending s)"
  shows "let s2 = page_step (Complete (next_req s) RespOk) (page_step (DeleteButton i) s) in
     api_log s2 = api_log s @ [DeleteProduct (get_prop (products s ! i) ''id''), GetAdminProducts (PageNum 1)] \<and>
     toasts s2 = toasts s @ [DeleteOk]"
  using ids by (simp add: handleDelete_def settle_issue req_ok_below) (simp add: page_ops Let_def)

lemma delete_failure:
  assumes ids: "req_ok (next_req s) (pending s)"
  shows "let s2 = page_step (Complete (next_req s) RespErr) (page_step (DeleteButton i) s) in
     route s2 = route s \<and> mounted s2 = mounted s \<and> products s2 = products s \<and>
     pending s2 = pending s \<and> api_log s2 = api_log s @ [DeleteProduct (get_prop (products s ! i) ''id'')] \<and>
     toasts s2 = toasts s @ [DeleteFailed]"
  using ids by (simp add: handleDelete_def settle_issue req_ok_below) (simp add: page_ops Let_def)

lemma mount_no_token:
  assumes ok: "jar_ok jar" and none: "map_of jar ''hexToken'' \<in> {None, Some []}"
  shows "route (page_mount jar) = ''/'' \<and> \<not> mounted (page_mount jar) \<and>
     api_log (page_mount jar) = [] \<and> toasts (page_mount jar) = [NotLoggedIn]"
proof -
  have "cookie_token (cookie_string jar) = []"
    using none by (auto simp: cookie_lookup[OF ok])
  then show ?thesis
    by (simp add: page_mount_def page_init_def toast_def navigate_def)
qed

lemma mount_token:
  assumes ok: "jar_ok jar" and tok: "map_of jar ''hexToken'' = Some t" and ne: "t \<noteq> []"
  shows "let s = page_mount jar; good = page_step (Complete 0 RespOk) s;
     bad = page_step (Complete 0 RespErr) s in
     auth_header s = t \<and> api_log s = [CheckUserLogin] \<and> isLoading s \<and>
     api_log good = [CheckUserLogin, GetAdminProducts (PageNum 1)] \<and> isLoading good \<and>
     mounted good \<and> route bad = ''/'' \<and> \<not> mounted bad \<and> api_log bad = [CheckUserLogin] \<and>
     toasts bad = [CheckFailed]"
proof -
  have tk: "cookie_token (cookie_string jar) = t"
    using tok by (simp add: cookie_lookup[OF ok])
  have s: "page_mount jar = issue CheckUserLogin (AfterCheckLogin True)
             ((page_init jar)\<lparr>auth_header := t, isLoading := True\<rparr>)"
    using ne by (simp add: page_mount_def tk checkLogin_def set_loading_def set_state_def page_init_def)
  have "settle 0 r (page_mount jar) =
          complete (AfterCheckLogin True) r ((page_init jar)\<lparr>auth_header := t, isLoading := True,
                                             api_log := [CheckUserLogin], next_req := 1\<rparr>)" for r
    unfolding s by (simp add: settle_issue page_init_def)
  then show ?thesis
    using s by (simp add: Let_def page_ops navigate_def page_init_def)
qed

subsection \<open>Settling every request\<close>

lemma pending_weight_simps [simp]:
  "pending_weight [] = 0"
  "pending_weight (x # xs) = cont_weight (snd (snd x)) + pending_weight xs"
  "pending_weight (xs @ ys) = pending_weight xs + pending_weight ys"
  by (simp_all add: pending_weight_def split_def)

lemma pending_weight_filter: "pending_weight (filter P xs) \<le> pending_weight xs"
  by (induction xs) auto

lemma pending_ops [simp]:
  "pending (set_loading b s) = pending s"
  "pending (toast m s) = pending s"
  "pending (closeModal s) = pending s"
  "pending (navigate r s) = pending s"
  "pending (getData p s) = pending s @ [(next_req s, GetAdminProducts p, AfterGetData)]"
  by (simp_all add: set_loading_def set_state_def toast_def closeModal_def navigate_def getData_def
      issue_def)

lemma pending_weight_complete:
  "pending_weight (pending (complete k r t)) < pending_weight (pending t) + cont_weight k"
  by (cases k) (simp_all add: set_state_def split: response.split)

lemma settle_next_decreases:
  assumes "pending s \<noteq> []"
  shows "pending_weight (pending (settle_next pol s)) < pending_weight (pending s)"
proof -
  obtain j c k ps where p: "pending s = (j, c, k) # ps"
    using assms by (cases "pending s") auto
  let ?t = "s\<lparr>pending := filter (\<lambda>(i, _, _). i \<noteq> j) ps\<rparr>"
  have "settle_next pol s = complete k (pol c) ?t"
    by (simp add: settle_next_def settle_def p)
  moreover have "pending_weight (pending ?t) \<le> pending_weight ps"
    by (simp add: pending_weight_filter)
  ultimately show ?thesis
    using pending_weight_complete[of k "pol c" ?t] p by simp
qed

lemma quiesce_halts: "\<exists>t. quiesce pol s = Some t \<and> pending t = []"
proof -
  have "\<exists>t. while_option (\<lambda>s. pending s \<noteq> []) (settle_next pol) s = Some t"
    by (rule measure_while_option_Some[where P = "\<lambda>_. True" and f = "\<lambda>s. pending_weight (pending s)"])
       (simp_all add: settle_next_decreases)
  then obtain t where t: "while_option (\<lambda>s. pending s \<noteq> []) (settle_next pol) s = Some t" ..
  then show ?thesis
    using while_option_stop[OF t] by (simp add: quiesce_def)
qed

lemma settle_next_reach:
  assumes r: "page_reach s" and fit: "\<forall>c. resp_fits c (pol c)" and ne: "pending s \<noteq> []"
  shows "page_reach (settle_next pol s)"
proof -
  obtain j c k ps where p: "pending s = (j, c, k) # ps"
    using ne by (cases "pending s") auto
  have "page_enabled s (Complete j (pol c))"
    using fit by (simp add: p)
  then have "page_reach (page_step (Complete j (pol c)) s)"
    by (rule page_reach.step[OF r])
  then show ?thesis by (simp add: settle_next_def p)
qed

subsection \<open>Only one dialog at a time\<close>

lemma hidden_stays_hidden:
  assumes inv: "modal_inv m" and nv: "\<not> dialog_visible m" and e: "e \<noteq> RequestOpen"
  shows "\<not> dialog_visible (modal_step e m)"
proof -
  obtain w where w: "widget m = Some w" "is_open m \<Longrightarrow> phase w \<noteq> Hidden"
    "listeners m = [(next_id m - 1, is_open m)]"
    using inv by (auto simp: modal_inv_def split: option.splits)
  with nv have h: "phase w = Hidden" "\<not> is_open m" by (auto simp: dialog_visible_def)
  with w e show ?thesis
    by (cases e) (simp_all add: set_open_def render_def listener_effect_def show_hide_effect_def
        dialog_visible_def on_hidden_def bs_simps)
qed

lemma complete_dialogs:
  "mounted (complete k r t) \<Longrightarrow> detailModal (complete k r t) = detailModal t \<and>
     (productModal (complete k r t) = productModal t \<or>
      productModal (complete k r t) = modal_step RequestClose (productModal t))"
  by (cases k) (auto simp: page_ops closeModal_def navigate_def split: response.splits if_splits)

lemma mounted_complete: "mounted (complete k r t) \<Longrightarrow> mounted t"
  by (cases k) (auto simp: page_ops closeModal_def navigate_def split: response.splits if_splits)

lemma mounted_step: "mounted (page_step e s) \<Longrightarrow> mounted s"
  by (cases e) (auto simp: page_ops handleLogout_def handleDelete_def handleUpload_def openModal_def
      handleModalSubmit_def handleOpenDetail_def update_draft_def navigate_def settle_def
      dest: mounted_complete split: option.splits sum.splits if_splits)

lemma modals_frame:
  assumes "\<forall>i. e \<notin> {CreateButton, EditButton i, DetailButton i}"
    and "\<forall>x. e \<notin> {ProductDialog x, DetailDialog x}" and "\<forall>i r. e \<noteq> Complete i r"
    and "mounted (page_step e s)"
  shows "productModal (page_step e s) = productModal s \<and> detailModal (page_step e s) = detailModal s"
  using assms
  by (cases e) (auto simp: page_ops handleLogout_def handleDelete_def handleUpload_def
      handleModalSubmit_def update_draft_def navigate_def split: option.splits sum.splits if_splits)

lemma dialogs_exclusive_step:
  assumes inv: "page_inv s" and en: "page_enabled s e"
    and ex: "mounted s \<longrightarrow> \<not> (dialog_visible (productModal s) \<and> dialog_visible (detailModal s))"
    and m': "mounted (page_step e s)"
  shows "\<not> (dialog_visible (productModal (page_step e s)) \<and> dialog_visible (detailModal (page_step e s)))"
proof -
  have m: "mounted s" using m' by (rule mounted_step)
  with inv have mi: "modal_inv (productModal s)" "modal_inv (detailModal s)"
    by (simp_all add: page_inv_def modal_reach_inv)
  show ?thesis
  proof (cases e)
    case (ProductDialog x)
    with en have "x \<noteq> RequestOpen" by auto
    then show ?thesis
      using ProductDialog m ex hidden_stays_hidden[OF mi(1)] by (auto simp: set_state_def)
  next
    case (DetailDialog x)
    with en have "x \<noteq> RequestOpen" by auto
    then show ?thesis
      using DetailDialog m ex hidden_stays_hidden[OF mi(2)] by (auto simp: set_state_def detail_modal_step_def)
  next
    case (Complete i r)
    show ?thesis
    proof (cases "find (\<lambda>(j, _, _). j = i) (pending s)")
      case None
      then show ?thesis using Complete m ex by (simp add: settle_def)
    next
      case (Some a)
      then obtain j c k where a: "a = (j, c, k)" by (cases a) auto
      let ?t = "s\<lparr>pending := filter (\<lambda>(j, _, _). j \<noteq> i) (pending s)\<rparr>"
      have st: "page_step e s = complete k r ?t" using Complete Some a by (simp add: settle_def)
      then have "detailModal (page_step e s) = detailModal s \<and>
        (productModal (page_step e s) = productModal s \<or>
         productModal (page_step e s) = modal_step RequestClose (productModal s))"
        using complete_dialogs[of k r ?t] m' by simp
      moreover have "\<not> dialog_visible (productModal s) \<Longrightarrow>
          \<not> dialog_visible (modal_step RequestClose (productModal s))"
        by (rule hidden_stays_hidden[OF mi(1)]) simp_all
      ultimately show ?thesis using m ex by auto
    qed
  qed (use en m ex modals_frame[of e s] m' in \<open>auto simp: page_idle_def openModal_def handleOpenDetail_def
         set_state_def\<close>)
qed

lemma dialogs_exclusive_mount:
  "mounted (page_mount jar) \<Longrightarrow>
   \<not> (dialog_visible (productModal (page_mount jar)) \<and> dialog_visible (detailModal (page_mount jar)))"
  by (auto simp: page_mount_def Let_def navigate_def page_ops page_init_def modal_init_def
      dialog_visible_def bs_simps)

subsection \<open>Claims\<close>

text \<open>C24: In every state the page can reach, no state updater has thrown,
  the draft is well-formed, and every create or update request has sent a
  well-formed draft.\<close>

theorem page_reach_safe:
  "page_reach s \<Longrightarrow> \<not> crashed s \<and> wf_draft (tempProduct s) \<and> list_all payload_ok (api_log s)"
  by (drule page_reach_inv) (simp add: page_inv_def)

lemma page_reach_safe_witness:
  "list_all payload_ok (api_log (page_run (page_mount [(''hexToken'', ''abc'')])
     [Complete 0 RespOk, CreateButton, SubmitButton]))"
  using page_reach_safe[OF page_reach_run[OF page_reach.mount[of "[(''hexToken'', ''abc'')]"]],
      of "[Complete 0 RespOk, CreateButton, SubmitButton]"]
  by (simp add: jar_ok_def cookie_ok_def is_js_ws_def)

text \<open>C25: The two dialogs never cover the page together: in every reachable
  state of the mounted page at most one of ProductModal and DetailModal is on
  screen, as each is opened only from the idle list and every other event,
  including a settling request's \<open>closeModal()\<close>, only keeps or hides them.\<close>

theorem page_dialogs_exclusive:
  assumes r: "page_reach s" and m: "mounted s"
  shows "\<not> (dialog_visible (productModal s) \<and> dialog_visible (detailModal s))"
proof -
  have "mounted s \<longrightarrow> \<not> (dialog_visible (productModal s) \<and> dialog_visible (detailModal s))"
    using r
  proof (induction rule: page_reach.induct)
    case (mount jar)
    then show ?case using dialogs_exclusive_mount by blast
  next
    case (step s e)
    then show ?case using dialogs_exclusive_step[OF page_reach_inv[OF step.hyps(1)] step.hyps(2)] by blast
  qed
  with m show ?thesis by blast
qed

lemma page_dialogs_exclusive_witness:
  "\<not> dialog_visible (detailModal (page_run (page_mount [(''hexToken'', ''abc'')])
     [Complete 0 RespOk, CreateButton]))"
proof -
  let ?s = "page_run (page_mount [(''hexToken'', ''abc'')]) [Complete 0 RespOk, CreateButton]"
  have r: "page_reach ?s"
    by (rule page_reach_run[OF page_reach.mount]) (simp add: jar_ok_def cookie_ok_def is_js_ws_def)
  have "mounted ?s \<and> dialog_visible (productModal ?s)"
    using cookie_lookup[of "[(''hexToken'', ''abc'')]"]
    by (simp add: jar_ok_def cookie_ok_def is_js_ws_def page_mount_def page_init_def page_ops
        settle_def page_idle_def dialog_visible_def modal_init_def bs_simps openModal_def
        set_open_def render_def show_hide_effect_def listener_effect_def)
  then show ?thesis using page_dialogs_exclusive[OF r] by blast
qed

text \<open>C26: Submitting the dialog on both outcomes.  A successful create submits
  the draft as it stands, then closes the dialog, keeps the draft, and reloads
  page 1 of the list; the \<open>finally\<close> of the submit clears the loading flag
  although the reload is still pending.  A failed create or update leaves the
  dialog, the draft, the route and the list as they were and reports the
  failure.\<close>

theorem submit_outcomes:
  assumes m: "mounted s" and ids: "req_ok (next_req s) (pending s)"
  shows "(modalMode s = Some ModeCreate \<longrightarrow>
      (let s2 = page_step (Complete (next_req s) RespOk) (page_step SubmitButton s) in
       api_log s2 = api_log s @ [AddProduct (tempProduct s), GetAdminProducts (PageNum 1)] \<and>
       pending s2 = pending s @ [(Suc (next_req s), GetAdminProducts (PageNum 1), AfterGetData)] \<and>
       \<not> is_open (productModal s2) \<and> tempProduct s2 = tempProduct s \<and>
       toasts s2 = toasts s @ [AddOk] \<and> \<not> isLoading s2)) \<and>
    (let s2 = page_step (Complete (next_req s) RespErr) (page_step SubmitButton s) in
     productModal s2 = productModal s \<and> tempProduct s2 = tempProduct s \<and>
     products s2 = products s \<and> route s2 = route s \<and> mounted s2 = mounted s \<and>
     pending s2 = pending s \<and> length (api_log s2) = Suc (length (api_log s)) \<and>
     toasts s2 = toasts s @ [SubmitFailed])"
proof
  show "modalMode s = Some ModeCreate \<longrightarrow>
      (let s2 = page_step (Complete (next_req s) RespOk) (page_step SubmitButton s) in
       api_log s2 = api_log s @ [AddProduct (tempProduct s), GetAdminProducts (PageNum 1)] \<and>
       pending s2 = pending s @ [(Suc (next_req s), GetAdminProducts (PageNum 1), AfterGetData)] \<and>
       \<not> is_open (productModal s2) \<and> tempProduct s2 = tempProduct s \<and>
       toasts s2 = toasts s @ [AddOk] \<and> \<not> isLoading s2)"
  proof
    assume mode: "modalMode s = Some ModeCreate"
    have "page_step (Complete (next_req s) RespOk) (page_step SubmitButton s) =
          complete AfterAdd RespOk (s\<lparr>api_log := api_log s @ [AddProduct (tempProduct s)],
                                       next_req := Suc (next_req s)\<rparr>)"
      using mode ids by (simp add: handleModalSubmit_def settle_issue req_ok_below)
    then show "let s2 = page_step (Complete (next_req s) RespOk) (page_step SubmitButton s) in
       api_log s2 = api_log s @ [AddProduct (tempProduct s), GetAdminProducts (PageNum 1)] \<and>
       pending s2 = pending s @ [(Suc (next_req s), GetAdminProducts (PageNum 1), AfterGetData)] \<and>
       \<not> is_open (productModal s2) \<and> tempProduct s2 = tempProduct s \<and>
       toasts s2 = toasts s @ [AddOk] \<and> \<not> isLoading s2"
      using m by (simp add: page_ops Let_def)
  qed
next
  show "let s2 = page_step (Complete (next_req s) RespErr) (page_step SubmitButton s) in
     productModal s2 = productModal s \<and> tempProduct s2 = tempProduct s \<and>
     products s2 = products s \<and> route s2 = route s \<and> mounted s2 = mounted s \<and>
     pending s2 = pending s \<and> length (api_log s2) = Suc (length (api_log s)) \<and>
     toasts s2 = toasts s @ [SubmitFailed]"
    using ids
    by (simp add: handleModalSubmit_def settle_issue req_ok_below) (simp add: page_ops Let_def)
qed

lemma submit_outcomes_witness:
  "\<not> is_open (productModal (page_step (Complete 0 RespOk)
      (page_step SubmitButton ((page_init [])\<lparr>modalMode := Some ModeCreate\<rparr>)))) \<and>
   tempProduct (page_step (Complete 0 RespErr)
      (page_step SubmitButton ((page_init [])\<lparr>modalMode := Some ModeCreate\<rparr>))) = addNewProduct"
  using submit_outcomes[of "(page_init [])\<lparr>modalMode := Some ModeCreate\<rparr>"]
  by (simp add: page_init_def req_ok_def Let_def)

text \<open>C28: Nothing stops a second submit while the first create is in flight:
  the submit button stays available and two create requests with the same draft
  go out.\<close>

theorem double_submit_two_creates:
  assumes en: "page_enabled s SubmitButton" and mode: "modalMode s = Some ModeCreate"
  shows "page_enabled (page_step SubmitButton s) SubmitButton \<and>
     api_log (page_step SubmitButton (page_step SubmitButton s)) =
       api_log s @ [AddProduct (tempProduct s), AddProduct (tempProduct s)]"
  using en mode by (simp add: handleModalSubmit_def issue_def dialog_visible_def)

lemma double_submit_two_creates_witness:
  "api_log (page_step SubmitButton (page_step SubmitButton
     ((page_init [])\<lparr>modalMode := Some ModeCreate, productModal := modal_step RequestOpen modal_init\<rparr>)))
   = [AddProduct addNewProduct, AddProduct addNewProduct]"
  using double_submit_two_creates[of
      "(page_init [])\<lparr>modalMode := Some ModeCreate, productModal := modal_step RequestOpen modal_init\<rparr>"]
  by (simp add: page_init_def dialog_visible_def modal_init_def bs_simps set_open_def render_def
                show_hide_effect_def listener_effect_def)

text \<open>C29: Two list requests in flight (two page changes): when the later one
  settles first, the loading flag is cleared while the earlier is still pending,
  and when the earlier settles last its products and pagination replace the
  later ones.  The page shows the page it asked for first.\<close>

theorem stale_list_overwrites:
  assumes m: "mounted s" and ids: "req_ok (next_req s) (pending s)"
  shows "let n = next_req s;
     s3 = page_step (Complete (Suc n) (RespList new pn))
            (page_step (ChangePage b) (page_step (ChangePage a) s));
     s4 = page_step (Complete n (RespList old po)) s3 in
     \<not> isLoading s3 \<and> (n, GetAdminProducts (PageNum a), AfterGetData) \<in> set (pending s3) \<and>
     products s3 = new \<and> products s4 = old \<and> pagination s4 = Some po \<and> mounted s4"
proof -
  define n where "n = next_req s"
  define s2 where "s2 = page_step (ChangePage b) (page_step (ChangePage a) s)"
  define s3 where "s3 = page_step (Complete (Suc n) (RespList new pn)) s2"
  define s4 where "s4 = page_step (Complete n (RespList old po)) s3"
  have below: "list_all (\<lambda>(j, _, _). j < n) (pending s)"
    using ids by (simp add: req_ok_below n_def)
  then have below': "list_all (\<lambda>(j, _, _). j < Suc n) (pending s @ [(n, GetAdminProducts (PageNum a), AfterGetData)])"
    by (auto simp: list_all_iff)
  have p2: "pending s2 = (pending s @ [(n, GetAdminProducts (PageNum a), AfterGetData)]) @
                          [(Suc n, GetAdminProducts (PageNum b), AfterGetData)]"
    by (simp add: s2_def n_def getData_def issue_def set_loading_def set_state_def)
  have s3: "s3 = complete AfterGetData (RespList new pn)
                   (s2\<lparr>pending := pending s @ [(n, GetAdminProducts (PageNum a), AfterGetData)]\<rparr>)"
    unfolding s3_def using settle_last[OF below' p2] by simp
  have m2: "mounted s2" using m by (simp add: s2_def getData_def issue_def set_loading_def set_state_def)
  have p3: "pending s3 = pending s @ [(n, GetAdminProducts (PageNum a), AfterGetData)]"
    using m2 by (simp add: s3 set_loading_def set_state_def)
  have s4: "s4 = complete AfterGetData (RespList old po) (s3\<lparr>pending := pending s\<rparr>)"
    unfolding s4_def using settle_last[OF below p3] by simp
  have "\<not> isLoading s3 \<and> (n, GetAdminProducts (PageNum a), AfterGetData) \<in> set (pending s3) \<and>
     products s3 = new \<and> products s4 = old \<and> pagination s4 = Some po \<and> mounted s4"
    using m2 p3 by (simp add: s4 s3 set_loading_def set_state_def)
  then show ?thesis
    by (simp add: Let_def n_def s2_def s3_def s4_def)
qed

lemma stale_list_overwrites_witness:
  "products (page_step (Complete 0 (RespList [] \<lparr>current_page = 1, total_pages = 2, has_pre = False, has_next = True\<rparr>))
     (page_step (Complete 1 (RespList [addNewProduct] \<lparr>current_page = 2, total_pages = 2, has_pre = True, has_next = False\<rparr>))
       (page_step (ChangePage 2) (page_step (ChangePage 1) (page_init []))))) = []"
  using stale_list_overwrites[of "page_init []" "[addNewProduct]"
      "\<lparr>current_page = 2, total_pages = 2, has_pre = True, has_next = False\<rparr>" 2 1 "[]"
      "\<lparr>current_page = 1, total_pages = 2, has_pre = False, has_next = True\<rparr>"]
  by (simp add: page_init_def req_ok_def Let_def)

lemma find_distinct_key:
  "distinct (map fst ps) \<Longrightarrow> (i, x, y) \<in> set ps \<Longrightarrow> find (\<lambda>(j, _, _). j = i) ps = Some (i, x, y)"
  by (induction ps) (auto simp: rev_image_eqI)

lemma complete_log:
  "api_log (complete k r t) =
     api_log t @ (if r \<noteq> RespErr \<and> k \<in> {AfterDelete, AfterAdd, AfterUpdate, AfterCheckLogin True}
                  then [GetAdminProducts (PageNum 1)] else [])"
  by (cases k) (auto simp: page_ops closeModal_def navigate_def split: response.splits)

text \<open>C30: An upload that settles after the user closed the dialog and opened
  another product for editing writes its URL into that other product's draft.\<close>

theorem upload_lands_in_other_draft:
  assumes m: "mounted s" and ids: "req_ok (next_req s) (pending s)"
    and sz: "sz \<le> upload_limit"
  shows "tempProduct
     (page_step (Complete (next_req s) (RespUrl u))
       (page_step (EditButton i)
         (page_step (ProductDialog TransitionEnd)
           (page_step (ProductDialog CloseButton)
             (page_step (UploadFile (Some sz)) s))))) = (products s ! i)(''imageUrl'' \<mapsto> u)"
proof -
  define t where "t = page_step (EditButton i) (page_step (ProductDialog TransitionEnd)
           (page_step (ProductDialog CloseButton) (page_step (UploadFile (Some sz)) s)))"
  have t: "pending t = pending s @ [(next_req s, UploadImage sz, AfterUpload)] \<and> mounted t \<and>
           tempProduct t = products s ! i"
    using m sz by (simp add: t_def handleUpload_def issue_def set_state_def openModal_def)
  then have "settle (next_req s) (RespUrl u) t = complete AfterUpload (RespUrl u) (t\<lparr>pending := pending s\<rparr>)"
    using settle_last[OF req_ok_below[OF ids], of t] by simp
  then have "tempProduct (page_step (Complete (next_req s) (RespUrl u)) t) = (products s ! i)(''imageUrl'' \<mapsto> u)"
    using t by (simp add: page_ops upload_url_def set_uploaded_image_def)
  then show ?thesis
    by (simp only: t_def)
qed

lemma upload_lands_in_other_draft_witness:
  "tempProduct
     (page_step (Complete 0 (RespUrl (JStr ''a.png'')))
       (page_step (EditButton 0)
         (page_step (ProductDialog TransitionEnd)
           (page_step (ProductDialog CloseButton)
             (page_step (UploadFile (Some 1000)) ((page_init [])\<lparr>products := [Map.empty]\<rparr>))))))
   = [''imageUrl'' \<mapsto> JStr ''a.png'']"
  using upload_lands_in_other_draft[of "(page_init [])\<lparr>products := [Map.empty]\<rparr>" 1000 "JStr ''a.png''" 0]
  by (simp add: page_init_def req_ok_def upload_limit_def)

text \<open>C31: \<open>handleDelete\<close> on both outcomes.  After a successful delete the
  list is reloaded at page 1, whatever page the user was on; a failed delete
  reports the failure and changes nothing else: no reload and no redirect.\<close>

theorem delete_outcomes:
  assumes ids: "req_ok (next_req s) (pending s)"
  shows "let ok = page_step (Complete (next_req s) RespOk) (page_step (DeleteButton i) s);
     bad = page_step (Complete (next_req s) RespErr) (page_step (DeleteButton i) s) in
     api_log ok = api_log s @ [DeleteProduct (get_prop (products s ! i) ''id''), GetAdminProducts (PageNum 1)] \<and>
     toasts ok = toasts s @ [DeleteOk] \<and>
     route bad = route s \<and> mounted bad = mounted s \<and> products bad = products s \<and>
     pending bad = pending s \<and> api_log bad = api_log s @ [DeleteProduct (get_prop (products s ! i) ''id'')] \<and>
     toasts bad = toasts s @ [DeleteFailed]"
  using delete_success[OF ids, of i] delete_failure[OF ids, of i] by (simp add: Let_def)

lemma delete_outcomes_witness:
  "api_log (page_step (Complete 0 RespOk) (page_step (DeleteButton 0)
     ((page_init [])\<lparr>products := [[''id'' \<mapsto> JStr ''p7'']],
        pagination := Some \<lparr>current_page = 3, total_pages = 3, has_pre = True, has_next = False\<rparr>\<rparr>)))
   = [DeleteProduct (JStr ''p7''), GetAdminProducts (PageNum 1)] \<and>
   route (page_step (Complete 0 RespErr) (page_step (DeleteButton 0)
     ((page_init [])\<lparr>products := [[''id'' \<mapsto> JStr ''p7'']],
        pagination := Some \<lparr>current_page = 3, total_pages = 3, has_pre = True, has_next = False\<rparr>\<rparr>)))
   = ''/products''"
  using delete_outcomes[of "(page_init [])\<lparr>products := [[''id'' \<mapsto> JStr ''p7'']],
        pagination := Some \<lparr>current_page = 3, total_pages = 3, has_pre = True, has_next = False\<rparr>\<rparr>" 0]
  by (simp add: page_init_def req_ok_def Let_def get_prop_def)

text \<open>C33: The mount effect on both branches.  Without a \<open>hexToken\<close> cookie, or
  with an empty one, it reports that the user is not logged in and leaves for the
  login page without calling the API; with a token it sets it as the
  \<open>Authorization\<close> header and checks the session, and a successful check loads
  page 1 of the list while a failed one leaves for the login page.\<close>

theorem mount_effect:
  assumes ok: "jar_ok jar"
  shows "let s = page_mount jar; t = (case map_of jar ''hexToken'' of Some t \<Rightarrow> t | None \<Rightarrow> []);
     good = page_step (Complete 0 RespOk) s; bad = page_step (Complete 0 RespErr) s in
     (t = [] \<longrightarrow> route s = ''/'' \<and> \<not> mounted s \<and> api_log s = [] \<and> toasts s = [NotLoggedIn]) \<and>
     (t \<noteq> [] \<longrightarrow> auth_header s = t \<and> api_log s = [CheckUserLogin] \<and> isLoading s \<and>
        api_log good = [CheckUserLogin, GetAdminProducts (PageNum 1)] \<and> isLoading good \<and>
        mounted good \<and> route bad = ''/'' \<and> \<not> mounted bad \<and> api_log bad = [CheckUserLogin] \<and>
        toasts bad = [CheckFailed])"
proof (cases "map_of jar ''hexToken''")
  case None
  then show ?thesis using mount_no_token[OF ok] by (simp add: Let_def)
next
  case (Some t)
  then show ?thesis
    using mount_no_token[OF ok] mount_token[OF ok Some] by (cases "t = []") (simp_all add: Let_def)
qed

lemma mount_effect_witness:
  "api_log (page_step (Complete 0 RespOk) (page_mount [(''lang'', ''zh''), (''hexToken'', ''abc'')]))
   = [CheckUserLogin, GetAdminProducts (PageNum 1)]"
  using mount_effect[of "[(''lang'', ''zh''), (''hexToken'', ''abc'')]"]
  by (simp add: jar_ok_def cookie_ok_def is_js_ws_def Let_def)

text \<open>C35: Logout expires the cookie so that no token can be read from it any
  more, clears the header, leaves the page and fires the logout request without
  waiting for it.\<close>

theorem logout_leaves:
  assumes ok: "jar_ok (cookies s)"
  shows "let s2 = page_step LogoutButton s in
     cookie_token (cookie_string (cookies s2)) = [] \<and> auth_header s2 = [] \<and>
     route s2 = ''/'' \<and> \<not> mounted s2 \<and> api_log s2 = api_log s @ [AdminLogout] \<and>
     (next_req s, AdminLogout, AfterLogout) \<in> set (pending s2) \<and> toasts s2 = toasts s @ [LogoutOk]"
  using cookie_lookup[OF expire_token_ok[OF ok]]
  by (simp add: Let_def handleLogout_def navigate_def toast_def issue_def expire_token_none)

lemma logout_leaves_witness:
  "route (page_step LogoutButton (page_init [(''hexToken'', ''abc'')])) = ''/''"
  using logout_leaves[of "page_init [(''hexToken'', ''abc'')]"]
  by (simp add: page_init_def jar_ok_def cookie_ok_def is_js_ws_def Let_def)

text \<open>C36: Which settlements send a new request: exactly a successful delete,
  create, update or mount-time session check reloads page 1 of the list, every
  other settlement sends nothing.  No continuation checks whether the page is
  still mounted, so the reload is sent also after the page was left, and the
  page stays unmounted.\<close>

theorem settle_reload_requests:
  assumes ids: "req_ok (next_req s) (pending s)" and ik: "(i, c, k) \<in> set (pending s)"
  shows "let s2 = page_step (Complete i r) s in
     api_log s2 = api_log s @
       (if r \<noteq> RespErr \<and> k \<in> {AfterDelete, AfterAdd, AfterUpdate, AfterCheckLogin True}
        then [GetAdminProducts (PageNum 1)] else []) \<and>
     (\<not> mounted s \<longrightarrow> \<not> mounted s2)"
proof -
  have "distinct (map fst (pending s))" using ids by (simp add: req_ok_def)
  then have "find (\<lambda>(j, _, _). j = i) (pending s) = Some (i, c, k)"
    using ik by (rule find_distinct_key)
  then show ?thesis
    using mounted_complete[of k r "s\<lparr>pending := filter (\<lambda>(j, _, _). j \<noteq> i) (pending s)\<rparr>"]
    by (auto simp: Let_def settle_def complete_log)
qed

lemma settle_reload_requests_witness:
  "let s = page_step LogoutButton (handleDelete (JNum (Fin 1)) (page_init [])) in
   api_log (page_step (Complete 0 RespOk) s) =
     [DeleteProduct (JNum (Fin 1)), AdminLogout, GetAdminProducts (PageNum 1)] \<and>
   \<not> mounted (page_step (Complete 0 RespOk) s)"
proof -
  let ?s = "page_step LogoutButton (handleDelete (JNum (Fin 1)) (page_init []))"
  have "req_ok (next_req ?s) (pending ?s) \<and> (0, DeleteProduct (JNum (Fin 1)), AfterDelete) \<in> set (pending ?s)
        \<and> \<not> mounted ?s \<and> api_log ?s = [DeleteProduct (JNum (Fin 1)), AdminLogout]"
    by (simp add: page_init_def handleLogout_def handleDelete_def navigate_def page_ops req_ok_def)
  then show ?thesis
    using settle_reload_requests[of ?s 0 "DeleteProduct (JNum (Fin 1))" AfterDelete RespOk]
    by (simp add: Let_def)
qed

text \<open>C37: The upload size check: a file of at most 3 MiB is sent, a larger one
  is refused locally with a message and no request.\<close>

theorem upload_size_guard:
  "api_log (page_step (UploadFile (Some sz)) s) =
     (if sz \<le> 3145728 then api_log s @ [UploadImage sz] else api_log s) \<and>
   toasts (page_step (UploadFile (Some sz)) s) =
     (if sz \<le> 3145728 then toasts s else toasts s @ [FileTooLarge])"
  by (simp add: handleUpload_def upload_limit_def issue_def toast_def)

text \<open>C38: A list response replaces the products and the pagination wholesale
  and clears the loading flag; a failed list request leaves them unchanged,
  reports the failure and leaves for the login page.\<close>

theorem fetch_replaces_or_leaves:
  assumes m: "mounted s" and ids: "req_ok (next_req s) (pending s)"
  shows "let s1 = page_step (ChangePage p) s;
     good = page_step (Complete (next_req s) (RespList ps pg)) s1;
     bad = page_step (Complete (next_req s) RespErr) s1 in
     isLoading s1 \<and> api_log s1 = api_log s @ [GetAdminProducts (PageNum p)] \<and>
     products good = ps \<and> pagination good = Some pg \<and> \<not> isLoading good \<and> mounted good \<and>
     products bad = products s \<and> pagination bad = pagination s \<and> route bad = ''/'' \<and>
     \<not> mounted bad \<and> toasts bad = toasts s @ [FetchFailed]"
  using m ids
  by (simp add: getData_def settle_issue req_ok_below set_loading_def set_state_def)
     (simp add: Let_def page_ops navigate_def)

lemma fetch_replaces_or_leaves_witness:
  "products (page_step (Complete 0 (RespList [addNewProduct] \<lparr>current_page = 2, total_pages = 2,
      has_pre = True, has_next = False\<rparr>)) (page_step (ChangePage 2) (page_init []))) = [addNewProduct]"
  using fetch_replaces_or_leaves[of "page_init []" 2 "[addNewProduct]"
      "\<lparr>current_page = 2, total_pages = 2, has_pre = True, has_next = False\<rparr>"]
  by (simp add: Let_def page_init_def req_ok_def)

text \<open>C40: Settling the requests terminates.  Every continuation starts at most
  one request, and only a list request whose own continuation starts none, so
  whatever the server answers within its contract, the requests in flight settle
  after finitely many steps (\<open>quiesce\<close> returns); nothing is pending then, and
  from a reachable state the loading indicator is off.\<close>

theorem settlement_terminates:
  assumes r: "page_reach s" and fit: "\<forall>c. resp_fits c (pol c)"
  shows "\<exists>t. quiesce pol s = Some t \<and> pending t = [] \<and> \<not> (mounted t \<and> isLoading t)"
proof -
  obtain t where t: "quiesce pol s = Some t" "pending t = []"
    using quiesce_halts by blast
  have "page_reach t"
    using while_option_rule[where P = page_reach, OF _ t(1)[unfolded quiesce_def] r]
      settle_next_reach[OF _ fit] by blast
  then have "loading_ok t" by (rule page_reach_loading)
  with t show ?thesis by (auto simp: loading_ok_def)
qed

lemma settlement_terminates_witness:
  "\<exists>t. quiesce (\<lambda>_. RespErr) (page_mount [(''hexToken'', ''abc'')]) = Some t \<and> pending t = [] \<and>
       \<not> (mounted t \<and> isLoading t)"
  using settlement_terminates[OF page_reach.mount[of "[(''hexToken'', ''abc'')]"], of "\<lambda>_. RespErr"]
  by (simp add: jar_ok_def cookie_ok_def is_js_ws_def)

end
