(* ===== verification/DraftSpec.thy ===== *)
theory DraftSpec
  imports Draft
begin

text \<open>The DraftStore contract of the spec (section 4.1) as an abstract machine,
  and its refinement by the handlers of ProductPage.jsx.  The abstract draft
  keeps the image list apart as a list of strings; its operations are
  \<open>setField\<close> with the spec's coercion policy, \<open>setImageAt\<close> (a no-op out of
  range, the release behaviour the spec allows), \<open>appendImage\<close> with its guard,
  \<open>removeLastImage\<close> and \<open>reset\<close>.  The refinement lemma says that every edit the
  dialog offers on a well-formed draft is, seen through the abstraction, the
  corresponding contract operation.\<close>

section \<open>The contract\<close>

record adraft =
  afields :: jsobj
  aimages :: "string list"

datatype input_kind = BooleanToggle | OtherKind

datatype spec_op =
    SetField string string input_kind bool
  | SetImageAt nat string
  | AppendImage
  | RemoveLastImage
  | Reset adraft

text \<open>The coercion policy of \<open>setField\<close>: prices parsed as numbers (by
  StringToNumber, as the spec leaves the parse open), \<open>is_enabled\<close> coerced to
  0 or 1 by truthiness of the number, a boolean toggle to 1 or 0, any other
  value verbatim.\<close>

definition spec_coerce :: "string \<Rightarrow> string \<Rightarrow> input_kind \<Rightarrow> bool \<Rightarrow> jsval" where
  "spec_coerce name raw kind checked =
     (if name \<in> {''price'', ''origin_price''} then JNum (to_number raw)
      else if name = ''is_enabled'' then JNum (Fin (if to_number raw \<in> {Fin 0, NaN} then 0 else 1))
      else if kind = BooleanToggle then JNum (Fin (if checked then 1 else 0))
      else JStr raw)"

fun spec_apply :: "spec_op \<Rightarrow> adraft \<Rightarrow> adraft" where
  "spec_apply (SetField n raw k c) d = d\<lparr>afields := (afields d)(n \<mapsto> spec_coerce n raw k c)\<rparr>"
| "spec_apply (SetImageAt i v) d =
     (if i < length (aimages d) then d\<lparr>aimages := (aimages d)[i := v]\<rparr> else d)"
| "spec_apply AppendImage d =
     (if length (aimages d) < 5 \<and> (aimages d = [] \<or> last (aimages d) \<noteq> [])
      then d\<lparr>aimages := aimages d @ [[]]\<rparr> else d)"
| "spec_apply RemoveLastImage d = d\<lparr>aimages := butlast (aimages d)\<rparr>"
| "spec_apply (Reset t) d = t"

section \<open>Abstraction\<close>

fun js_str :: "jsval \<Rightarrow> string" where
  "js_str (JStr s) = s"
| "js_str _ = []"

definition draft_abs :: "jsobj \<Rightarrow> adraft" where
  "draft_abs p =
     \<lparr>afields = p(''imagesUrl'' := None),
      aimages = (case get_prop p ''imagesUrl'' of JArr xs \<Rightarrow> map js_str xs | _ \<Rightarrow> [])\<rparr>"

text \<open>The contract operation a handler implements.\<close>

fun op_of :: "draft_action \<Rightarrow> spec_op" where
  "op_of (InputChange t) =
     SetField (target_name t) (target_value t)
       (if target_type t = ''checkbox'' then BooleanToggle else OtherKind) (target_checked t)"
| "op_of (ImageChange i v) = SetImageAt i v"
| "op_of AddImage = AppendImage"
| "op_of RemoveImage = RemoveLastImage"
| "op_of (ImageUploaded u) = SetField ''imageUrl'' (js_str u) OtherKind False"

text \<open>The actions a user can produce whatever the state: an input event the form
  can emit, and an upload that returned a string.  The image controls may be
  hidden; the page then skips the action.\<close>

fun action_ok :: "draft_action \<Rightarrow> bool" where
  "action_ok (InputChange t) = form_event t"
| "action_ok (ImageUploaded u) = is_str u"
| "action_ok _ = True"

section \<open>Refinement\<close>

lemma map_js_str_last:
  "list_all is_str xs \<Longrightarrow> xs \<noteq> [] \<Longrightarrow> (last xs \<noteq> JStr []) = (last (map js_str xs) \<noteq> [])"
  by (induction xs rule: induct_list012) (auto simp: is_str_def split: jsval.splits)

lemma draft_abs_upd:
  "k \<noteq> ''imagesUrl'' \<Longrightarrow> draft_abs (p(k \<mapsto> v)) = (draft_abs p)\<lparr>afields := (afields (draft_abs p))(k \<mapsto> v)\<rparr>"
  by (simp add: draft_abs_def get_prop_def fun_upd_twist)

lemma draft_abs_images:
  "draft_abs (p(''imagesUrl'' \<mapsto> JArr ys)) = (draft_abs p)\<lparr>aimages := map js_str ys\<rparr>"
  by (simp add: draft_abs_def get_prop_def)

lemma wf_images:
  "wf_draft p \<Longrightarrow> \<exists>xs. get_prop p ''imagesUrl'' = JArr xs \<and> list_all is_str xs \<and> length xs \<le> 5"
  by (auto simp: wf_draft_def split: jsval.splits)

lemma form_event_value:
  "form_event t \<Longrightarrow>
   input_final_value t = spec_coerce (target_name t) (target_value t)
     (if target_type t = ''checkbox'' then BooleanToggle else OtherKind) (target_checked t)"
  by (auto simp: form_event_def form_fields_def input_final_value_def spec_coerce_def
      to_number_1 to_number_0)

lemma form_event_not_images: "form_event t \<Longrightarrow> target_name t \<noteq> ''imagesUrl''"
  by (auto simp: form_event_def form_fields_def)

lemma draft_abs_aimages: "get_prop p ''imagesUrl'' = JArr xs \<Longrightarrow> aimages (draft_abs p) = map js_str xs"
  by (simp add: draft_abs_def)

lemma step_refines:
  assumes wf: "wf_draft p" and en: "ui_enabled p a"
  shows "\<exists>q. draft_step a p = Inr q \<and> draft_abs q = spec_apply (op_of a) (draft_abs p)"
proof -
  obtain xs where xs: "get_prop p ''imagesUrl'' = JArr xs" "list_all is_str xs" "length xs \<le> 5"
    using wf_images[OF wf] by blast
  have ai: "aimages (draft_abs p) = map js_str xs"
    using xs(1) by (rule draft_abs_aimages)
  show ?thesis
  proof (cases a)
    case (InputChange t)
    then show ?thesis
      using en by (simp add: handleModalInputChange_def draft_abs_upd form_event_not_images
                             form_event_value)
  next
    case (ImageChange i v)
    with en xs have "i < length xs" by (simp add: image_input_rendered_def)
    then show ?thesis
      using ImageChange xs(1) ai
      by (simp add: handleImageChange_def js_array_set_def draft_abs_images map_update)
  next
    case AddImage
    with en xs have g: "length xs < 5 \<and> (xs = [] \<or> last xs \<noteq> JStr [])"
      by (simp add: add_image_visible_def)
    then have "length (map js_str xs) < 5 \<and> (map js_str xs = [] \<or> last (map js_str xs) \<noteq> [])"
      using map_js_str_last[OF xs(2)] by auto
    then show ?thesis
      using AddImage xs(1) ai by (simp add: handleAddImage_def draft_abs_images)
  next
    case RemoveImage
    then show ?thesis
      using xs(1) ai by (simp add: handleRemoveImage_def draft_abs_images map_butlast)
  next
    case (ImageUploaded u)
    with en obtain s where "u = JStr s" by (auto split: jsval.splits)
    then show ?thesis
      using ImageUploaded by (simp add: set_uploaded_image_def draft_abs_upd spec_coerce_def)
  qed
qed



lemma disabled_noop:
  assumes wf: "wf_draft p" and ok: "action_ok a" and dis: "\<not> ui_enabled p a"
  shows "spec_apply (op_of a) (draft_abs p) = draft_abs p"
proof -
  obtain xs where xs: "get_prop p ''imagesUrl'' = JArr xs" "list_all is_str xs" "length xs \<le> 5"
    using wf_images[OF wf] by blast
  have ai: "aimages (draft_abs p) = map js_str xs"
    using xs(1) by (rule draft_abs_aimages)
  show ?thesis
  proof (cases a)
    case AddImage
    with dis xs have "\<not> (length xs < 5 \<and> (xs = [] \<or> last xs \<noteq> JStr []))"
      by (simp add: add_image_visible_def)
    then have "\<not> (length (map js_str xs) < 5 \<and> (map js_str xs = [] \<or> last (map js_str xs) \<noteq> []))"
      using map_js_str_last[OF xs(2)] by auto
    then show ?thesis using AddImage ai by simp
  qed (use ok dis xs ai in \<open>auto simp: image_input_rendered_def remove_image_visible_def
         is_str_def split: jsval.splits\<close>)
qed

subsection \<open>Claims\<close>

text \<open>C39: A session of edits refines the contract: on a well-formed draft, a
  sequence of form inputs, image edits, additions, removals and string uploads
  runs without error, and its result, seen through the abstraction, is the
  contract operations applied in order.  An action whose control the dialog does
  not show is skipped by the page and is a no-op of the contract alike.\<close>

theorem ui_run_refines_contract:
  "wf_draft p \<Longrightarrow> list_all action_ok as \<Longrightarrow>
   \<exists>q. ui_run p as = Inr q \<and> draft_abs q = fold spec_apply (map op_of as) (draft_abs p)"
proof (induction as arbitrary: p)
  case (Cons a as)
  show ?case
  proof (cases "ui_enabled p a")
    case True
    obtain q where q: "draft_step a p = Inr q" "draft_abs q = spec_apply (op_of a) (draft_abs p)"
      using step_refines[OF Cons.prems(1) True] by blast
    have "wf_draft q" using wf_draft_step[OF Cons.prems(1) True] q(1) by auto
    then show ?thesis using Cons.IH[of q] Cons.prems(2) q True by simp
  next
    case False
    then show ?thesis using Cons disabled_noop[OF Cons.prems(1) _ False] by simp
  qed
qed simp

lemma ui_run_refines_contract_witness:
  "draft_abs (projr (ui_run addNewProduct [AddImage, ImageChange 0 ''a.png'', AddImage, RemoveImage])) =
   fold spec_apply [AppendImage, SetImageAt 0 ''a.png'', AppendImage, RemoveLastImage]
     (draft_abs addNewProduct)"
  using ui_run_refines_contract[OF addNewProduct_wf,
      of "[AddImage, ImageChange 0 ''a.png'', AddImage, RemoveImage]"]
  by auto

end
