(* ===== verification/CookieRegex.thy ===== *)
theory CookieRegex
  imports Session
begin

text \<open>A reference semantics for the regular expression of the mount effect: a
  backtracking matcher for the fragment of ECMAScript regular expressions the
  cookie pattern uses, and \<open>String.prototype.replace\<close> with a non-global pattern
  on top of it.\<close>

section \<open>Regular expressions and their matcher\<close>

datatype rx =
    RBol
  | REol
  | RClass "char \<Rightarrow> bool"
  | RStar "char \<Rightarrow> bool"
  | RSeq rx rx
  | RAlt rx rx
  | RCap rx

type_synonym rx_state = "nat \<times> string \<times> string option"

text \<open>All end states of a match of \<open>r\<close> from position \<open>i\<close> with rest \<open>s\<close> and
  capture \<open>c\<close>, in the order the backtracking engine tries them: the left
  alternative before the right one, a greedy star longest first.\<close>

fun rx_match :: "rx \<Rightarrow> nat \<Rightarrow> string \<Rightarrow> string option \<Rightarrow> rx_state list" where
  "rx_match RBol i s c = (if i = 0 then [(i, s, c)] else [])"
| "rx_match REol i s c = (if s = [] then [(i, s, c)] else [])"
| "rx_match (RClass P) i s c = (case s of y # s' \<Rightarrow> if P y then [(Suc i, s', c)] else [] | [] \<Rightarrow> [])"
| "rx_match (RStar P) i s c =
     (case s of
        y # s' \<Rightarrow> if P y then rx_match (RStar P) (Suc i) s' c @ [(i, s, c)] else [(i, s, c)]
      | [] \<Rightarrow> [(i, s, c)])"
| "rx_match (RSeq a b) i s c = concat (map (\<lambda>(i', s', c'). rx_match b i' s' c') (rx_match a i s c))"
| "rx_match (RAlt a b) i s c = rx_match a i s c @ rx_match b i s c"
| "rx_match (RCap a) i s c = map (\<lambda>(i', s', c'). (i', s', Some (take (i' - i) s))) (rx_match a i s c)"

text \<open>The end state the engine commits to: the first one.\<close>

definition rx_first :: "rx \<Rightarrow> nat \<Rightarrow> string \<Rightarrow> string option \<Rightarrow> rx_state option" where
  "rx_first r i s c = (case rx_match r i s c of [] \<Rightarrow> None | m # _ \<Rightarrow> Some m)"

fun first_some :: "('a \<Rightarrow> 'b option) \<Rightarrow> 'a list \<Rightarrow> 'b option" where
  "first_some f [] = None"
| "first_some f (x # xs) = (case f x of Some y \<Rightarrow> Some y | None \<Rightarrow> first_some f xs)"

definition rx_chr :: "char \<Rightarrow> rx" where
  "rx_chr x = RClass (\<lambda>y. y = x)"

definition rx_str :: "string \<Rightarrow> rx \<Rightarrow> rx" where
  "rx_str w r = foldr (\<lambda>x r. RSeq (rx_chr x) r) w r"

text \<open>The first position from which the pattern matches, with its first end state.\<close>

fun rx_search :: "rx \<Rightarrow> nat \<Rightarrow> string \<Rightarrow> (nat \<times> rx_state) option" where
  "rx_search r j s =
     (case rx_match r j s None of
        m # _ \<Rightarrow> Some (j, m)
      | [] \<Rightarrow> (case s of [] \<Rightarrow> None | _ # s' \<Rightarrow> rx_search r (Suc j) s'))"

text \<open>\<open>s.replace(r, f)\<close>: the first match is replaced by the replacement computed
  from its capture; without a match the string is unchanged.\<close>

definition js_replace :: "rx \<Rightarrow> (string option \<Rightarrow> string) \<Rightarrow> string \<Rightarrow> string" where
  "js_replace r f s =
     (case rx_search r 0 s of
        None \<Rightarrow> s
      | Some (j, (_, rest, c)) \<Rightarrow> take j s @ f c @ rest)"

text \<open>The replacement pattern \<open>"$1"\<close>: the first capture, the empty string when
  the group did not take part in the match.\<close>

definition dollar1 :: "string option \<Rightarrow> string" where
  "dollar1 c = (case c of Some t \<Rightarrow> t | None \<Rightarrow> [])"

section \<open>The cookie pattern\<close>

text \<open>\<open>.\<close> is any character but a line terminator; \<open>\s\<close> is \<open>is_js_ws\<close>.\<close>

definition rx_dot :: "char \<Rightarrow> bool" where
  "rx_dot y \<longleftrightarrow> y \<noteq> CHR 0x0A \<and> y \<noteq> CHR 0x0D"

text \<open>\<open>/(?:(?:^|.*;\s*)hexToken\s*\=\s*([^;]*).*$)|^.*$/\<close>, part by part:
  \<open>.*$\<close>, \<open>\s*([^;]*).*$\<close>, \<open>hexToken\s*\=\<close> followed by the value, and the
  prefix \<open>(?:^|.*;\s*)\<close>.\<close>

definition rx_tail :: rx where
  "rx_tail = RSeq (RStar rx_dot) REol"

definition rx_value :: rx where
  "rx_value = RSeq (RStar is_js_ws) (RSeq (RCap (RStar (\<lambda>y. y \<noteq> CHR '';''))) rx_tail)"

definition rx_assign :: rx where
  "rx_assign = rx_str ''hexToken'' (RSeq (RStar is_js_ws) (RSeq (rx_chr CHR ''='') rx_value))"

definition rx_prefix :: rx where
  "rx_prefix = RAlt RBol (RSeq (RStar rx_dot) (RSeq (rx_chr CHR '';'') (RStar is_js_ws)))"

definition cookie_regex :: rx where
  "cookie_regex = RAlt (RSeq rx_prefix rx_assign) (RSeq RBol rx_tail)"

definition cookie_replace :: "string \<Rightarrow> string" where
  "cookie_replace s = js_replace cookie_regex dollar1 s"

section \<open>Properties of the matcher\<close>

lemma rx_match_star:
  "rx_match (RStar P) i s c =
   map (\<lambda>k. (i + k, drop k s, c)) (rev [0..<Suc (length (takeWhile P s))])"
proof (induction s arbitrary: i)
  case (Cons y s)
  then show ?case
    by (auto simp: rev_map[symmetric] upt_conv_Cons map_Suc_upt[symmetric] simp del: upt_Suc)
qed simp

declare rx_match.simps(4) [simp del]

lemma first_some_append:
  "first_some f (xs @ ys) = (case first_some f xs of Some y \<Rightarrow> Some y | None \<Rightarrow> first_some f ys)"
  by (induction xs) (auto split: option.splits)

lemma first_some_concat:
  "first_some f (concat (map g xs)) = first_some (\<lambda>x. first_some f (g x)) xs"
  by (induction xs) (auto simp: first_some_append split: option.splits)

lemma hd_concat_first:
  "(case concat (map g xs) of [] \<Rightarrow> None | m # _ \<Rightarrow> Some m) =
   first_some (\<lambda>x. case g x of [] \<Rightarrow> None | m # _ \<Rightarrow> Some m) xs"
proof (induction xs)
  case (Cons a xs)
  then show ?case by (cases "g a") simp_all
qed simp

lemma rx_first_seq:
  "rx_first (RSeq a b) i s c = first_some (\<lambda>(i', s', c'). rx_first b i' s' c') (rx_match a i s c)"
  by (simp add: rx_first_def hd_concat_first split_def)

lemma rx_first_chr:
  "rx_first (RSeq (rx_chr x) r) i s c =
   (case s of y # s' \<Rightarrow> if y = x then rx_first r (Suc i) s' c else None | [] \<Rightarrow> None)"
  by (simp add: rx_first_seq rx_chr_def split: list.splits option.split)

lemma rx_first_str:
  "rx_first (rx_str w r) i s c =
   (if take (length w) s = w then rx_first r (i + length w) (drop (length w) s) c else None)"
proof (induction w arbitrary: i s)
  case Nil
  then show ?case by (simp add: rx_str_def)
next
  case (Cons x w)
  then show ?case
    by (cases s) (simp_all add: rx_str_def rx_first_chr)
qed

lemma rx_first_alt:
  "rx_first (RAlt a b) i s c = (case rx_first a i s c of Some m \<Rightarrow> Some m | None \<Rightarrow> rx_first b i s c)"
  by (simp add: rx_first_def split: list.split)

lemma rev_upt_Suc: "rev [0..<Suc n] = n # rev [0..<n]"
  by simp

lemma rx_first_tail:
  assumes "list_all rx_dot s"
  shows "rx_first rx_tail i s c = Some (i + length s, [], c)"
proof -
  have tw: "takeWhile rx_dot s = s"
    using assms by (simp add: takeWhile_eq_all_conv list_all_iff)
  show ?thesis
    unfolding rx_tail_def rx_first_seq rx_match_star tw rev_upt_Suc
    by (simp add: rx_first_def)
qed

lemma length_take_drop_while:
  "length (takeWhile P xs) + length (dropWhile P xs) = length xs"
  by (induction xs) auto

lemma first_some_hit: "f x = Some y \<Longrightarrow> first_some f (x # xs) = Some y"
  by simp

lemma list_all_dropWhile: "list_all P xs \<Longrightarrow> list_all P (dropWhile Q xs)"
  by (induction xs) auto

lemma rx_first_value:
  assumes dots: "list_all rx_dot s"
  shows "rx_first rx_value i s c =
    Some (i + length s, [], Some (takeWhile (\<lambda>y. y \<noteq> CHR '';'') (dropWhile is_js_ws s)))"
proof -
  define n where "n = length (takeWhile is_js_ws s)"
  define r where "r = dropWhile is_js_ws s"
  define m where "m = length (takeWhile (\<lambda>y. y \<noteq> CHR '';'') r)"
  have dr: "drop n s = r" by (simp add: n_def r_def dropWhile_eq_drop)
  have dots': "list_all rx_dot (drop m r)"
    using list_all_dropWhile[OF dots, of is_js_ws] by (simp add: r_def list_all_iff in_set_dropD)
  have len: "n + m + length (drop m r) = length s"
    using length_take_drop_while[of is_js_ws s] length_takeWhile_le[of _ r]
    by (simp add: n_def m_def r_def)
  have cap: "rx_first (RSeq (RCap (RStar (\<lambda>y. y \<noteq> CHR '';''))) rx_tail) (i + n) r c =
        Some (i + length s, [], Some (takeWhile (\<lambda>y. y \<noteq> CHR '';'') r))"
    unfolding rx_first_seq rx_match.simps(7) rx_match_star rev_upt_Suc m_def[symmetric]
    using rx_first_tail[OF dots', of "i + n + m"] len
    by (simp add: m_def takeWhile_eq_take[symmetric])
  have "rx_first rx_value i s c =
        first_some (\<lambda>(i', s', c'). rx_first (RSeq (RCap (RStar (\<lambda>y. y \<noteq> CHR '';''))) rx_tail) i' s' c')
          (map (\<lambda>k. (i + k, drop k s, c)) (n # rev [0..<n]))"
    unfolding rx_value_def rx_first_seq[of "RStar is_js_ws"] rx_match_star rev_upt_Suc n_def ..
  also have "\<dots> = Some (i + length s, [], Some (takeWhile (\<lambda>y. y \<noteq> CHR '';'') r))"
    using cap dr by simp
  finally show ?thesis by (simp add: r_def)
qed

lemma ws_skip:
  assumes nows: "\<And>i s c. s \<noteq> [] \<Longrightarrow> is_js_ws (hd s) \<Longrightarrow> rx_first r i s c = None"
  shows "first_some (\<lambda>(i', s', c'). rx_first r i' s' c') (rx_match (RStar is_js_ws) i s c) =
         rx_first r (i + length (takeWhile is_js_ws s)) (dropWhile is_js_ws s) c"
proof (induction s arbitrary: i)
  case Nil
  then show ?case by (simp add: rx_match_star split: option.split)
next
  case (Cons y s)
  show ?case
  proof (cases "is_js_ws y")
    case True
    have "rx_first r i (y # s) c = None" using nows True by simp
    with True Cons.IH[of "Suc i"] show ?thesis
      by (simp add: rx_match.simps(4) first_some_append split: option.split)
  next
    case False
    then show ?thesis by (simp add: rx_match.simps(4) split: option.split)
  qed
qed

lemma rx_first_chr_ws:
  "\<not> is_js_ws x \<Longrightarrow> s \<noteq> [] \<Longrightarrow> is_js_ws (hd s) \<Longrightarrow> rx_first (RSeq (rx_chr x) r) i s c = None"
  by (cases s) (auto simp: rx_first_chr)

lemma assign_step1:
  assumes True: "take 8 s = ''hexToken''"
  shows "rx_first rx_assign i s c =
        rx_first (RSeq (rx_chr CHR ''='') rx_value) (i + 8 + length (takeWhile is_js_ws (drop 8 s)))
          (dropWhile is_js_ws (drop 8 s)) c"
proof -
  have eqws: "\<not> is_js_ws CHR ''=''" by (simp add: ws_eq_char)
  have l8: "length ''hexToken'' = 8" by simp
  show ?thesis
    unfolding rx_assign_def rx_first_str l8 if_P[OF True] rx_first_seq[of "RStar is_js_ws"]
    by (rule ws_skip) (rule rx_first_chr_ws[OF eqws])
qed

lemma assign_len:
  assumes True: "take 8 s = ''hexToken''"
  shows "8 \<le> length s"
  using arg_cong[OF True, of length] by simp

lemma rx_first_assign:
  assumes dots: "list_all rx_dot s"
  shows "rx_first rx_assign i s c = map_option (\<lambda>t. (i + length s, [], Some t)) (token_at s)"
proof (cases "take 8 s = ''hexToken''")
  case True
  define n where "n = length (takeWhile is_js_ws (drop 8 s))"
  have step: "rx_first rx_assign i s c =
        rx_first (RSeq (rx_chr CHR ''='') rx_value) (i + 8 + n) (dropWhile is_js_ws (drop 8 s)) c"
    unfolding n_def by (rule assign_step1[OF True])
  have len: "length s = 8 + n + length (dropWhile is_js_ws (drop 8 s))"
    using assign_len[OF True] length_take_drop_while[of is_js_ws "drop 8 s"] by (simp add: n_def)
  have dots': "list_all rx_dot (dropWhile is_js_ws (drop 8 s))"
    using dots by (simp add: list_all_iff) (meson in_set_dropD set_dropWhileD)
  show ?thesis
  proof (cases "dropWhile is_js_ws (drop 8 s)")
    case Nil
    show ?thesis by (simp add: step rx_first_chr token_at_def True Nil)
  next
    case (Cons y r)
    have tok: "token_at s = (if y = CHR ''='' then Some (takeWhile (\<lambda>x. x \<noteq> CHR '';'') (dropWhile is_js_ws r)) else None)"
      using Cons True by (simp add: token_at_def)
    have pos: "Suc (i + 8 + n) + length r = i + length s"
      using len Cons by simp
    have "list_all rx_dot r" using dots' Cons by simp
    then show ?thesis
      using pos by (simp add: step Cons rx_first_chr rx_first_value tok)
  qed
next
  case False
  have l8: "length ''hexToken'' = 8" by simp
  show ?thesis
    unfolding rx_assign_def rx_first_str l8 using False by (simp add: token_at_def)
qed

lemma rx_dot_semi: "rx_dot CHR '';''"
  by (simp add: rx_dot_def)

lemma assign_nows: "s \<noteq> [] \<Longrightarrow> is_js_ws (hd s) \<Longrightarrow> rx_first rx_assign i s c = None"
proof -
  assume "s \<noteq> []" "is_js_ws (hd s)"
  then have "take 8 s \<noteq> ''hexToken''"
    by (cases s) (auto simp: is_js_ws_def)
  moreover have l8: "length ''hexToken'' = 8" by simp
  ultimately show ?thesis
    unfolding rx_assign_def rx_first_str l8 by simp
qed

lemma rx_first_semi:
  "list_all rx_dot s \<Longrightarrow>
   first_some (\<lambda>(i', s', c'). rx_first rx_assign i' s' c')
     (rx_match (RSeq (rx_chr CHR '';'') (RStar is_js_ws)) i s c) =
   (case s of
      y # s' \<Rightarrow> if y = CHR '';'' then map_option (\<lambda>t. (i + length s, [], Some t)) (token_at (dropWhile is_js_ws s')) else None
    | [] \<Rightarrow> None)"
proof (cases s)
  case (Cons y s')
  assume dots: "list_all rx_dot s"
  have "list_all rx_dot (dropWhile is_js_ws s')"
    using dots Cons list_all_dropWhile[of rx_dot s' is_js_ws] by simp
  with Cons show ?thesis
    by (simp add: rx_chr_def ws_skip[OF assign_nows] rx_first_assign add.assoc length_take_drop_while)
qed (simp add: rx_chr_def)

lemma rx_first_semis:
  "list_all rx_dot s \<Longrightarrow>
   first_some (\<lambda>(i', s', c'). first_some (\<lambda>(i', s', c'). rx_first rx_assign i' s' c')
       (rx_match (RSeq (rx_chr CHR '';'') (RStar is_js_ws)) i' s' c'))
     (rx_match (RStar rx_dot) i s c) =
   map_option (\<lambda>t. (i + length s, [], Some t)) (last_token (after_semis s))"
proof (induction s arbitrary: i)
  case Nil
  then show ?case by (simp add: rx_match_star rx_chr_def last_token_def)
next
  case (Cons y s)
  then have dots: "list_all rx_dot s" "rx_dot y" by simp_all
  have ih: "first_some (\<lambda>(i', s', c'). first_some (\<lambda>(i', s', c'). rx_first rx_assign i' s' c')
       (rx_match (RSeq (rx_chr CHR '';'') (RStar is_js_ws)) i' s' c')) (rx_match (RStar rx_dot) (Suc i) s c) =
      map_option (\<lambda>t. (i + length (y # s), [], Some t)) (last_token (after_semis s))"
    using Cons.IH[OF dots(1), of "Suc i"] by simp
  have star: "rx_match (RStar rx_dot) i (y # s) c = rx_match (RStar rx_dot) (Suc i) s c @ [(i, y # s, c)]"
    using dots(2) by (subst rx_match.simps(4)) simp
  show ?case
    unfolding star first_some_append ih
    using Cons.prems
    by (simp add: rx_first_semi rx_dot_semi last_token_cons split: option.split del: rx_match.simps(5))
qed

lemma first_some_seq:
  "first_some f (rx_match (RSeq a b) i s c) =
   first_some (\<lambda>(i', s', c'). first_some f (rx_match b i' s' c')) (rx_match a i s c)"
  by (simp add: first_some_concat split_def)

lemma rx_search_first:
  "rx_search r j s = (case rx_first r j s None of Some m \<Rightarrow> Some (j, m)
     | None \<Rightarrow> (case s of [] \<Rightarrow> None | _ # s' \<Rightarrow> rx_search r (Suc j) s'))"
  by (simp add: rx_first_def split: list.split)

lemma rx_first_cookie:
  assumes dots: "list_all rx_dot s"
  shows "rx_first cookie_regex 0 s None =
    Some (length s, [], case token_at s of Some t \<Rightarrow> Some t
                          | None \<Rightarrow> last_token (after_semis s))"
proof -
  have alt1: "rx_first (RSeq rx_prefix rx_assign) 0 s None =
      map_option (\<lambda>t. (length s, [], Some t))
        (case token_at s of Some t \<Rightarrow> Some t | None \<Rightarrow> last_token (after_semis s))"
    unfolding rx_first_seq rx_prefix_def rx_match.simps(6) first_some_append
      first_some_seq[of _ "RStar rx_dot"] rx_first_semis[OF dots]
    using rx_first_assign[OF dots, of 0 None]
    by (simp split: option.split)
  show ?thesis
    unfolding cookie_regex_def rx_first_alt alt1 rx_first_seq[of RBol]
    using rx_first_tail[OF dots, of 0 None] by (simp split: option.split)
qed

subsection \<open>Claims\<close>

text \<open>C23: The token extraction of the model is the regular expression: for
  every cookie string without line terminators, \<open>cookie_token\<close> equals the
  result of \<open>document.cookie.replace(/(?:(?:^|.*;\s*)hexToken\s*\=\s*([^;]*).*$)|^.*$/, "$1")\<close>
  under the backtracking semantics of ECMAScript regular expressions.\<close>

theorem cookie_token_regex_equiv:
  assumes dots: "list_all rx_dot s"
  shows "cookie_replace s = cookie_token s"
proof -
  have "rx_search cookie_regex 0 s =
        Some (0, length s, [], case token_at s of Some t \<Rightarrow> Some t | None \<Rightarrow> last_token (after_semis s))"
    by (subst rx_search_first) (simp add: rx_first_cookie[OF dots])
  then show ?thesis
    by (simp add: cookie_replace_def js_replace_def dollar1_def cookie_token_def split: option.split)
qed

lemma cookie_token_regex_equiv_witness:
  "cookie_replace ''lang=zh; hexToken=abc.def'' = ''abc.def''"
  using cookie_token_regex_equiv[of "''lang=zh; hexToken=abc.def''"]
  by (simp add: rx_dot_def cookie_token_def token_at_def last_token_def token_step_def is_js_ws_def)

end
