(* ===== verification/Render.thy ===== *)
theory Render
  imports Page
begin

text \<open>What the application renders from the page state: the body of DetailModal
  (src/src/components/DetailModal.jsx, lines 65 to 171), which React renders on
  every render of the page, open or not, the rows of the product table, the
  props ProductPage passes to the dialogs, the headers and footers of both dialogs
  with the events their buttons cause, and the routes of App.jsx.  Literal texts
  of the markup are kept as labels (\<open>AltDefault\<close> is the alternative text
  used when the product has no title, \<open>SlideAlt k\<close> the text of slide \<open>k\<close>).\<close>

section \<open>JavaScript truthiness and React children\<close>

text \<open>ToBoolean, as \<open>x ? a : b\<close> and \<open>x || y\<close> use it.\<close>

fun js_truthy :: "jsval \<Rightarrow> bool" where
  "js_truthy JUndef = False"
| "js_truthy JNull = False"
| "js_truthy (JBool b) = b"
| "js_truthy (JNum n) = (case n of Fin q \<Rightarrow> q \<noteq> 0 | NaN \<Rightarrow> False | _ \<Rightarrow> True)"
| "js_truthy (JStr s) = (s \<noteq> [])"
| "js_truthy (JArr _) = True"

text \<open>A value placed as a child in JSX: strings and numbers are shown, an array
  shows its elements, \<open>undefined\<close>, \<open>null\<close> and booleans show nothing.\<close>

datatype rchild = RText string | RNum jsnum | RNothing | RList "rchild list"

fun react_child :: "jsval \<Rightarrow> rchild" where
  "react_child (JStr s) = RText s"
| "react_child (JNum n) = RNum n"
| "react_child (JArr xs) = RList (map react_child xs)"
| "react_child _ = RNothing"

section \<open>DetailModal\<close>

datatype alt_text = AltTitle jsval | AltDefault | SlideAlt nat

record detail_view =
  dv_image :: "(jsval \<times> alt_text) option"
  dv_title :: rchild
  dv_category :: rchild
  dv_content :: rchild
  dv_description :: rchild
  dv_trending :: rchild
  dv_origin_price :: rchild
  dv_price :: rchild
  dv_gallery :: "(jsval \<times> alt_text) list"

text \<open>\<open>x?.length > 0\<close>: only strings and arrays have a length.\<close>

fun length_positive :: "jsval \<Rightarrow> bool" where
  "length_positive (JArr xs) = (xs \<noteq> [])"
| "length_positive (JStr s) = (s \<noteq> [])"
| "length_positive _ = False"

text \<open>The gallery (lines 120 to 152): the slides of \<open>imagesUrl.map\<close>, or the
  text "no other images" (the empty list) when the length test fails; a non-empty
  string passes the test and has no \<open>map\<close>, which throws.\<close>

definition detail_gallery :: "jsval \<Rightarrow> js_error + (jsval \<times> alt_text) list" where
  "detail_gallery v =
     (if length_positive v
      then (case v of JArr xs \<Rightarrow> Inr (zip xs (map SlideAlt [1..<Suc (length xs)])) | _ \<Rightarrow> Inl TypeError)
      else Inr [])"

text \<open>The body for a draft (lines 78 to 153).  \<open>tempProduct\<close> is always an object,
  so the branch "select a product" of line 155 is never taken.\<close>

definition detail_render :: "jsobj \<Rightarrow> js_error + detail_view" where
  "detail_render p =
     (case detail_gallery (get_prop p ''imagesUrl'') of
        Inl e \<Rightarrow> Inl e
      | Inr g \<Rightarrow>
          Inr \<lparr>dv_image =
                 (if js_truthy (get_prop p ''imageUrl'')
                  then Some (get_prop p ''imageUrl'',
                             if js_truthy (get_prop p ''title'') then AltTitle (get_prop p ''title'')
                             else AltDefault)
                  else None),
               dv_title = react_child (get_prop p ''title''),
               dv_category = react_child (get_prop p ''category''),
               dv_content = react_child (get_prop p ''content''),
               dv_description = react_child (get_prop p ''description''),
               dv_trending = react_child (get_prop p ''trending''),
               dv_origin_price = react_child (get_prop p ''origin_price''),
               dv_price = react_child (get_prop p ''price''),
               dv_gallery = g\<rparr>)"

section \<open>The product table\<close>

text \<open>One row of the table of ProductPage.jsx (lines 268 to 283): title, trending,
  the two prices as React children, and the badge chosen by the truthiness of
  \<open>is_enabled\<close>; the row's buttons are the events \<open>DetailButton\<close>,
  \<open>EditButton\<close> and \<open>DeleteButton\<close> of the page.\<close>

datatype badge = BadgeEnabled | BadgeDisabled

record table_row =
  tr_title :: rchild
  tr_trending :: rchild
  tr_origin_price :: rchild
  tr_price :: rchild
  tr_badge :: badge

definition product_row :: "jsobj \<Rightarrow> table_row" where
  "product_row item =
     \<lparr>tr_title = react_child (get_prop item ''title''),
      tr_trending = react_child (get_prop item ''trending''),
      tr_origin_price = react_child (get_prop item ''origin_price''),
      tr_price = react_child (get_prop item ''price''),
      tr_badge = (if js_truthy (get_prop item ''is_enabled'') then BadgeEnabled else BadgeDisabled)\<rparr>"

definition product_table :: "page \<Rightarrow> table_row list" where
  "product_table s = map product_row (products s)"

section \<open>Routes\<close>

datatype app_page = LoginPage | ProductPageEl

text \<open>App.jsx: \<open>/\<close> shows the login page, \<open>/products\<close> the product page, any
  other path nothing.\<close>

definition app_route :: "string \<Rightarrow> app_page option" where
  "app_route r =
     (if r = ''/'' then Some LoginPage else if r = ''/products'' then Some ProductPageEl else None)"

text \<open>The route agrees with the mounted page: ProductPage is mounted exactly
  when the route selects it and no exception has unmounted the application.\<close>

definition route_ok :: "page \<Rightarrow> bool" where
  "route_ok s \<longleftrightarrow>
     route s \<in> {''/products'', ''/''} \<and>
     (mounted s \<longleftrightarrow> app_route (route s) = Some ProductPageEl \<and> \<not> crashed s)"

section \<open>The dialogs' props\<close>

text \<open>The parameters of ProductModal (ProductModal.jsx lines 5 to 17) and of
  DetailModal (DetailModal.jsx line 8), with each callback as the page event it
  causes, and the props ProductPage passes (ProductPage.jsx lines 311 to 330):
  the open flags, the mode and the draft, \<open>closeModal\<close> and
  \<open>handleCloseDetail\<close> as the dialogs' close events, the four draft updaters
  as draft edits, \<open>handleModalSubmit\<close> and \<open>handleUpload\<close>.\<close>

record product_modal_props =
  pm_isOpen :: bool
  pm_onClose :: page_event
  pm_modalMode :: "modal_mode option"
  pm_tempProduct :: jsobj
  pm_onInputChange :: "input_target \<Rightarrow> page_event"
  pm_onImageChange :: "nat \<Rightarrow> string \<Rightarrow> page_event"
  pm_onAddImage :: page_event
  pm_onRemoveImage :: page_event
  pm_onSubmit :: page_event
  pm_onUploadImage :: "nat option \<Rightarrow> page_event"

record detail_modal_props =
  dm_tempProduct :: jsobj
  dm_isOpen :: bool
  dm_onClose :: page_event

definition product_modal_props_of :: "page \<Rightarrow> product_modal_props" where
  "product_modal_props_of s =
     \<lparr>pm_isOpen = is_open (productModal s), pm_onClose = ProductDialog CloseButton,
      pm_modalMode = modalMode s, pm_tempProduct = tempProduct s,
      pm_onInputChange = (\<lambda>t. DraftEdit (InputChange t)),
      pm_onImageChange = (\<lambda>i v. DraftEdit (ImageChange i v)),
      pm_onAddImage = DraftEdit AddImage, pm_onRemoveImage = DraftEdit RemoveImage,
      pm_onSubmit = SubmitButton, pm_onUploadImage = UploadFile\<rparr>"

definition detail_modal_props_of :: "page \<Rightarrow> detail_modal_props" where
  "detail_modal_props_of s =
     \<lparr>dm_tempProduct = tempProduct s, dm_isOpen = is_open (detailModal s),
      dm_onClose = DetailDialog CloseButton\<rparr>"

section \<open>Dialog frames\<close>

text \<open>The header and the footer of the two dialogs: the labels they show (the
  literal texts of the markup as labels: \<open>TitleCreate\<close> and \<open>TitleEdit\<close> the
  create and edit titles, \<open>ConfirmCreate\<close> and \<open>ConfirmEdit\<close> the confirm
  button's two texts, \<open>CancelLabel\<close>, \<open>TitleDetail\<close> and \<open>CloseLabel\<close> the
  others) and the page event each button causes.  ProductModal's close and cancel
  buttons call \<open>handleClose\<close>, that is its \<open>onClose\<close>, \<open>closeModal\<close>, and
  its confirm button \<open>onSubmit\<close>, \<open>handleModalSubmit\<close> (ProductPage.jsx lines
  311 to 323); DetailModal's buttons call \<open>handleClose\<close>, that is
  \<open>handleCloseDetail\<close>.  A header is its title with the event of its close
  icon, a footer the list of its buttons.\<close>

datatype dialog_label = TitleCreate | TitleEdit | TitleDetail | CancelLabel | ConfirmCreate
  | ConfirmEdit | CloseLabel

definition product_modal_header :: "modal_mode option \<Rightarrow> dialog_label \<times> page_event" where
  "product_modal_header mode =
     (if mode = Some ModeCreate then TitleCreate else TitleEdit, ProductDialog CloseButton)"

definition product_modal_footer :: "modal_mode option \<Rightarrow> (dialog_label \<times> page_event) list" where
  "product_modal_footer mode =
     [(CancelLabel, ProductDialog CloseButton),
      (if mode = Some ModeCreate then ConfirmCreate else ConfirmEdit, SubmitButton)]"

definition detail_modal_header :: "dialog_label \<times> page_event" where
  "detail_modal_header = (TitleDetail, DetailDialog CloseButton)"

definition detail_modal_footer :: "(dialog_label \<times> page_event) list" where
  "detail_modal_footer = [(CloseLabel, DetailDialog CloseButton)]"

section \<open>Properties\<close>

lemma detail_render_error:
  "(\<exists>e. detail_render p = Inl e) \<longleftrightarrow> (\<exists>w. get_prop p ''imagesUrl'' = JStr w \<and> w \<noteq> [])"
  by (auto simp: detail_render_def detail_gallery_def split: jsval.splits sum.splits)

lemma route_ok_keep:
  "route_ok s \<Longrightarrow> route t = route s \<Longrightarrow> mounted t = mounted s \<Longrightarrow> crashed t = crashed s \<Longrightarrow> route_ok t"
  by (simp add: route_ok_def)

lemma route_ok_leave: "route_ok s \<Longrightarrow> route_ok (navigate ''/'' s)"
  by (simp add: route_ok_def navigate_def app_route_def)

lemma route_ok_ops [simp]:
  "route_ok (issue c k s) = route_ok s"
  "route_ok (toast m s) = route_ok s"
  "route_ok (set_loading b s) = route_ok s"
  "route_ok (getData p s) = route_ok s"
  "route_ok (checkLogin b s) = route_ok s"
  "route_ok (closeModal s) = route_ok s"
  by (simp_all add: route_ok_def issue_def toast_def set_loading_def set_state_def getData_def
      checkLogin_def closeModal_def)

lemma route_ok_set_state:
  "(\<And>t. route (f t) = route t \<and> mounted (f t) = mounted t \<and> crashed (f t) = crashed t) \<Longrightarrow>
   route_ok (set_state f s) = route_ok s"
  by (simp add: route_ok_def set_state_def)

lemma route_ok_complete: "route_ok s \<Longrightarrow> route_ok (complete k r s)"
  by (cases k) (simp_all add: route_ok_leave route_ok_set_state split: response.split)

lemma route_ok_pending [simp]: "route_ok (s\<lparr>pending := x\<rparr>) = route_ok s"
  by (simp add: route_ok_def)

lemma route_ok_settle: "route_ok s \<Longrightarrow> route_ok (settle i r s)"
  by (simp add: settle_def route_ok_complete split: option.split)

lemma route_ok_step: "route_ok s \<Longrightarrow> route_ok (page_step e s)"
proof (cases e)
  case (DraftEdit a)
  assume "route_ok s"
  then show ?thesis using DraftEdit
    by (auto simp: route_ok_def update_draft_def set_state_def app_route_def split: sum.splits)
next
  case LogoutButton
  assume "route_ok s"
  then show ?thesis using LogoutButton
    by (simp add: handleLogout_def route_ok_leave[of "toast LogoutOk _", simplified]
        route_ok_def navigate_def app_route_def issue_def toast_def)
qed (simp_all add: route_ok_settle handleUpload_def handleModalSubmit_def handleDelete_def
       openModal_def handleOpenDetail_def route_ok_set_state split: option.split)

lemma route_ok_init:
  "route_ok (page_init jar)" "route_ok ((page_init jar)\<lparr>auth_header := t\<rparr>)"
  by (simp_all add: route_ok_def page_init_def app_route_def)

lemma route_ok_mount: "route_ok (page_mount jar)"
  by (simp add: page_mount_def Let_def route_ok_leave route_ok_init)

lemma page_reach_route: "page_reach s \<Longrightarrow> route_ok s"
  by (induction rule: page_reach.induct) (auto intro: route_ok_mount route_ok_step)

lemma wf_draft_view_facts:
  assumes "wf_draft p"
  obtains xs u a b where "get_prop p ''imagesUrl'' = JArr xs" "list_all is_str xs"
    "get_prop p ''imageUrl'' = JStr u" "get_prop p ''price'' = JNum (Fin a)"
    "get_prop p ''origin_price'' = JNum (Fin b)"
  using assms
  by (auto simp: wf_draft_def text_fields_def is_str_def is_finite_num_def
      split: jsval.splits jsnum.splits)

lemma open_from_idle:
  assumes "modal_inv m" and "\<not> dialog_visible m"
  shows "dialog_visible (modal_step RequestOpen m)"
proof -
  obtain w where w: "widget m = Some w" "\<not> disposed w" "is_open m \<Longrightarrow> phase w \<noteq> Hidden"
    using assms(1) by (auto simp: modal_inv_def split: option.splits)
  with assms(2) have "phase w = Hidden" "\<not> is_open m" by (auto simp: dialog_visible_def)
  with w show ?thesis
    by (simp add: set_open_def render_def listener_effect_def show_hide_effect_def dialog_visible_def
        bs_simps)
qed

lemma idle_product_dialog:
  "page_reach s \<Longrightarrow> page_idle s \<Longrightarrow> modal_inv (productModal s) \<and> \<not> dialog_visible (productModal s)"
  using page_reach_inv[of s] by (auto simp: page_inv_def page_idle_def modal_reach_inv)

lemma frame_calls_props:
  "map snd (product_modal_header (modalMode s) # product_modal_footer (modalMode s)) =
     [pm_onClose (product_modal_props_of s), pm_onClose (product_modal_props_of s),
      pm_onSubmit (product_modal_props_of s)]"
  "map snd (detail_modal_header # detail_modal_footer) =
     [dm_onClose (detail_modal_props_of s), dm_onClose (detail_modal_props_of s)]"
  by (simp_all add: product_modal_header_def product_modal_footer_def product_modal_props_of_def
      detail_modal_header_def detail_modal_footer_def detail_modal_props_of_def)

lemma frame_buttons_enabled:
  assumes "mounted s"
  shows "dialog_visible (productModal s) \<Longrightarrow>
           \<forall>e \<in> set (map snd (product_modal_header (modalMode s) # product_modal_footer (modalMode s))).
             page_enabled s e"
    and "dialog_visible (detailModal s) \<Longrightarrow>
           \<forall>e \<in> set (map snd (detail_modal_header # detail_modal_footer)). page_enabled s e"
  using assms
  by (simp_all add: product_modal_header_def product_modal_footer_def detail_modal_header_def
      detail_modal_footer_def)

lemma product_row_wf:
  assumes "wf_draft p"
  shows "(tr_badge (product_row p) = BadgeEnabled \<longleftrightarrow> get_prop p ''is_enabled'' = JNum (Fin 1)) \<and>
    (\<exists>a b. tr_price (product_row p) = RNum (Fin a) \<and> tr_origin_price (product_row p) = RNum (Fin b))"
proof -
  obtain xs u a b where "get_prop p ''price'' = JNum (Fin a)" "get_prop p ''origin_price'' = JNum (Fin b)"
    using assms by (rule wf_draft_view_facts)
  moreover have "get_prop p ''is_enabled'' \<in> {JNum (Fin 0), JNum (Fin 1)}"
    using assms by (simp add: wf_draft_def)
  ultimately show ?thesis by (auto simp: product_row_def)
qed

lemma product_table_reach:
  "page_reach s \<Longrightarrow> \<forall>r \<in> set (product_table s).
     \<exists>a b. tr_price r = RNum (Fin a) \<and> tr_origin_price r = RNum (Fin b)"
  using page_reach_inv[of s] product_row_wf
  by (auto simp: product_table_def page_inv_def list_all_iff)

subsection \<open>Claims\<close>

text \<open>C32: DetailModal renders the draft of every reachable page state without
  error: the gallery shows the draft's images in order, slide \<open>k\<close> labelled
  \<open>k\<close>, or the "no other images" text when there are none; the main image is
  shown exactly when \<open>imageUrl\<close> is not empty; both prices are shown as finite
  numbers.\<close>

theorem detail_view_of_draft:
  assumes r: "page_reach s"
  shows "\<exists>v. detail_render (tempProduct s) = Inr v \<and>
     dv_gallery v = (case get_prop (tempProduct s) ''imagesUrl'' of
                       JArr xs \<Rightarrow> zip xs (map SlideAlt [1..<Suc (length xs)]) | _ \<Rightarrow> []) \<and>
     (dv_image v = None \<longleftrightarrow> get_prop (tempProduct s) ''imageUrl'' = JStr []) \<and>
     (\<exists>a b. dv_price v = RNum (Fin a) \<and> dv_origin_price v = RNum (Fin b))"
proof -
  have "wf_draft (tempProduct s)"
    using page_reach_inv[OF r] by (simp add: page_inv_def)
  then obtain xs u a b where f: "get_prop (tempProduct s) ''imagesUrl'' = JArr xs"
    "get_prop (tempProduct s) ''imageUrl'' = JStr u" "get_prop (tempProduct s) ''price'' = JNum (Fin a)"
    "get_prop (tempProduct s) ''origin_price'' = JNum (Fin b)"
    by (rule wf_draft_view_facts)
  then show ?thesis
    by (simp add: detail_render_def detail_gallery_def)
qed

lemma detail_view_of_draft_witness:
  "\<exists>v. detail_render (tempProduct (page_mount [(''hexToken'', ''abc'')])) = Inr v \<and>
     dv_gallery v = [] \<and> dv_image v = None"
  using detail_view_of_draft[OF page_reach.mount[of "[(''hexToken'', ''abc'')]"]]
    cookie_lookup[of "[(''hexToken'', ''abc'')]"]
  by (simp add: jar_ok_def cookie_ok_def is_js_ws_def page_mount_def page_init_def
      checkLogin_def set_loading_def set_state_def issue_def addNewProduct_def get_prop_def)
     blast

text \<open>C34: The route and the mounted page agree in every reachable state: the
  route is \<open>/products\<close> or \<open>/\<close>, and ProductPage is mounted exactly when App.jsx
  selects it for the route and no exception has unmounted the application.\<close>

theorem route_matches_page:
  "page_reach s \<Longrightarrow>
   route s \<in> {''/products'', ''/''} \<and>
   (mounted s \<longleftrightarrow> app_route (route s) = Some ProductPageEl \<and> \<not> crashed s)"
  using page_reach_route by (simp add: route_ok_def)

lemma route_matches_page_witness:
  "app_route (route (page_mount [(''lang'', ''zh'')])) = Some LoginPage \<and>
   \<not> mounted (page_mount [(''lang'', ''zh'')])"
  using route_matches_page[OF page_reach.mount[of "[(''lang'', ''zh'')]"]]
    cookie_lookup[of "[(''lang'', ''zh'')]"]
  by (simp add: jar_ok_def cookie_ok_def is_js_ws_def page_mount_def page_init_def
      toast_def navigate_def app_route_def)

text \<open>C27: The dialog's labels follow the button that opened it.  From the idle
  list, the create button opens the dialog titled for creation with the confirm
  button labelled for creation, and pressing it sends a create of the empty
  template; the edit button of row \<open>i\<close> opens it titled for editing with the
  confirm button labelled for editing, and pressing it sends an update of that
  product under its id.\<close>

theorem dialog_mode_labels:
  assumes r: "page_reach s" and idle: "page_idle s" and i: "i < length (products s)"
  shows "(let t = page_step CreateButton s in
            fst (product_modal_header (modalMode t)) = TitleCreate \<and>
            product_modal_footer (modalMode t) =
              [(CancelLabel, ProductDialog CloseButton), (ConfirmCreate, SubmitButton)] \<and>
            page_enabled t SubmitButton \<and>
            api_log (page_step SubmitButton t) = api_log s @ [AddProduct addNewProduct]) \<and>
         (let t = page_step (EditButton i) s in
            fst (product_modal_header (modalMode t)) = TitleEdit \<and>
            product_modal_footer (modalMode t) =
              [(CancelLabel, ProductDialog CloseButton), (ConfirmEdit, SubmitButton)] \<and>
            page_enabled t SubmitButton \<and>
            api_log (page_step SubmitButton t) =
              api_log s @ [UpdateProduct (get_prop (products s ! i) ''id'') (products s ! i)])"
proof -
  have m: "mounted s" using idle by (simp add: page_idle_def)
  have v: "dialog_visible (modal_step RequestOpen (productModal s))"
    using idle_product_dialog[OF r idle] by (blast intro: open_from_idle)
  show ?thesis
    using m v by (simp add: Let_def openModal_def set_state_def product_modal_header_def
        product_modal_footer_def handleModalSubmit_def issue_def)
qed

lemma dialog_mode_labels_witness:
  "let s = page_run (page_mount [(''hexToken'', ''abc'')])
             [Complete 0 RespOk, Complete 1 (RespList [addNewProduct]
                \<lparr>current_page = 1, total_pages = 1, has_pre = False, has_next = False\<rparr>)]
   in api_log (page_step SubmitButton (page_step (EditButton 0) s)) =
        api_log s @ [UpdateProduct (get_prop addNewProduct ''id'') addNewProduct]"
  using dialog_mode_labels[OF page_reach_run[OF page_reach.mount[of "[(''hexToken'', ''abc'')]"]],
      of "[Complete 0 RespOk, Complete 1 (RespList [addNewProduct]
                \<lparr>current_page = 1, total_pages = 1, has_pre = False, has_next = False\<rparr>)]" 0]
    cookie_lookup[of "[(''hexToken'', ''abc'')]"] addNewProduct_wf
  by (simp add: Let_def jar_ok_def cookie_ok_def is_js_ws_def page_mount_def page_init_def page_ops
      settle_def page_idle_def dialog_visible_def modal_init_def bs_simps)

end
