(* ===== verification/Liveness.thy ===== *)
theory Liveness
  imports Page
begin

text \<open>What the user can always still do on ProductPage.  \<open>page_next\<close> is one
  step of the page by an event it offers (\<open>page_enabled\<close>), so its reflexive
  transitive closure is the set of futures of a state.  From every reachable
  state of the mounted page the server may answer every pending request, and
  the user can then close both dialogs with their own controls, ending on the
  idle list with no request pending and no spinner.  The closing strategy,
  \<open>close_events\<close>, waits for the running fade to end, presses the close button,
  dismisses the widget (Escape or backdrop) and waits for the fade-out; the
  dismissal is what recovers the state in which the page believes the dialog
  closed while the widget is still shown (ModalSync, C19 and C20).\<close>

section \<open>The futures of a state\<close>

inductive page_next :: "page \<Rightarrow> page \<Rightarrow> bool" where
  "page_enabled s e \<Longrightarrow> page_next s (page_step e s)"

text \<open>The user's way out of a dialog.\<close>

definition close_events :: "modal_event list" where
  "close_events = [TransitionEnd, CloseButton, Dismiss, TransitionEnd]"

section \<open>Properties\<close>

subsection \<open>Closing a dialog\<close>

lemmas close_simps = close_events_def dialog_visible_def set_open_def on_hidden_def render_def
  listener_effect_def show_hide_effect_def bs_simps

lemma modal_close:
  assumes inv: "modal_inv m"
  shows "\<not> is_open (modal_run m close_events) \<and> \<not> dialog_visible (modal_run m close_events)"
proof -
  obtain w where w: "widget m = Some w" "\<not> disposed w" "listeners m = [(next_id m - 1, is_open m)]"
     "0 < next_id m" "is_open m \<Longrightarrow> phase w \<noteq> Hidden"
    using inv by (auto simp: modal_inv_def split: option.splits)
  have "\<not> is_open m" if "phase w = Hidden" using w(5) that by auto
  then show ?thesis using w by (cases "phase w") (simp_all add: close_simps)
qed

lemma modal_skip:
  "modal_inv m \<Longrightarrow> \<not> dialog_visible m \<Longrightarrow> e \<in> {CloseButton, Dismiss} \<Longrightarrow> modal_step e m = m"
proof -
  assume inv: "modal_inv m" and nv: "\<not> dialog_visible m" and e: "e \<in> {CloseButton, Dismiss}"
  obtain w where w: "widget m = Some w" "is_open m \<Longrightarrow> phase w \<noteq> Hidden"
    using inv by (auto simp: modal_inv_def split: option.splits)
  with nv have "phase w = Hidden" "\<not> is_open m" by (auto simp: dialog_visible_def)
  with w e show ?thesis by (auto simp: set_open_def bs_simps)
qed

lemma modal_inv_run: "modal_inv m \<Longrightarrow> modal_inv (modal_run m es)"
  by (induction es arbitrary: m) (simp_all add: modal_inv_step)

subsection \<open>Runs of the page\<close>

lemma page_next_run: "page_next\<^sup>*\<^sup>* s (page_run s es)"
proof (induction es arbitrary: s)
  case (Cons e es)
  have "page_next\<^sup>*\<^sup>* s (if page_enabled s e then page_step e s else s)"
    by (cases "page_enabled s e") (auto intro: page_next.intros)
  from rtranclp_trans[OF this Cons.IH] show ?case by simp
qed simp

lemma page_next_reach: "page_next\<^sup>*\<^sup>* s t \<Longrightarrow> page_reach s \<Longrightarrow> page_reach t"
proof (induction rule: rtranclp_induct)
  case (step t u)
  from step.hyps(2) show ?case
    by (cases rule: page_next.cases) (use step in \<open>simp add: page_reach.step\<close>)
qed

lemma product_dialog_run:
  "mounted s \<Longrightarrow> modal_inv (productModal s) \<Longrightarrow> set es \<inter> {RequestOpen, RequestClose} = {} \<Longrightarrow>
   page_run s (map ProductDialog es) = s\<lparr>productModal := modal_run (productModal s) es\<rparr>"
proof (induction es arbitrary: s)
  case (Cons e es)
  let ?s' = "s\<lparr>productModal := modal_step e (productModal s)\<rparr>"
  have "(if page_enabled s (ProductDialog e) then page_step (ProductDialog e) s else s) = ?s'"
    using Cons.prems modal_skip[of "productModal s" e] by (auto simp: set_state_def)
  moreover have "page_run ?s' (map ProductDialog es) = ?s'\<lparr>productModal := modal_run (modal_step e (productModal s)) es\<rparr>"
    using Cons.IH[of ?s'] Cons.prems by (simp add: modal_inv_step)
  ultimately show ?case by simp
qed simp

lemma detail_dialog_run:
  "mounted s \<Longrightarrow> modal_inv (detailModal s) \<Longrightarrow> set es \<inter> {RequestOpen, RequestClose} = {} \<Longrightarrow>
   page_run s (map DetailDialog es) = s\<lparr>detailModal := modal_run (detailModal s) es\<rparr>"
proof (induction es arbitrary: s)
  case (Cons e es)
  let ?s' = "s\<lparr>detailModal := modal_step e (detailModal s)\<rparr>"
  have "(if page_enabled s (DetailDialog e) then page_step (DetailDialog e) s else s) = ?s'"
    using Cons.prems modal_skip[of "detailModal s" e] by (auto simp: set_state_def detail_modal_step_def)
  moreover have "page_run ?s' (map DetailDialog es) = ?s'\<lparr>detailModal := modal_run (modal_step e (detailModal s)) es\<rparr>"
    using Cons.IH[of ?s'] Cons.prems by (simp add: modal_inv_step)
  ultimately show ?case by simp
qed simp

subsection \<open>Answering every request\<close>

lemma complete_ok_mounted:
  "cont_matches c k \<Longrightarrow> resp_fits c r \<Longrightarrow> r \<noteq> RespErr \<Longrightarrow> mounted (complete k r s) = mounted s"
  by (cases c; cases r) (auto simp: page_ops split: if_splits)

lemma settle_next_next:
  assumes fit: "\<forall>c. resp_fits c (pol c)" and ne: "pending s \<noteq> []"
  shows "page_next s (settle_next pol s)"
proof -
  obtain j c k ps where p: "pending s = (j, c, k) # ps"
    using ne by (cases "pending s") auto
  have "page_enabled s (Complete j (pol c))"
    using fit by (simp add: p)
  then have "page_next s (page_step (Complete j (pol c)) s)"
    by (rule page_next.intros)
  then show ?thesis by (simp add: settle_next_def p)
qed

lemma settle_next_mounted:
  assumes inv: "page_inv s" and ok: "\<forall>c. resp_fits c (pol c) \<and> pol c \<noteq> RespErr"
    and ne: "pending s \<noteq> []"
  shows "mounted (settle_next pol s) = mounted s"
proof -
  obtain j c k ps where p: "pending s = (j, c, k) # ps"
    using ne by (cases "pending s") auto
  have "cont_matches c k"
    using inv by (simp add: page_inv_def req_ok_def p)
  then show ?thesis
    using ok complete_ok_mounted[of c k "pol c"] by (simp add: settle_next_def settle_def p)
qed

lemma settle_all_mounted:
  assumes r: "page_reach s" and m: "mounted s" and ok: "\<forall>c. resp_fits c (pol c) \<and> pol c \<noteq> RespErr"
  shows "\<exists>t. page_next\<^sup>*\<^sup>* s t \<and> pending t = [] \<and> mounted t"
proof -
  obtain t where t: "quiesce pol s = Some t" "pending t = []"
    using quiesce_halts by blast
  let ?P = "\<lambda>t. page_next\<^sup>*\<^sup>* s t \<and> page_reach t \<and> mounted t"
  have "?P t"
  proof (rule while_option_rule[where P = ?P])
    show "while_option (\<lambda>s. pending s \<noteq> []) (settle_next pol) s = Some t"
      using t(1) by (simp add: quiesce_def)
  next
    fix u assume P: "?P u" and ne: "pending u \<noteq> []"
    have fit: "\<forall>c. resp_fits c (pol c)" using ok by simp
    have "page_next u (settle_next pol u)" using settle_next_next[OF fit ne] .
    moreover have "mounted (settle_next pol u) = mounted u"
      using settle_next_mounted[OF page_reach_inv ok ne] P by simp
    ultimately show "?P (settle_next pol u)"
      using P settle_next_reach[OF _ fit ne] by (auto intro: rtranclp.rtrancl_into_rtrancl)
  qed (use r m in simp)
  with t(2) show ?thesis by blast
qed

lemma ok_policy: "\<exists>pol. \<forall>c. resp_fits c (pol c) \<and> pol c \<noteq> RespErr"
proof
  let ?pg = "\<lparr>current_page = 1, total_pages = 1, has_pre = False, has_next = False\<rparr>"
  show "\<forall>c. resp_fits c ((\<lambda>c. case c of GetAdminProducts _ \<Rightarrow> RespList [] ?pg
     | UploadImage _ \<Rightarrow> RespUrl (JStr []) | _ \<Rightarrow> RespOk) c) \<and>
     (\<lambda>c. case c of GetAdminProducts _ \<Rightarrow> RespList [] ?pg
     | UploadImage _ \<Rightarrow> RespUrl (JStr []) | _ \<Rightarrow> RespOk) c \<noteq> RespErr"
    by (auto simp: is_str_def split: api_call.split)
qed

subsection \<open>Claims\<close>

text \<open>C12: The page never locks the user out: from every reachable state of the
  mounted page, with the server answering, the user can reach a state where
  nothing is pending, the spinner is off, both dialogs are closed and hidden,
  and the list's buttons are available again.\<close>

theorem page_can_return_idle:
  assumes r: "page_reach s" and m: "mounted s"
  shows "\<exists>t. page_next\<^sup>*\<^sup>* s t \<and> page_idle t \<and> pending t = [] \<and> \<not> isLoading t \<and>
     \<not> is_open (productModal t) \<and> \<not> is_open (detailModal t)"
proof -
  obtain pol where ok: "\<forall>c. resp_fits c (pol c) \<and> pol c \<noteq> RespErr"
    using ok_policy by blast
  obtain t1 where t1: "page_next\<^sup>*\<^sup>* s t1" "pending t1 = []" "mounted t1"
    using settle_all_mounted[OF r m ok] by blast
  have r1: "page_reach t1" using page_next_reach[OF t1(1) r] .
  then have inv: "modal_inv (productModal t1)" "modal_inv (detailModal t1)" and "\<not> isLoading t1"
    using t1 page_reach_inv[OF r1] page_reach_loading[OF r1]
    by (auto simp: page_inv_def loading_ok_def modal_reach_inv)
  define t2 where "t2 = page_run t1 (map ProductDialog close_events)"
  define t3 where "t3 = page_run t2 (map DetailDialog close_events)"
  have no_req: "set close_events \<inter> {RequestOpen, RequestClose} = {}"
    by (simp add: close_events_def)
  have t2: "t2 = t1\<lparr>productModal := modal_run (productModal t1) close_events\<rparr>"
    unfolding t2_def using t1(3) inv(1) no_req by (rule product_dialog_run)
  have t3: "t3 = t2\<lparr>detailModal := modal_run (detailModal t2) close_events\<rparr>"
    unfolding t3_def using t1(3) inv(2) no_req by (simp add: t2 detail_dialog_run)
  have "page_next\<^sup>*\<^sup>* s t3"
    using t1(1) page_next_run[of t1] page_next_run[of t2] unfolding t2_def t3_def
    by (meson rtranclp_trans)
  moreover have "page_idle t3 \<and> \<not> is_open (productModal t3) \<and> \<not> is_open (detailModal t3)"
    using modal_close[OF inv(1)] modal_close[OF inv(2)] t1(3) by (simp add: t3 t2 page_idle_def)
  ultimately show ?thesis
    using t1(2) \<open>\<not> isLoading t1\<close> by (auto simp: t3 t2)
qed

lemma page_can_return_idle_witness:
  "\<exists>t. page_next\<^sup>*\<^sup>* (page_mount [(''hexToken'', ''abc'')]) t \<and> page_idle t \<and> pending t = [] \<and>
     \<not> isLoading t \<and> \<not> is_open (productModal t) \<and> \<not> is_open (detailModal t)"
  using page_can_return_idle[OF page_reach.mount[of "[(''hexToken'', ''abc'')]"]]
    cookie_lookup[of "[(''hexToken'', ''abc'')]"]
  by (simp add: jar_ok_def cookie_ok_def is_js_ws_def page_mount_def page_init_def page_ops)

end
