(* ===== verification/Spec2Isabelle.thy ===== *)
theory Spec2Isabelle
  imports Page DraftSpec CookieRegex Render Liveness
begin

text \<open>
  \<^bold>\<open>A verification library for the product administration console\<close>
  (src/src: App.jsx, pages/ProductPage.jsx, components/ProductModal.jsx,
  components/DetailModal.jsx).

  \<^bold>\<open>The program.\<close>  ProductPage keeps the product list, the draft product
  \<open>tempProduct\<close>, the dialog mode and two open flags, and talks to a remote API
  (src/api/Api.js, not in the repository).  It hands the draft and four edit
  handlers to ProductModal, the create/edit dialog, and the draft to
  DetailModal.  Each dialog component wraps a Bootstrap \<open>Modal\<close> widget and keeps
  it in step with the flag its owner passes as \<open>isOpen\<close>, through three
  \<open>useEffect\<close> hooks and a \<open>hidden.bs.modal\<close> listener that reports a dismissal
  back with \<open>onClose\<close>.

  \<^bold>\<open>Theories.\<close>
  \<^item> Prelude: named collections (\<open>js_simps\<close>, \<open>modal_simps\<close>) and shared list
    and map facts.
  \<^item> JsValue: the JavaScript values the handlers touch (\<open>jsval\<close>, numbers
    \<open>jsnum\<close> as exact rationals with the infinities and \<open>NaN\<close>),
    \<open>to_number\<close> = ECMAScript StringToNumber as \<open>Number(value)\<close> and \<open>+value\<close>
    evaluate it (ProductPage.jsx, handleModalInputChange), \<open>int_to_string\<close> as
    React renders a number into an input, \<open>js_spread\<close> (\<open>[...xs]\<close>, raising on a
    non-iterable) and \<open>js_array_set\<close> (\<open>a[i] = v\<close>, extending past the end), and
    \<open>html_valid_float\<close>, the values a number input reports.  Lemmas: the parser
    accepts every value a number input reports (a finite number) and reads back
    every printed integer; every printed integer is itself a value a number
    input can report.  These carry the handler-level claims of Draft.
  \<^item> Draft (the DraftStore): the draft as a map from property names to values;
    \<open>addNewProduct\<close>, \<open>handleModalInputChange\<close>, \<open>handleImageChange\<close>,
    \<open>handleAddImage\<close>, \<open>handleRemoveImage\<close> and the upload updater, each the
    functional updater passed to \<open>setTempProduct\<close>, errors as \<open>Inl TypeError\<close>;
    ProductModal's rendering guards (\<open>add_image_visible\<close>,
    \<open>remove_image_visible\<close>, \<open>image_input_rendered\<close>, the form's inputs
    \<open>form_event\<close>); \<open>ui_run\<close> runs a session of edits, skipping an action whose
    control is not on screen.  Lemmas C1 to C11, C13 and C14: the invariant \<open>wf_draft\<close>
    (strings, finite prices, \<open>is_enabled\<close> in {0, 1}, at most five image
    strings) holds through every session and no offered action raises; the
    behaviour of each handler on every branch; the two scenarios of the spec for
    every input (an edit followed by add and remove gives back the edit, C11; a
    title and any integer price typed into the template give a well-formed
    draft, C14); and
    where the code departs from the spec (the bound is enforced only by the
    rendering on every full draft, out-of-range image writes extend the array,
    every negative integer is accepted as a price, and any integer is stored as
    \<open>is_enabled\<close>, the radios alone limiting it to 0 and 1).
  \<^item> BsModal: Bootstrap's \<open>Modal\<close> as the environment of the dialogs (not
    repository code): four phases from its flags \<open>_isShown\<close> and
    \<open>_isTransitioning\<close>, \<open>show()\<close> and \<open>hide()\<close> ignored during a transition,
    \<open>hidden.bs.modal\<close> at the end of a hide transition.
  \<^item> ModalSync (the ModalLifecycleController): the owner's flag with the
    component's refs (widget, listeners with their captured \<open>isOpen\<close>, a
    counter of listener-made \<open>onClose\<close> calls) as \<open>modal_sys\<close>; \<open>modal_step\<close>
    over six events (owner opens, owner closes, close/cancel button, backdrop or
    Escape, end of a transition, owner re-render); \<open>modal_reach\<close> the reachable
    states from the mount.  DetailModal runs the same machine
    (\<open>detail_modal_step\<close>).  Lemmas C15 to C21: the invariant (one listener
    capturing the current flag; open implies the widget is not hidden); the
    loop-breaker (a closed dialog never notifies); programmatic close and
    dismissal each behave as the spec says; from every reachable state where the
    dialog fades in, a page close leaves the widget shown while the page believes
    it closed (C19), and from every such state only a backdrop or Escape
    dismissal hides it (C20); disposal only at unmount.

  \<^item> Session: the token the mount effect reads from \<open>document.cookie\<close> with
    the regular expression of ProductPage.jsx line 84 (\<open>cookie_token\<close>: the
    alternative anchored at the start, else the greedy \<open>.*;\s*\<close> prefix, i.e. the
    last cookie after a semicolon, else the empty string), over the cookie string
    the browser builds from a jar (\<open>cookie_string\<close>), and the expiry written by
    \<open>handleLogout\<close> (\<open>expire_token\<close>).  Lemma C22: the regex reads exactly the stored token
    of every well-formed jar.
  \<^item> CookieRegex: the regular expression itself, as JavaScript runs it.
    \<open>rx\<close> is the syntax of the constructs the pattern uses (anchors, classes,
    greedy star, sequence, alternation, capture); \<open>rx_match\<close> returns the end
    states of a match in backtracking priority order (greedy star longest first,
    left alternative first), so \<open>rx_first\<close>, its head, is the match JavaScript
    takes; \<open>rx_search\<close> tries the start positions left to right, \<open>js_replace\<close>
    is \<open>String.prototype.replace\<close> with a non-global regex and \<open>dollar1\<close> the
    replacement \<open>"$1"\<close>.  \<open>cookie_regex\<close> transcribes the literal of
    ProductPage.jsx line 84 and \<open>cookie_replace\<close> the call.  Lemma C23
    (equivalence): on every cookie string without line terminators the regex
    replacement equals the reference reading \<open>cookie_token\<close> of Session; the
    proof computes the first match part by part (the greedy prefix backs off to
    the last semicolon followed by an assignment, the white-space skip is forced
    because the next literal is not white space).
  \<^item> Page (the ListController, the EntityController and the session handling
    of ProductPage.jsx): the hooks as the record \<open>page\<close> together with the
    environment (mounted or not, route, toasts, the pending requests with their
    continuations, the log of API calls, the axios header, the cookie jar).  Each
    \<open>async\<close> handler is split at its \<open>await\<close>: the part before is a function
    (\<open>getData\<close>, \<open>checkLogin\<close>, \<open>page_mount\<close>, \<open>handleLogout\<close>,
    \<open>handleDelete\<close>, \<open>handleUpload\<close>, \<open>handleModalSubmit\<close>) that ends in
    \<open>issue\<close>, the part after is \<open>complete\<close> of the continuation, run when the
    event \<open>Complete i r\<close> settles request \<open>i\<close> (\<open>settle\<close>).  Requests settle in
    any order with any response the API's contract allows (\<open>resp_fits\<close>), so
    the model covers every interleaving of user events and responses.
    \<open>page_step\<close> gives each event of the page, \<open>page_enabled\<close> the events on
    screen (page buttons only when no dialog covers the page, dialog controls only
    while it is shown, draft edits only through ProductModal's guards), and
    \<open>page_reach\<close> the reachable states from the mount.  The two dialogs are
    ModalSync machines inside the page state, driven by \<open>openModal\<close>,
    \<open>closeModal\<close>, \<open>handleOpenDetail\<close>, \<open>handleCloseDetail\<close> and their own
    events; a page re-render is their \<open>ParentRender\<close> event, which may happen at
    any time.  Lemmas C24 to C38 (C27 in Render): the invariant \<open>page_inv\<close> of every reachable
    state (no updater throws, the draft and the list are well-formed, the
    payloads sent are well-formed, the dialogs keep their invariant); the two
    dialogs are never on screen together (C25, by induction over the reachable
    states, each event keeping or hiding a hidden dialog); submit
    (C26), delete (C31), list, mount (C33), logout and upload on each branch; and the races the code
    does not guard against (a double submit, list responses out of order, the
    loading flag cleared while a request is pending, an upload landing in another
    draft), and which settlements send a reload, also after the page was left
    (C36).  Lemma C40
    (termination): \<open>quiesce\<close> settles the oldest pending request again and
    again, by \<open>while_option\<close>, with the responses of any policy the API's
    contract allows; from every reachable state it halts with no request pending
    and no spinner on screen.  The measure is \<open>pending_weight\<close>: a request
    whose continuation may issue one more request (a create, update or delete
    reloads the list, a session check loads it) weighs 2, the others 1, and each
    settlement lowers the sum; the loading flag is on only while a list or
    session request is pending (\<open>loading_ok\<close>).

  \<^item> DraftSpec: the DraftStore contract of the spec (section 4.1) as an
    abstract machine on \<open>adraft\<close> (the properties, and the images as a list of
    strings): \<open>spec_apply\<close> of \<open>setField\<close> with the spec's coercion policy,
    \<open>setImageAt\<close> (a no-op out of range), \<open>appendImage\<close> with its guard,
    \<open>removeLastImage\<close> and \<open>reset\<close>; \<open>draft_abs\<close> abstracts a concrete draft and
    \<open>op_of\<close> names the contract operation of each handler.  Lemma C39: every
    session of edits the user can produce refines the contract, the hidden
    controls of the dialog matching the contract's guarded no-ops.
  \<^item> Render: what the page shows.  \<open>js_truthy\<close> is ToBoolean and
    \<open>react_child\<close> what React renders for a child expression (nothing for
    \<open>false\<close>, \<open>null\<close> and \<open>undefined\<close>, the digits for a number, so
    \<open>{0 && ...}\<close> shows 0).  \<open>detail_render\<close> is DetailModal's body over the
    draft as a \<open>detail_view\<close> record (image, title, badges, prices, the gallery
    slides with their alt texts from \<open>detail_gallery\<close>), with the TypeError of
    \<open>imagesUrl.map\<close> on a non-array; DetailModal renders it on every render of
    the page, open or not.  \<open>app_route\<close> is the route table of App.jsx and
    \<open>route_ok\<close> says the mounted page is the one the route selects.  Lemma C32:
    in every reachable state the detail body renders without error, one slide
    per image numbered from 1, the main image hidden exactly when its URL is
    empty, finite prices.  Lemma C34: in every reachable state the page is
    mounted exactly when the route selects it.  \<open>product_row\<close> is one
    row of the product table (the cells as React children, the enabled badge by
    truthiness); on a reachable state every row shows finite prices and the
    badge says enabled exactly when \<open>is_enabled\<close> is 1.  The records
    \<open>product_modal_props\<close> and \<open>detail_modal_props\<close> are the dialogs'
    parameters and \<open>product_modal_props_of\<close>, \<open>detail_modal_props_of\<close> what
    ProductPage passes, each callback as the page event it causes; the dialogs'
    buttons call exactly these callbacks.  \<open>product_modal_header\<close>,
    \<open>product_modal_footer\<close>, \<open>detail_modal_header\<close> and
    \<open>detail_modal_footer\<close> are the dialogs' title and buttons (labels kept as
    the constructors of \<open>dialog_label\<close>) with the page event each button
    causes; every button of a shown dialog is an event the page offers.  Lemma
    C27: from the idle list, the create and edit buttons open the dialog with the
    matching title and confirm label, and the confirm sends the matching create
    or update request.
  \<^item> Liveness: \<open>page_next\<close>, one step of the page by an event it offers,
    and its reflexive transitive closure, the futures of a state.  Lemma C12
    (liveness): from every reachable state of the mounted page, the server
    answering every request (\<open>quiesce\<close> with any non-failing policy, which
    keeps the page mounted) and the user then running \<open>close_events\<close> on each
    dialog (wait for the fade, close button, Escape or backdrop, wait for the
    fade-out) lead to the idle list with nothing pending, no spinner and both
    dialogs closed and hidden.  The Escape/backdrop step is needed: after a
    close during the fade-in (C19) the buttons do nothing.

  \<^bold>\<open>Modelling choices.\<close>  Objects are maps, so property order is not
  modelled.  Numbers are exact: the rounding to doubles is not modelled, which
  matters only for literals beyond double precision.  A state update of the
  page, the re-render and the passive effects are one atomic step, as React
  flushes them before the next discrete event.  There is no loop in the
  handlers: every definition is total by structural recursion, and the
  JavaScript parser and the regex matcher recurse on the string.  The one loop
  is the settling of all pending requests (\<open>quiesce\<close>), a
  \<open>while_option\<close> whose halting is the theorem C40, not an assumption.

  \<^bold>\<open>Plan.\<close>  Modelled: the DraftStore with its contract, the dialog
  synchronisation, the session token and its regular expression, the page with
  its API interleavings and the settling of its requests, the routes, and the
  detail dialog's rendering of the draft, the product table's rows, the dialogs'
  headers and footers, the props the page passes them, and what the user can
  always reach.  What is left of the four source files is import lines, closing
  tags and the texts of the page's own buttons and table header, which decide no
  behaviour; the rest of the system is library code (Bootstrap, React Router,
  react-toastify, Swiper) or not in the repository (the API module, LoginPage,
  Pagination, LoadingSpinner), and is modelled only as far as the code above
  relies on it.

  \<^bold>\<open>Not modelled.\<close>  ProductModal's and ProductPage's JSX markup beyond
  the guards that decide which handlers can run and the dialogs' headers and
  footers (DetailModal's body is modelled), the import lines,
  the \<open>BrowserRouter\<close> internals (only the route table),
  cookie strings with line terminators (where \<open>.\<close> stops; browsers do not
  store them in cookies), the rendering of toasts and of
  the spinner (only the messages and the flag are kept), the Swiper gallery, the
  Pagination and LoadingSpinner components and the LoginPage, which are not in
  the repository, and the API module, which is not in the repository either: its
  calls are recorded and settle by the contract of the spec's interface table.
  The order in which React flushes state updates inside one handler is not
  modelled beyond atomic steps; the re-registration of the dialog listeners on a
  page re-render is an event of its own.
\<close>

end
